(* ===== verification/Prelude.thy ===== *)
theory Prelude
  imports Main "HOL-Library.Word"
begin

text \<open>
  Shared vocabulary of the development: bytes and Rust integers, the result type of fallible
  Rust code (\<open>Ok\<close>, \<open>Err\<close> and a panic), the state-and-result combinators that stand for
  Rust's question mark operator and \<open>map_err\<close>, and the generic list lemmas the components use.
\<close>

unbundle bit_operations_syntax

section \<open>Collections of facts\<close>

named_theorems io_simps "equations of the state-and-result combinators"
named_theorems rust_int "unfolding the Rust integer operations"

section \<open>Integers and bytes\<close>

type_synonym byte = "8 word"
type_synonym bytes = "byte list"

text \<open>
  The code's \<open>u64\<close>, \<open>u32\<close>, \<open>u16\<close> and \<open>usize\<close> (64 bits wide) are natural numbers whose
  arithmetic carries the wrap-around of the release profile. A value of such a type is below
  the bound of its width; the operations below keep it there.
\<close>

type_synonym u64 = nat
type_synonym u32 = nat
type_synonym u16 = nat
type_synonym usize = nat

definition add64 :: "u64 \<Rightarrow> u64 \<Rightarrow> u64" where
  "add64 a b = (a + b) mod 2 ^ 64"

definition mul64 :: "u64 \<Rightarrow> u64 \<Rightarrow> u64" where
  "mul64 a b = (a * b) mod 2 ^ 64"

definition as_u32 :: "nat \<Rightarrow> u32" where
  "as_u32 n = n mod 2 ^ 32"

definition as_u8 :: "nat \<Rightarrow> byte" where
  "as_u8 n = word_of_nat n"

definition saturating_sub :: "nat \<Rightarrow> nat \<Rightarrow> nat" where
  "saturating_sub a b = (if b \<le> a then a - b else 0)"

definition saturating_mul32 :: "u32 \<Rightarrow> u32 \<Rightarrow> u32" where
  "saturating_mul32 a b = min (a * b) (2 ^ 32 - 1)"

definition checked_div :: "nat \<Rightarrow> nat \<Rightarrow> nat option" where
  "checked_div a b = (if b = 0 then None else Some (a div b))"

declare add64_def [rust_int] mul64_def [rust_int] as_u32_def [rust_int]
  saturating_sub_def [rust_int] saturating_mul32_def [rust_int] checked_div_def [rust_int]

lemma add64_small [simp]: "a + b < 2 ^ 64 \<Longrightarrow> add64 a b = a + b"
  by (simp add: add64_def)

lemma mul64_small [simp]: "a * b < 2 ^ 64 \<Longrightarrow> mul64 a b = a * b"
  by (simp add: mul64_def)

lemma as_u32_small [simp]: "n < 2 ^ 32 \<Longrightarrow> as_u32 n = n"
  by (simp add: as_u32_def)

lemma saturating_sub_eq [simp]: "saturating_sub a b = a - b"
  by (simp add: saturating_sub_def)

text \<open>\<open>u64::div_ceil\<close> as the standard library computes it; a zero divisor panics.\<close>

definition ceil_div :: "nat \<Rightarrow> nat \<Rightarrow> nat" where
  "ceil_div a b = a div b + (if a mod b = 0 then 0 else 1)"

text \<open>Decimal and hexadecimal text, as \<open>format!\<close> prints integers and bytes.\<close>

definition digit_char :: "nat \<Rightarrow> char" where
  "digit_char n = ''0123456789abcdef'' ! n"

fun show_nat :: "nat \<Rightarrow> string" where
  "show_nat n = (if n < 10 then [digit_char n] else show_nat (n div 10) @ [digit_char (n mod 10)])"

declare show_nat.simps [simp del]

definition hex_byte :: "byte \<Rightarrow> string" where
  "hex_byte b = [digit_char (unat b div 16), digit_char (unat b mod 16)]"

lemma ceil_div_bounds:
  assumes "0 < b"
  shows "a \<le> ceil_div a b * b" and "0 < a \<Longrightarrow> (ceil_div a b - 1) * b < a"
proof -
  have a: "a = a div b * b + a mod b" by simp
  have m: "a mod b < b" using assms by simp
  have "a \<le> a div b * b + b" using a m by linarith
  then show "a \<le> ceil_div a b * b"
    using a by (cases "a mod b = 0") (auto simp: ceil_div_def algebra_simps)
  show "(ceil_div a b - 1) * b < a" if "0 < a"
  proof (cases "a mod b = 0")
    case True
    then have "a = a div b * b" using a by simp
    then have "0 < a div b" using that by (metis gr0I mult_0)
    then have "(a div b - 1) * b < a div b * b" using assms by simp
    then show ?thesis using True \<open>a = a div b * b\<close> by (simp add: ceil_div_def)
  next
    case False
    then have "a div b * b < a" using a by linarith
    then show ?thesis using False by (simp add: ceil_div_def)
  qed
qed

lemma ceil_div_le:
  assumes "a \<le> c * b" "0 < b"
  shows "ceil_div a b \<le> c"
proof (rule ccontr)
  assume "\<not> ceil_div a b \<le> c"
  then have c: "c \<le> ceil_div a b - 1" by simp
  have "0 < a"
    using \<open>\<not> ceil_div a b \<le> c\<close> by (cases "a = 0") (auto simp: ceil_div_def)
  then have "(ceil_div a b - 1) * b < a" by (rule ceil_div_bounds(2) [OF assms(2)])
  moreover have "c * b \<le> (ceil_div a b - 1) * b" using c by (rule mult_le_mono1)
  ultimately show False using assms(1) by linarith
qed

lemma ceil_div_pos [simp]: "0 < b \<Longrightarrow> 0 < ceil_div a b \<longleftrightarrow> 0 < a"
  using ceil_div_bounds(1) [of b a] by (auto simp: ceil_div_def intro: gr0I)

lemma ceil_div_0 [simp]: "ceil_div 0 b = 0"
  by (simp add: ceil_div_def)

lemma ceil_div_less_iff:
  assumes "0 < b"
  shows "i < ceil_div a b \<longleftrightarrow> i * b < a"
proof
  assume i: "i < ceil_div a b"
  then have "0 < a" by (metis ceil_div_0 gr0I not_less0)
  then have "(ceil_div a b - 1) * b < a" using assms by (rule ceil_div_bounds(2) [rotated])
  moreover have "i * b \<le> (ceil_div a b - 1) * b" using i by (intro mult_le_mono1) simp
  ultimately show "i * b < a" by linarith
next
  assume "i * b < a"
  then have "i * b < ceil_div a b * b" using ceil_div_bounds(1) [OF assms, of a] by linarith
  then show "i < ceil_div a b" by simp
qed

section \<open>Results\<close>

text \<open>
  What a Rust function that returns \<open>Result\<close> can do: return \<open>Ok\<close>, return \<open>Err\<close>, or panic
  (a division by zero, an index out of range, a failed assertion).
\<close>

datatype ('a, 'e) result = Ok 'a | Err 'e | Panic

definition div_ceil :: "nat \<Rightarrow> nat \<Rightarrow> (nat, 'e) result" where
  "div_ceil a b = (if b = 0 then Panic else Ok (ceil_div a b))"

fun is_ok :: "('a, 'e) result \<Rightarrow> bool" where
  "is_ok (Ok _) = True"
| "is_ok (Err _) = False"
| "is_ok Panic = False"

fun bind_res :: "('a, 'e) result \<Rightarrow> ('a \<Rightarrow> ('b, 'e) result) \<Rightarrow> ('b, 'e) result" where
  "bind_res (Ok a) f = f a"
| "bind_res (Err e) f = Err e"
| "bind_res Panic f = Panic"

fun map_err :: "('e \<Rightarrow> 'f) \<Rightarrow> ('a, 'e) result \<Rightarrow> ('a, 'f) result" where
  "map_err g (Ok a) = Ok a"
| "map_err g (Err e) = Err (g e)"
| "map_err g Panic = Panic"

fun ok_or :: "'a option \<Rightarrow> 'e \<Rightarrow> ('a, 'e) result" where
  "ok_or (Some a) e = Ok a"
| "ok_or None e = Err e"

fun res_ok :: "('a, 'e) result \<Rightarrow> 'a option" where
  "res_ok (Ok a) = Some a"
| "res_ok (Err e) = None"
| "res_ok Panic = None"

lemma bind_res_Ok_iff: "bind_res r f = Ok b \<longleftrightarrow> (\<exists>a. r = Ok a \<and> f a = Ok b)"
  by (cases r) auto

lemma map_err_Ok_iff [simp]: "map_err g r = Ok a \<longleftrightarrow> r = Ok a"
  by (cases r) auto

lemma ok_or_Ok_iff [simp]: "ok_or x e = Ok a \<longleftrightarrow> x = Some a"
  by (cases x) auto

text \<open>
  Code that mutates a state and returns a result: the state is returned on every branch, so
  what an operation did before it failed stays visible.
\<close>

type_synonym ('s, 'a, 'e) io = "'s \<Rightarrow> ('a, 'e) result \<times> 's"

definition return_io :: "'a \<Rightarrow> ('s, 'a, 'e) io" where
  "return_io a s = (Ok a, s)"

definition fail_io :: "'e \<Rightarrow> ('s, 'a, 'e) io" where
  "fail_io e s = (Err e, s)"

definition lift_io :: "('a, 'e) result \<Rightarrow> ('s, 'a, 'e) io" where
  "lift_io r s = (r, s)"

definition bind_io :: "('s, 'a, 'e) io \<Rightarrow> ('a \<Rightarrow> ('s, 'b, 'e) io) \<Rightarrow> ('s, 'b, 'e) io" where
  "bind_io m f s =
     (case m s of
        (Ok a, s') \<Rightarrow> f a s'
      | (Err e, s') \<Rightarrow> (Err e, s')
      | (Panic, s') \<Rightarrow> (Panic, s'))"

definition map_err_io :: "('e \<Rightarrow> 'f) \<Rightarrow> ('s, 'a, 'e) io \<Rightarrow> ('s, 'a, 'f) io" where
  "map_err_io g m s = (case m s of (r, s') \<Rightarrow> (map_err g r, s'))"

lemma return_io_apply [io_simps]: "return_io a s = (Ok a, s)"
  by (simp add: return_io_def)

lemma fail_io_apply [io_simps]: "fail_io e s = (Err e, s)"
  by (simp add: fail_io_def)

lemma lift_io_apply [io_simps]: "lift_io r s = (r, s)"
  by (simp add: lift_io_def)

lemma bind_io_ok [io_simps]: "m s = (Ok a, s') \<Longrightarrow> bind_io m f s = f a s'"
  by (simp add: bind_io_def)

lemma bind_io_err [io_simps]: "m s = (Err e, s') \<Longrightarrow> bind_io m f s = (Err e, s')"
  by (simp add: bind_io_def)

lemma bind_io_Ok_iff:
  "bind_io m f s = (Ok b, s'') \<longleftrightarrow> (\<exists>a s'. m s = (Ok a, s') \<and> f a s' = (Ok b, s''))"
  by (auto simp: bind_io_def split: prod.splits result.splits)

lemma bind_io_assoc: "bind_io (bind_io m f) g = bind_io m (\<lambda>a. bind_io (f a) g)"
  by (rule ext) (simp add: bind_io_def split: prod.split result.split)

text \<open>A property of the state on every branch, failures included.\<close>

lemma bind_io_state:
  assumes "P (snd (m s))" and "\<And>a s1. m s = (Ok a, s1) \<Longrightarrow> P (snd (f a s1))"
  shows "P (snd (bind_io m f s))"
  using assms by (cases "m s"; cases "fst (m s)") (auto simp: bind_io_def)

lemma map_err_io_Ok_iff [simp]: "map_err_io g m s = (Ok a, s') \<longleftrightarrow> m s = (Ok a, s')"
  by (auto simp: map_err_io_def split: prod.splits)

lemma map_err_io_ok [io_simps]: "m s = (Ok a, s') \<Longrightarrow> map_err_io g m s = (Ok a, s')"
  by simp

lemma map_err_io_err [io_simps]: "m s = (Err e, s') \<Longrightarrow> map_err_io g m s = (Err (g e), s')"
  by (simp add: map_err_io_def)

section \<open>Slices of a list\<close>

text \<open>The \<open>i\<close>-th block of \<open>n\<close> elements; the last one may be shorter.\<close>

definition slice :: "nat \<Rightarrow> 'a list \<Rightarrow> nat \<Rightarrow> 'a list" where
  "slice n xs i = take n (drop (i * n) xs)"

lemma concat_slices_take: "concat (map (slice n xs) [0..<k]) = take (k * n) xs"
proof (induction k)
  case 0
  then show ?case by simp
next
  case (Suc k)
  have "take (Suc k * n) xs = take (k * n) xs @ take n (drop (k * n) xs)"
    by (metis add.commute mult_Suc take_add)
  with Suc show ?case by (simp add: slice_def)
qed

lemma concat_slices: "length xs \<le> k * n \<Longrightarrow> concat (map (slice n xs) [0..<k]) = xs"
  by (simp add: concat_slices_take)

lemma length_slice: "length (slice n xs i) = min n (length xs - i * n)"
  by (simp add: slice_def)

lemma nth_slice: "j < length (slice n xs i) \<Longrightarrow> slice n xs i ! j = xs ! (i * n + j)"
  by (auto simp: slice_def intro!: nth_drop)

section \<open>Integers as bytes\<close>

text \<open>\<open>to_le_bytes\<close>, \<open>to_be_bytes\<close> of a \<open>k\<close>-byte integer, and back.\<close>

fun le_bytes :: "nat \<Rightarrow> nat \<Rightarrow> bytes" where
  "le_bytes 0 n = []"
| "le_bytes (Suc k) n = word_of_nat n # le_bytes k (n div 256)"

fun of_le :: "bytes \<Rightarrow> nat" where
  "of_le [] = 0"
| "of_le (b # bs) = unat b + 256 * of_le bs"

definition be_bytes :: "nat \<Rightarrow> nat \<Rightarrow> bytes" where
  "be_bytes k n = rev (le_bytes k n)"

definition of_be :: "bytes \<Rightarrow> nat" where
  "of_be bs = of_le (rev bs)"

lemma length_le_bytes [simp]: "length (le_bytes k n) = k"
  by (induction k n rule: le_bytes.induct) simp_all

lemma take_le_bytes: "j \<le> k \<Longrightarrow> take j (le_bytes k n) = le_bytes j n"
proof (induction k n arbitrary: j rule: le_bytes.induct)
  case (2 k n)
  then show ?case by (cases j) simp_all
qed simp

lemma length_be_bytes [simp]: "length (be_bytes k n) = k"
  by (simp add: be_bytes_def)

lemma of_le_le_bytes: "of_le (le_bytes k n) = n mod 256 ^ k"
proof (induction k n rule: le_bytes.induct)
  case (2 k n)
  have "n mod (256 * 256 ^ k) = 256 * (n div 256 mod 256 ^ k) + n mod 256"
    by (rule mod_mult2_eq)
  moreover have "unat (word_of_nat n :: byte) = n mod 256"
    by (simp add: unat_of_nat)
  ultimately show ?case using 2 by simp
qed simp

lemma of_be_be_bytes: "of_be (be_bytes k n) = n mod 256 ^ k"
  by (simp add: of_be_def be_bytes_def of_le_le_bytes)

lemma of_be_bytes_4 [simp]: "n < 2 ^ 32 \<Longrightarrow> of_be (be_bytes 4 n) = n"
  by (simp add: of_be_be_bytes)

lemma le_bytes_inj: "m < 256 ^ k \<Longrightarrow> n < 256 ^ k \<Longrightarrow> le_bytes k m = le_bytes k n \<longleftrightarrow> m = n"
  by (metis mod_less of_le_le_bytes)

lemma be_bytes_inj: "m < 256 ^ k \<Longrightarrow> n < 256 ^ k \<Longrightarrow> be_bytes k m = be_bytes k n \<longleftrightarrow> m = n"
  by (simp add: be_bytes_def le_bytes_inj)

lemma of_le_less: "of_le bs < 256 ^ length bs"
proof (induction bs)
  case (Cons b bs)
  have "unat b < 2 ^ LENGTH(8)" by (rule unsigned_less)
  with Cons show ?case by simp
qed simp

lemma of_be_less: "of_be bs < 256 ^ length bs"
  using of_le_less [of "rev bs"] by (simp add: of_be_def)

end
