(* ===== verification/Trust.thy ===== *)
theory Trust
  imports Prelude
begin

text \<open>
  The device trust levels of \<open>crates/justdrop-core/src/trust.rs\<close>: the enum, its string form
  used as a database column, its predicates and the transition check \<open>transition_to\<close>, with
  the runs of accepted transitions as a step relation.
\<close>

datatype trust_level = TUnknown | TTrusted | TFavorite | TBlocked

definition default_trust :: trust_level where
  "default_trust = TUnknown"

fun as_str :: "trust_level \<Rightarrow> string" where
  "as_str TUnknown = ''unknown''"
| "as_str TTrusted = ''trusted''"
| "as_str TFavorite = ''favorite''"
| "as_str TBlocked = ''blocked''"

definition parse_str :: "string \<Rightarrow> trust_level" where
  "parse_str s =
     (if s = ''trusted'' then TTrusted
      else if s = ''favorite'' then TFavorite
      else if s = ''blocked'' then TBlocked
      else TUnknown)"

fun auto_accept :: "trust_level \<Rightarrow> bool" where
  "auto_accept TFavorite = True"
| "auto_accept _ = False"

fun is_blocked :: "trust_level \<Rightarrow> bool" where
  "is_blocked TBlocked = True"
| "is_blocked _ = False"

fun is_trusted :: "trust_level \<Rightarrow> bool" where
  "is_trusted TTrusted = True"
| "is_trusted TFavorite = True"
| "is_trusted _ = False"

fun transition_to :: "trust_level \<Rightarrow> trust_level \<Rightarrow> trust_level option" where
  "transition_to _ TBlocked = Some TBlocked"
| "transition_to TBlocked TUnknown = Some TUnknown"
| "transition_to TBlocked _ = None"
| "transition_to TUnknown TTrusted = Some TTrusted"
| "transition_to TUnknown TFavorite = Some TFavorite"
| "transition_to TTrusted TFavorite = Some TFavorite"
| "transition_to TFavorite TTrusted = Some TTrusted"
| "transition_to TTrusted TUnknown = Some TUnknown"
| "transition_to TFavorite TUnknown = Some TUnknown"
| "transition_to s t = (if s = t then Some t else None)"

section \<open>Runs of accepted transitions\<close>

inductive trust_run :: "trust_level \<Rightarrow> trust_level list \<Rightarrow> trust_level \<Rightarrow> bool" where
  run_nil: "trust_run s [] s"
| run_step: "transition_to s t = Some u \<Longrightarrow> trust_run u ts v \<Longrightarrow> trust_run s (t # ts) v"

inductive_cases trust_run_NilE [elim!]: "trust_run s [] v"
inductive_cases trust_run_ConsE [elim!]: "trust_run s (t # ts) v"

lemma transition_to_target: "transition_to s t = Some u \<Longrightarrow> u = t"
  by (cases s; cases t) auto

lemma transition_from_blocked:
  "transition_to TBlocked t = Some u \<longleftrightarrow> u = t \<and> (t = TBlocked \<or> t = TUnknown)"
  by (cases t) auto

lemma trust_run_last: "trust_run s ts v \<Longrightarrow> v = (if ts = [] then s else last ts)"
  by (induction rule: trust_run.induct) (auto dest: transition_to_target)



text \<open>
  The string form stored in the database is a faithful one: reading back what
  \<open>as_str\<close> wrote gives the level, and every other string reads as \<open>Unknown\<close>.
\<close>

theorem trust_string_roundtrip:
  "parse_str (as_str l) = l \<and> (s \<notin> range as_str \<longrightarrow> parse_str s = TUnknown)"
proof
  show "parse_str (as_str l) = l"
    by (cases l) (simp_all add: parse_str_def)
  show "s \<notin> range as_str \<longrightarrow> parse_str s = TUnknown"
    unfolding parse_str_def by (metis as_str.simps range_eqI)
qed

theorem trust_string_roundtrip_witness:
  "parse_str (as_str TBlocked) = TBlocked \<and> parse_str ''BLOCKED'' = TUnknown"
proof -
  have "''BLOCKED'' \<notin> range as_str"
  proof
    assume "''BLOCKED'' \<in> range as_str"
    then obtain l where "''BLOCKED'' = as_str l" by auto
    then show False by (cases l) simp_all
  qed
  then show ?thesis
    using trust_string_roundtrip [of TBlocked "''BLOCKED''"] by blast
qed

end
