(* ===== verification/Filesystem.thy ===== *)
theory Filesystem
  imports Prelude
begin

text \<open>
  The operating system interface that the storage code uses through \<open>std::path\<close>, \<open>std::fs\<close>
  and their asynchronous counterparts. A path is what Rust's \<open>Path::components\<close> sees of it on
  Unix; the file system is a map from paths to nodes. Every call may fail: an oracle says which
  error, if any, the n-th call of the run meets, and how many bytes a single read or an
  interrupted write transfers. Nothing in this theory models code of the repository; it is the
  environment the models of the repository's code run in.
\<close>

section \<open>Paths\<close>

datatype path = Path (absolute: bool) (comps: "string list")

fun split_slash :: "string \<Rightarrow> string list" where
  "split_slash [] = [[]]"
| "split_slash (c # cs) =
     (if c = CHR ''/'' then [] # split_slash cs
      else (case split_slash cs of [] \<Rightarrow> [[c]] | w # ws \<Rightarrow> (c # w) # ws))"

definition proper_comps :: "string list \<Rightarrow> string list" where
  "proper_comps ws = filter (\<lambda>w. w \<noteq> [] \<and> w \<noteq> ''.'') ws"

definition path_of :: "string \<Rightarrow> path" where
  "path_of s =
     (let ws = split_slash s; abs = (take 1 s = ''/'')
      in if \<not> abs \<and> take 1 ws = [''.''] then Path False (''.'' # proper_comps ws)
         else Path abs (proper_comps ws))"

fun slash_join :: "string list \<Rightarrow> string" where
  "slash_join [] = []"
| "slash_join [w] = w"
| "slash_join (w # ws) = w @ ''/'' @ slash_join ws"

definition path_display :: "path \<Rightarrow> string" where
  "path_display p = (if absolute p then ''/'' else []) @ slash_join (comps p)"

text \<open>\<open>Path::join\<close>: an absolute argument replaces the base.\<close>

definition join :: "path \<Rightarrow> path \<Rightarrow> path" where
  "join p q =
     (if absolute q then q
      else if p = Path False [] then q
      else Path (absolute p) (comps p @ proper_comps (comps q)))"

definition parent :: "path \<Rightarrow> path option" where
  "parent p = (if comps p = [] then None else Some (Path (absolute p) (butlast (comps p))))"

definition file_name :: "path \<Rightarrow> string option" where
  "file_name p =
     (if comps p = [] \<or> last (comps p) = ''..'' \<or> last (comps p) = ''.'' then None
      else Some (last (comps p)))"

text \<open>The split of a file name at its last dot that \<open>file_stem\<close> and \<open>extension\<close> share.\<close>

definition split_name :: "string \<Rightarrow> string \<times> string option" where
  "split_name n =
     (let r = rev n; after = rev (takeWhile (\<lambda>c. c \<noteq> CHR ''.'') r);
          rest = dropWhile (\<lambda>c. c \<noteq> CHR ''.'') r
      in case rest of
           [] \<Rightarrow> (n, None)
         | _ # before \<Rightarrow> if before = [] then (n, None) else (rev before, Some after))"

definition file_stem :: "path \<Rightarrow> string option" where
  "file_stem p = map_option (\<lambda>n. fst (split_name n)) (file_name p)"

definition extension :: "path \<Rightarrow> string option" where
  "extension p = Option.bind (file_name p) (\<lambda>n. snd (split_name n))"

definition with_name :: "path \<Rightarrow> string \<Rightarrow> path" where
  "with_name p n = Path (absolute p) (butlast (comps p) @ [n])"

definition with_extension :: "path \<Rightarrow> string \<Rightarrow> path" where
  "with_extension p e =
     (case file_stem p of
        None \<Rightarrow> p
      | Some st \<Rightarrow> with_name p (if e = [] then st else st @ ''.'' @ e))"

definition inside :: "path \<Rightarrow> path \<Rightarrow> bool" where
  "inside d p \<longleftrightarrow> absolute p = absolute d \<and> take (length (comps d)) (comps p) = comps d
     \<and> ''..'' \<notin> set (drop (length (comps d)) (comps p))"

lemma parent_with_name [simp]: "comps p \<noteq> [] \<Longrightarrow> parent (with_name p n) = parent p"
  by (simp add: parent_def with_name_def)

lemma parent_with_extension: "parent (with_extension p e) = parent p"
  by (cases "comps p = []")
    (auto simp: with_extension_def file_stem_def file_name_def split: option.splits)

section \<open>Files\<close>

datatype node = DirN | FileN bytes

text \<open>The error kinds the code looks at; any other error is carried with its text.\<close>

datatype io_error = NotFound | NotADirectory | IsADirectory | OtherIo string

fun io_display :: "io_error \<Rightarrow> string" where
  "io_display NotFound = ''No such file or directory (os error 2)''"
| "io_display NotADirectory = ''Not a directory (os error 20)''"
| "io_display IsADirectory = ''Is a directory (os error 21)''"
| "io_display (OtherIo m) = m"

datatype fs_op = OpMetadata | OpOpen | OpCreateDir | OpSetLen | OpSeek | OpRead | OpWrite
  | OpFlush | OpRename | OpRemove | OpExists | OpReadDir | OpSetPermissions

record fs =
  nodes :: "path \<Rightarrow> node option"
  fault :: "nat \<Rightarrow> fs_op \<Rightarrow> path \<Rightarrow> io_error option"
  cap :: "nat \<Rightarrow> nat"
  ticks :: nat

text \<open>The files alone, without directories: what the storage theorems speak of.\<close>

definition content :: "'a fs_scheme \<Rightarrow> path \<Rightarrow> bytes option" where
  "content s p = (case nodes s p of Some (FileN d) \<Rightarrow> Some d | _ \<Rightarrow> None)"

definition healthy :: "'a fs_scheme \<Rightarrow> bool" where
  "healthy s \<longleftrightarrow> (\<forall>n op p. fault s n op p = None)"

definition fs_gate :: "fs_op \<Rightarrow> path \<Rightarrow> ('a fs_scheme, unit, io_error) io" where
  "fs_gate op p s =
     (case fault s (ticks s) op p of
        None \<Rightarrow> (Ok (), s\<lparr>ticks := Suc (ticks s)\<rparr>)
      | Some e \<Rightarrow> (Err e, s\<lparr>ticks := Suc (ticks s)\<rparr>))"

definition set_node :: "path \<Rightarrow> node option \<Rightarrow> 'a fs_scheme \<Rightarrow> 'a fs_scheme" where
  "set_node p n s = s\<lparr>nodes := (nodes s)(p := n)\<rparr>"

definition is_dir :: "'a fs_scheme \<Rightarrow> path \<Rightarrow> bool" where
  "is_dir s p \<longleftrightarrow> p = Path False [] \<or> p = Path True [] \<or> nodes s p = Some DirN"

definition parent_ok :: "'a fs_scheme \<Rightarrow> path \<Rightarrow> bool" where
  "parent_ok s p = (case parent p of None \<Rightarrow> True | Some d \<Rightarrow> is_dir s d)"

definition fs_exists :: "path \<Rightarrow> ('a fs_scheme, bool, io_error) io" where
  "fs_exists p = bind_io (fs_gate OpExists p) (\<lambda>_ s. (Ok (nodes s p \<noteq> None), s))"

definition fs_len :: "path \<Rightarrow> ('a fs_scheme, u64, io_error) io" where
  "fs_len p = bind_io (fs_gate OpMetadata p)
     (\<lambda>_ s. (case nodes s p of
                None \<Rightarrow> (Err NotFound, s)
              | Some DirN \<Rightarrow> (Ok 0, s)
              | Some (FileN d) \<Rightarrow> (Ok (length d), s)))"

fun make_dirs :: "bool \<Rightarrow> string list \<Rightarrow> string list \<Rightarrow> ('a fs_scheme, unit, io_error) io" where
  "make_dirs a pre [] s = (Ok (), s)"
| "make_dirs a pre (c # cs) s =
     (let p = Path a (pre @ [c])
      in case nodes s p of
           Some (FileN _) \<Rightarrow> (Err NotADirectory, s)
         | Some DirN \<Rightarrow> make_dirs a (pre @ [c]) cs s
         | None \<Rightarrow> make_dirs a (pre @ [c]) cs (set_node p (Some DirN) s))"

definition fs_create_dir_all :: "path \<Rightarrow> ('a fs_scheme, unit, io_error) io" where
  "fs_create_dir_all p = bind_io (fs_gate OpCreateDir p) (\<lambda>_. make_dirs (absolute p) [] (comps p))"

text \<open>\<open>OpenOptions::new().create(true).truncate(false).write(true).open(p)\<close>.\<close>

definition fs_open_create :: "path \<Rightarrow> ('a fs_scheme, unit, io_error) io" where
  "fs_open_create p = bind_io (fs_gate OpOpen p)
     (\<lambda>_ s. (case nodes s p of
                Some DirN \<Rightarrow> (Err IsADirectory, s)
              | Some (FileN _) \<Rightarrow> (Ok (), s)
              | None \<Rightarrow> if parent_ok s p then (Ok (), set_node p (Some (FileN [])) s)
                        else (Err NotFound, s)))"

definition fs_open :: "path \<Rightarrow> ('a fs_scheme, unit, io_error) io" where
  "fs_open p = bind_io (fs_gate OpOpen p)
     (\<lambda>_ s. (case nodes s p of
                None \<Rightarrow> (Err NotFound, s)
              | Some DirN \<Rightarrow> (Err IsADirectory, s)
              | Some (FileN _) \<Rightarrow> (Ok (), s)))"

definition set_length :: "nat \<Rightarrow> bytes \<Rightarrow> bytes" where
  "set_length n d = take n d @ replicate (n - length d) 0"

definition fs_set_len :: "path \<Rightarrow> u64 \<Rightarrow> ('a fs_scheme, unit, io_error) io" where
  "fs_set_len p n = bind_io (fs_gate OpSetLen p)
     (\<lambda>_ s. (case content s p of
                None \<Rightarrow> (Err NotFound, s)
              | Some d \<Rightarrow> (Ok (), set_node p (Some (FileN (set_length n d))) s)))"

text \<open>A write at an offset: a gap before the offset reads as zeroes.\<close>

definition write_at :: "nat \<Rightarrow> bytes \<Rightarrow> bytes \<Rightarrow> bytes" where
  "write_at off x d =
     (if x = [] then d
      else take off d @ replicate (off - length d) 0 @ x @ drop (off + length x) d)"

definition fs_write_all :: "path \<Rightarrow> nat \<Rightarrow> bytes \<Rightarrow> ('a fs_scheme, unit, io_error) io" where
  "fs_write_all p off x s =
     (case content s p of
        None \<Rightarrow> (Err NotFound, s)
      | Some d \<Rightarrow>
          (case fs_gate OpWrite p s of
             (Ok _, s') \<Rightarrow> (Ok (), set_node p (Some (FileN (write_at off x d))) s')
           | (Err e, s') \<Rightarrow>
               (Err e, set_node p (Some (FileN (write_at off (take (cap s (ticks s)) x) d))) s')
           | (Panic, s') \<Rightarrow> (Panic, s')))"

definition fs_seek :: "path \<Rightarrow> ('a fs_scheme, unit, io_error) io" where
  "fs_seek p = fs_gate OpSeek p"

definition fs_flush :: "path \<Rightarrow> ('a fs_scheme, unit, io_error) io" where
  "fs_flush p = fs_gate OpFlush p"

text \<open>One \<open>read\<close> call: at least one byte unless the end of the file is reached.\<close>

definition fs_read :: "path \<Rightarrow> nat \<Rightarrow> nat \<Rightarrow> ('a fs_scheme, bytes, io_error) io" where
  "fs_read p pos want s =
     bind_io (fs_gate OpRead p)
       (\<lambda>_ s'. (case content s' p of
                   None \<Rightarrow> (Err NotFound, s')
                 | Some d \<Rightarrow> (Ok (take (min want (max 1 (cap s (ticks s)))) (drop pos d)), s'))) s"

definition fs_rename :: "path \<Rightarrow> path \<Rightarrow> ('a fs_scheme, unit, io_error) io" where
  "fs_rename p q = bind_io (fs_gate OpRename p)
     (\<lambda>_ s. (case nodes s p of
                None \<Rightarrow> (Err NotFound, s)
              | Some n \<Rightarrow>
                  if p = q then (Ok (), s)
                  else if nodes s q = Some DirN then (Err IsADirectory, s)
                  else if \<not> parent_ok s q then (Err NotFound, s)
                  else (Ok (), set_node q (Some n) (set_node p None s))))"

definition fs_remove_file :: "path \<Rightarrow> ('a fs_scheme, unit, io_error) io" where
  "fs_remove_file p = bind_io (fs_gate OpRemove p)
     (\<lambda>_ s. (case content s p of
                None \<Rightarrow> (Err NotFound, s)
              | Some _ \<Rightarrow> (Ok (), set_node p None s)))"

text \<open>\<open>tokio::fs::write\<close>: create or truncate, then write everything.\<close>

definition fs_write_file :: "path \<Rightarrow> bytes \<Rightarrow> ('a fs_scheme, unit, io_error) io" where
  "fs_write_file p x = bind_io (fs_gate OpWrite p)
     (\<lambda>_ s. (case nodes s p of
                Some DirN \<Rightarrow> (Err IsADirectory, s)
              | Some (FileN _) \<Rightarrow> (Ok (), set_node p (Some (FileN x)) s)
              | None \<Rightarrow> if parent_ok s p then (Ok (), set_node p (Some (FileN x)) s)
                        else (Err NotFound, s)))"

text \<open>Access rights are not part of the state: changing them only has an outcome.\<close>

definition fs_set_permissions :: "path \<Rightarrow> nat \<Rightarrow> ('a fs_scheme, unit, io_error) io" where
  "fs_set_permissions p mode = bind_io (fs_gate OpSetPermissions p)
     (\<lambda>_ s. if nodes s p = None then (Err NotFound, s) else (Ok (), s))"

definition fs_read_file :: "path \<Rightarrow> ('a fs_scheme, bytes, io_error) io" where
  "fs_read_file p = bind_io (fs_gate OpRead p)
     (\<lambda>_ s. (case content s p of None \<Rightarrow> (Err NotFound, s) | Some d \<Rightarrow> (Ok d, s)))"

text \<open>\<open>read_to_string\<close>: the bytes of the file, refused unless they are well-formed UTF-8.\<close>

definition cont :: "byte \<Rightarrow> bool" where
  "cont b \<longleftrightarrow> 0x80 \<le> b \<and> b \<le> 0xBF"

function utf8_valid :: "bytes \<Rightarrow> bool" where
  "utf8_valid bs =
     (case bs of
        [] \<Rightarrow> True
      | b # r \<Rightarrow>
          if b < 0x80 then utf8_valid r
          else if 0xC2 \<le> b \<and> b \<le> 0xDF then list_all cont (take 1 r) \<and> r \<noteq> [] \<and> utf8_valid (drop 1 r)
          else if 0xE0 \<le> b \<and> b \<le> 0xEF then
            2 \<le> length r \<and> list_all cont (take 2 r) \<and> (b = 0xE0 \<longrightarrow> 0xA0 \<le> hd r)
              \<and> (b = 0xED \<longrightarrow> hd r \<le> 0x9F) \<and> utf8_valid (drop 2 r)
          else if 0xF0 \<le> b \<and> b \<le> 0xF4 then
            3 \<le> length r \<and> list_all cont (take 3 r) \<and> (b = 0xF0 \<longrightarrow> 0x90 \<le> hd r)
              \<and> (b = 0xF4 \<longrightarrow> hd r \<le> 0x8F) \<and> utf8_valid (drop 3 r)
          else False)"
  by pat_completeness auto
termination by (relation "measure length") auto

declare utf8_valid.simps [simp del]

definition fs_read_to_string :: "path \<Rightarrow> ('a fs_scheme, bytes, io_error) io" where
  "fs_read_to_string p = bind_io (fs_read_file p)
     (\<lambda>d s. if utf8_valid d then (Ok d, s)
            else (Err (OtherIo ''stream did not contain valid UTF-8''), s))"

section \<open>Facts\<close>

text \<open>A name without a separator is one component below any directory.\<close>

definition plain_name :: "string \<Rightarrow> bool" where
  "plain_name n \<longleftrightarrow> CHR ''/'' \<notin> set n \<and> n \<noteq> [] \<and> n \<noteq> ''.''"

lemma split_slash_plain: "CHR ''/'' \<notin> set n \<Longrightarrow> split_slash n = [n]"
  by (induction n) auto

lemma join_plain: "plain_name n \<Longrightarrow> join d (path_of n) = Path (absolute d) (comps d @ [n])"
  by (cases n) (auto simp: join_def path_of_def plain_name_def split_slash_plain proper_comps_def Let_def)

named_theorems fs_simps "frame and effect equations of the file system operations"

lemma set_node_fields [simp]:
  "nodes (set_node p n s) = (nodes s)(p := n)"
  "fault (set_node p n s) = fault s"
  "cap (set_node p n s) = cap s"
  "ticks (set_node p n s) = ticks s"
  by (simp_all add: set_node_def)

lemma content_set_node [simp]:
  "content (set_node p (Some (FileN d)) s) = (content s)(p := Some d)"
  "content (set_node p None s) = (content s)(p := None)"
  "content (s\<lparr>ticks := t\<rparr>) = content s"
  by (auto simp: content_def)

lemma healthy_set_node [simp]:
  "healthy (set_node p n s) = healthy s" "healthy (s\<lparr>ticks := t\<rparr>) = healthy s"
  "healthy (s\<lparr>nodes := N\<rparr>) = healthy s"
  by (simp_all add: healthy_def)

lemma content_Some: "content s p = Some d \<longleftrightarrow> nodes s p = Some (FileN d)"
  by (auto simp: content_def split: option.splits node.splits)

lemma gate_healthy [fs_simps]: "healthy s \<Longrightarrow> fs_gate op p s = (Ok (), s\<lparr>ticks := Suc (ticks s)\<rparr>)"
  by (simp add: fs_gate_def healthy_def)

text \<open>Every call is a gate followed by its effect: what the gate leaves unchanged.\<close>

definition same_env :: "'a fs_scheme \<Rightarrow> 'a fs_scheme \<Rightarrow> bool" where
  "same_env s s' \<longleftrightarrow> (\<exists>t. s' = s\<lparr>ticks := t\<rparr>)"

lemma same_envD:
  "same_env s s' \<Longrightarrow> nodes s' = nodes s \<and> content s' = content s \<and> fault s' = fault s
     \<and> healthy s' = healthy s \<and> is_dir s' = is_dir s \<and> parent_ok s' = parent_ok s"
  by (auto simp: same_env_def is_dir_def parent_ok_def fun_eq_iff split: option.split)

lemma same_env_trans [trans]: "same_env s t \<Longrightarrow> same_env t u \<Longrightarrow> same_env s u"
  by (auto simp: same_env_def)

lemma same_env_refl [simp]: "same_env s s"
  unfolding same_env_def by (rule exI [of _ "ticks s"]) simp

lemma same_env_ticks [simp]: "same_env s (s\<lparr>ticks := t\<rparr>)"
  by (auto simp: same_env_def)

lemma gate_env: "same_env s (snd (fs_gate op p s))"
  by (simp add: fs_gate_def split: option.split)

lemma bind_gate_env:
  assumes "\<And>s1. same_env s s1 \<Longrightarrow> same_env s (snd (f () s1))"
  shows "same_env s (snd (bind_io (fs_gate op p) f s))"
  by (rule bind_io_state [where P = "same_env s"])
    (use assms in \<open>auto simp: fs_gate_def split: option.splits\<close>)

lemma same_env_set_node:
  assumes "same_env s s'"
  shows "same_env (set_node p n s) (set_node p n s')"
proof -
  obtain t where "s' = s\<lparr>ticks := t\<rparr>" using assms by (auto simp: same_env_def)
  then have "set_node p n s' = (set_node p n s)\<lparr>ticks := t\<rparr>" by (simp add: set_node_def)
  then show ?thesis by simp
qed

lemma gate_same_env: "fs_gate op p s = (r, s') \<Longrightarrow> same_env s s' \<and> r \<noteq> Panic"
  by (auto simp: fs_gate_def same_env_def split: option.splits)

lemma bind_gate_Ok:
  assumes "bind_io (fs_gate op p) f s = (Ok a, s')"
  obtains s1 where "same_env s s1" "f () s1 = (Ok a, s')"
  using assms by (auto simp: bind_io_Ok_iff dest: gate_same_env)

lemma bind_gate_cases:
  assumes "bind_io (fs_gate op p) f s = (r, s')"
  obtains (err) e where "r = Err e" "same_env s s'"
    | (run) s1 where "same_env s s1" "f () s1 = (r, s')"
  using assms
  by (auto simp: bind_io_def dest: gate_same_env split: prod.splits result.splits)

lemma bind_gate_healthy:
  assumes "healthy s"
  obtains s1 where "same_env s s1" "bind_io (fs_gate op p) f s = f () s1"
proof
  show "same_env s (s\<lparr>ticks := Suc (ticks s)\<rparr>)" by (auto simp: same_env_def)
  show "bind_io (fs_gate op p) f s = f () (s\<lparr>ticks := Suc (ticks s)\<rparr>)"
    using assms by (simp add: bind_io_def fs_simps)
qed

lemma fs_seek_env: "same_env s (snd (fs_seek p s))"
  by (simp add: fs_seek_def gate_env)

lemma fs_open_env: "same_env s (snd (fs_open p s))"
  unfolding fs_open_def by (rule bind_gate_env) (simp split: option.split node.split)

lemma fs_len_env: "same_env s (snd (fs_len p s))"
  unfolding fs_len_def by (rule bind_gate_env) (simp split: option.split node.split)

lemma fs_read_env: "same_env s (snd (fs_read p pos want s))"
  unfolding fs_read_def by (rule bind_gate_env) (simp split: option.split)

lemma fs_read_file_env: "same_env s (snd (fs_read_file p s))"
  unfolding fs_read_file_def by (rule bind_gate_env) (simp split: option.split)

lemma fs_exists_env: "same_env s (snd (fs_exists p s))"
  unfolding fs_exists_def by (rule bind_gate_env) simp

lemma fs_open_Ok:
  assumes "fs_open p s = (Ok (), s')"
  shows "same_env s s'"
  using assms unfolding fs_open_def
  by (rule bind_gate_Ok) (simp split: option.split_asm node.split_asm)

lemma fs_len_Ok:
  assumes "fs_len p s = (Ok n, s')" and "content s p = Some d"
  shows "n = length d \<and> same_env s s'"
proof -
  obtain s1 where s1: "same_env s s1"
    and c: "(case nodes s1 p of None \<Rightarrow> (Err NotFound, s1) | Some DirN \<Rightarrow> (Ok 0, s1)
             | Some (FileN d) \<Rightarrow> (Ok (length d), s1)) = (Ok n, s')"
    using assms(1) unfolding fs_len_def by (rule bind_gate_Ok)
  have "nodes s1 p = Some (FileN d)" using s1 assms(2) by (simp add: same_envD content_Some)
  then show ?thesis using s1 c by simp
qed

lemma fs_write_all_Ok:
  assumes "fs_write_all p off x s = (Ok (), s')"
  obtains d where "content s p = Some d"
    "same_env (set_node p (Some (FileN (write_at off x d))) s) s'"
proof -
  obtain d s1 where d: "content s p = Some d" "fs_gate OpWrite p s = (Ok (), s1)"
    and s': "s' = set_node p (Some (FileN (write_at off x d))) s1"
    using assms by (auto simp: fs_write_all_def split: option.splits prod.splits result.splits)
  then have "same_env (set_node p (Some (FileN (write_at off x d))) s) s'"
    using gate_same_env [OF d(2)] by (auto intro: same_env_set_node)
  with d(1) show thesis by (rule that)
qed

lemma fs_write_all_healthy:
  assumes "healthy s" "content s p = Some d"
  shows "\<exists>s'. fs_write_all p off x s = (Ok (), s')
           \<and> same_env (set_node p (Some (FileN (write_at off x d))) s) s'"
  using assms by (simp add: fs_write_all_def fs_simps same_env_set_node same_env_ticks)

lemma length_set_length [simp]: "length (set_length n d) = n"
  by (simp add: set_length_def)

lemma set_length_same [simp]: "set_length (length d) d = d"
  by (simp add: set_length_def)

lemma length_write_at:
  "length (write_at off x d) = (if x = [] then length d else max (length d) (off + length x))"
  by (auto simp: write_at_def)

lemma nth_write_at:
  assumes "i < length d"
  shows "write_at off x d ! i = (if off \<le> i \<and> i < off + length x then x ! (i - off) else d ! i)"
  using assms by (auto simp: write_at_def nth_append min_def)

lemma write_at_inside:
  "off + length x \<le> length d \<Longrightarrow> length (write_at off x d) = length d"
  by (auto simp: length_write_at)

end
