(* ===== verification/Floating.thy ===== *)
theory Floating
  imports Prelude Complex_Main "HOL-Library.Log_Nat"
begin

text \<open>
  The floating-point numbers of Rust, as far as the program computes with them: non-negative values of
  type \<open>f64\<close> between about \<open>2^-64\<close> and \<open>2^74\<close>, far from underflow and overflow. A value is a rational; every
  operation is exact and then rounded to 53 binary digits, to the nearest and to even on a tie, as
  IEEE 754 prescribes.
\<close>

section \<open>Rounding\<close>

definition half_even :: "rat \<Rightarrow> int" where
  "half_even q =
     (let n = \<lfloor>q\<rfloor>; r = q - of_int n
      in if r < 1 / 2 then n else if 1 / 2 < r then n + 1 else if even n then n else n + 1)"

text \<open>The binary exponent of a positive rational, from the lengths of its numerator and denominator.\<close>

definition binary_exp :: "rat \<Rightarrow> int" where
  "binary_exp x =
     (case quotient_of x of (n, d) \<Rightarrow>
        let k = int (floorlog 2 (nat n)) - int (floorlog 2 (nat d)) in if 2 powi k \<le> x then k else k - 1)"

definition f64 :: "rat \<Rightarrow> rat" where
  "f64 x =
     (if x \<le> 0 then 0
      else let u = 2 powi (binary_exp x - 52) in of_int (half_even (x / u)) * u)"

text \<open>\<open>n as f64\<close>, \<open>x as u64\<close> and \<open>x as u8\<close> (which saturate), and \<open>Duration::as_secs_f64\<close> of seconds and nanoseconds.\<close>

definition as_f64 :: "nat \<Rightarrow> rat" where
  "as_f64 n = f64 (of_nat n)"

definition f64_as_u64 :: "rat \<Rightarrow> u64" where
  "f64_as_u64 x = min (nat \<lfloor>x\<rfloor>) (2 ^ 64 - 1)"

definition f64_as_u8 :: "rat \<Rightarrow> nat" where
  "f64_as_u8 x = min (nat \<lfloor>x\<rfloor>) 255"

definition as_secs_f64 :: "nat \<times> nat \<Rightarrow> rat" where
  "as_secs_f64 t = f64 (as_f64 (fst t) + f64 (as_f64 (snd t) / as_f64 1000000000))"

section \<open>Facts\<close>

lemma half_even_of_int [simp]: "half_even (of_int n) = n"
  by (simp add: half_even_def)

lemma half_even_bounds: "\<lfloor>q\<rfloor> \<le> half_even q" "half_even q \<le> \<lfloor>q\<rfloor> + 1"
  by (auto simp: half_even_def Let_def)

lemma half_even_mono: "p \<le> q \<Longrightarrow> half_even p \<le> half_even q"
proof (cases "\<lfloor>p\<rfloor> = \<lfloor>q\<rfloor>")
  case False
  assume "p \<le> q"
  then have "\<lfloor>p\<rfloor> \<le> \<lfloor>q\<rfloor>" by (rule floor_mono)
  with False have "\<lfloor>p\<rfloor> + 1 \<le> \<lfloor>q\<rfloor>" by simp
  then show ?thesis using half_even_bounds(2) [of p] half_even_bounds(1) [of q] by simp
qed (auto simp: half_even_def Let_def)

lemma powi_less: "a < b \<Longrightarrow> (2 :: rat) powi a < 2 powi b"
  by (rule power_int_strict_increasing) simp_all

lemma powi_le: "a \<le> b \<Longrightarrow> (2 :: rat) powi a \<le> 2 powi b"
  by (rule power_int_increasing) simp_all

lemma powi_less_iff: "(2 :: rat) powi a < 2 powi b \<longleftrightarrow> a < b"
  using powi_less [of a b] powi_le [of b a] by (cases "a < b") auto

lemma floorlog_2:
  assumes "0 < n"
  shows "2 powi int (floorlog 2 (nat n)) \<le> (2 :: rat) * of_int n" "of_int n < (2 :: rat) powi int (floorlog 2 (nat n))"
proof -
  have b: "2 ^ (floorlog 2 (nat n) - 1) \<le> nat n" "nat n < 2 ^ floorlog 2 (nat n)"
    using floorlog_bounds [of "nat n" 2] assms by simp_all
  have "0 < floorlog 2 (nat n)" using assms floorlog_eq_zero_iff [of 2 "nat n"] by simp
  then have "2 ^ floorlog 2 (nat n) \<le> 2 * nat n" using b(1) by (cases "floorlog 2 (nat n)") simp_all
  then have "rat_of_nat (2 ^ floorlog 2 (nat n)) \<le> rat_of_nat (2 * nat n)" by (simp only: of_nat_le_iff)
  then show "2 powi int (floorlog 2 (nat n)) \<le> (2 :: rat) * of_int n" using assms by simp
  have "rat_of_nat (nat n) < rat_of_nat (2 ^ floorlog 2 (nat n))" using b(2) by (simp only: of_nat_less_iff)
  then show "of_int n < (2 :: rat) powi int (floorlog 2 (nat n))" using assms by simp
qed

lemma binary_exp_bounds:
  assumes "0 < x" shows "2 powi binary_exp x \<le> x" "x < 2 powi (binary_exp x + 1)"
proof -
  obtain n d where q: "quotient_of x = (n, d)" by fastforce
  have x: "x = of_int n / of_int d" and d: "0 < d" using quotient_of_div [OF q] quotient_of_denom_pos [OF q] by simp_all
  have n: "0 < n" using assms d x by (simp add: zero_less_divide_iff)
  define a b where "a = int (floorlog 2 (nat n))" and "b = int (floorlog 2 (nat d))"
  note bounds = floorlog_2 [OF n, folded a_def] floorlog_2 [OF d, folded b_def]
  have pos: "0 < (2 :: rat) powi a" "0 < (2 :: rat) powi b" "0 < rat_of_int d" using d by simp_all
  have up: "x < 2 powi (a - b + 1)"
  proof -
    have "rat_of_int n * 2 powi b < 2 powi a * (2 * of_int d)"
      by (rule mult_less_le_imp_less) (use bounds pos n in simp_all)
    then show ?thesis using pos by (simp add: x power_int_add power_int_diff field_simps)
  qed
  have low: "2 powi (a - b - 1) \<le> x"
  proof -
    have "2 powi a * rat_of_int d \<le> 2 * of_int n * 2 powi b"
      by (rule mult_mono) (use bounds pos n in simp_all)
    then show ?thesis using pos by (simp add: x power_int_diff power_int_add field_simps)
  qed
  have e: "binary_exp x = (if 2 powi (a - b) \<le> x then a - b else a - b - 1)"
    by (simp add: binary_exp_def q a_def b_def Let_def)
  show "2 powi binary_exp x \<le> x" "x < 2 powi (binary_exp x + 1)"
    using up low unfolding e by auto
qed

lemma binary_exp_mono:
  assumes "0 < x" "x \<le> y" shows "binary_exp x \<le> binary_exp y"
proof -
  have "2 powi binary_exp x < (2 :: rat) powi (binary_exp y + 1)"
    using binary_exp_bounds [of x] binary_exp_bounds [of y] assms by linarith
  then show ?thesis by (simp add: powi_less_iff)
qed


lemma binary_exp_unique: "2 powi e \<le> x \<Longrightarrow> x < 2 powi (e + 1) \<Longrightarrow> binary_exp x = e"
proof -
  assume e: "2 powi e \<le> x" "x < 2 powi (e + 1)"
  have "(0 :: rat) < 2 powi e" by simp
  then have "0 < x" using e(1) by linarith
  note b = binary_exp_bounds [OF this]
  have "2 powi e < (2 :: rat) powi (binary_exp x + 1)" "2 powi binary_exp x < (2 :: rat) powi (e + 1)" using b e by linarith+
  then show ?thesis by (simp add: powi_less_iff)
qed

text \<open>The scaled value has 53 digits before the point.\<close>

lemma scaled_bounds:
  assumes "0 < x"
  shows "2 ^ 52 \<le> x / 2 powi (binary_exp x - 52)" "x / 2 powi (binary_exp x - 52) < 2 ^ 53"
  using binary_exp_bounds [OF assms] by (simp_all add: power_int_diff power_int_add field_simps)

lemma f64_scaled:
  assumes "0 < x"
  shows "2 powi binary_exp x \<le> f64 x" "f64 x \<le> 2 powi (binary_exp x + 1)"
proof -
  let ?u = "(2 :: rat) powi (binary_exp x - 52)" and ?q = "x / 2 powi (binary_exp x - 52)"
  have "half_even (of_int (2 ^ 52)) \<le> half_even ?q" "half_even ?q \<le> half_even (of_int (2 ^ 53))"
    by (rule half_even_mono, use scaled_bounds [OF assms] in simp)+
  then have h: "2 ^ 52 \<le> half_even ?q" "half_even ?q \<le> 2 ^ 53" unfolding half_even_of_int .
  have "rat_of_int (2 ^ 52) * ?u \<le> of_int (half_even ?q) * ?u" "of_int (half_even ?q) * ?u \<le> rat_of_int (2 ^ 53) * ?u"
    by (rule mult_right_mono, simp only: of_int_le_iff h, simp)+
  then show "2 powi binary_exp x \<le> f64 x" "f64 x \<le> 2 powi (binary_exp x + 1)"
    using assms by (simp_all add: f64_def Let_def power_int_diff power_int_add)
qed

lemma f64_nonneg: "0 \<le> f64 x"
proof (cases "0 < x")
  case True
  have "(0 :: rat) < 2 powi binary_exp x" by simp
  then show ?thesis using f64_scaled(1) [OF True] by linarith
qed (simp add: f64_def)

lemma f64_mono:
  assumes "x \<le> y" shows "f64 x \<le> f64 y"
proof (cases "0 < x")
  case False
  then show ?thesis using f64_nonneg [of y] by (simp add: f64_def)
next
  case True
  show ?thesis
  proof (cases "binary_exp x = binary_exp y")
    case e: True
    let ?u = "(2 :: rat) powi (binary_exp y - 52)"
    have "half_even (x / ?u) \<le> half_even (y / ?u)" by (rule half_even_mono) (use assms in \<open>simp add: divide_right_mono\<close>)
    then have "of_int (half_even (x / ?u)) * ?u \<le> of_int (half_even (y / ?u)) * ?u"
      by (intro mult_right_mono) simp_all
    then show ?thesis using True assms e by (simp add: f64_def Let_def)
  next
    case False
    then have "binary_exp x + 1 \<le> binary_exp y" using binary_exp_mono [OF True assms] by simp
    then have "(2 :: rat) powi (binary_exp x + 1) \<le> 2 powi binary_exp y" by (rule powi_le)
    then show ?thesis using f64_scaled(2) [OF True] f64_scaled(1) [of y] True assms by linarith
  qed
qed

text \<open>A value of at most 53 binary digits is not changed by rounding.\<close>

lemma f64_exact:
  assumes "m < 2 ^ 53" shows "f64 (of_nat m * 2 powi k) = of_nat m * 2 powi k"
proof (cases "m = 0")
  case False
  let ?x = "rat_of_nat m * 2 powi k"
  have pos: "0 < ?x" using False by simp
  have "?x < 2 powi (53 + k)"
    using assms by (simp add: power_int_add)
  then have "(2 :: rat) powi binary_exp ?x < 2 powi (53 + k)" using binary_exp_bounds(1) [OF pos] by linarith
  then have le: "binary_exp ?x - 52 \<le> k" by (simp add: powi_less_iff)
  define u where "u = (2 :: rat) powi (binary_exp ?x - 52)"
  have u: "u > 0" by (simp add: u_def)
  have "(2 :: rat) powi k = 2 ^ nat (k - (binary_exp ?x - 52)) * u"
    unfolding u_def using le by (simp add: power_int_add [symmetric] flip: power_int_of_nat)
  then have "?x = of_int (int m * 2 ^ nat (k - (binary_exp ?x - 52))) * u"
    by (metis mult.assoc of_int_mult of_int_numeral of_int_of_nat_eq of_int_power)
  then obtain n where n: "?x = of_int n * u" by blast
  then have "?x / u = of_int n" using u by (metis nonzero_mult_div_cancel_right less_irrefl)
  with n have "of_int (half_even (?x / u)) * u = ?x" by (metis half_even_of_int)
  then show ?thesis using pos by (simp add: f64_def Let_def u_def)
qed (simp add: f64_def)

lemma as_f64_exact: "n < 2 ^ 53 \<Longrightarrow> as_f64 n = of_nat n"
  using f64_exact [of n 0] by (simp add: as_f64_def)

lemma as_f64_mono: "m \<le> n \<Longrightarrow> as_f64 m \<le> as_f64 n"
  by (simp add: as_f64_def f64_mono)

end
