(* ===== verification/Core_Types.thy ===== *)
theory Core_Types
  imports Filesystem Floating
begin

text \<open>
  The data shared by all crates: \<open>crates/justdrop-core/src/types.rs\<close> (manifest, file entries,
  transfer states, chunk identifiers, chunk arithmetic) and the error enums of
  \<open>crates/justdrop-core/src/error.rs\<close> that the modelled functions return, with their texts.
\<close>

section \<open>Constants\<close>

definition PROTOCOL_VERSION :: byte where
  "PROTOCOL_VERSION = 1"

definition MAX_MESSAGE_SIZE :: usize where
  "MAX_MESSAGE_SIZE = 16 * 1024 * 1024"

definition DEFAULT_CHUNK_SIZE :: u32 where
  "DEFAULT_CHUNK_SIZE = 256 * 1024"

definition LARGE_FILE_THRESHOLD :: u64 where
  "LARGE_FILE_THRESHOLD = 1024 * 1024 * 1024"

section \<open>Data\<close>

text \<open>A \<open>Uuid\<close> is known by its canonical text, an array \<open>[u8; 32]\<close> by its bytes.\<close>

type_synonym uuid = string
type_synonym transfer_id = uuid
type_synonym sha256_hash = bytes

datatype platform = Android | MacOS | Linux | Windows | UnknownPlatform

text \<open>The platform is fixed at compile time by the operating system compiled for (\<open>target_os\<close>).\<close>

definition current_platform :: "string \<Rightarrow> platform" where
  "current_platform target_os =
     (if target_os = ''android'' then Android
      else if target_os = ''macos'' then MacOS
      else if target_os = ''linux'' then Linux
      else if target_os = ''windows'' then Windows
      else UnknownPlatform)"

fun platform_display :: "platform \<Rightarrow> string" where
  "platform_display Android = ''Android''"
| "platform_display MacOS = ''macOS''"
| "platform_display Linux = ''Linux''"
| "platform_display Windows = ''Windows''"
| "platform_display UnknownPlatform = ''Unknown''"

record file_entry =
  fe_index :: u32
  fe_relative_path :: string
  fe_size :: u64
  fe_sha256 :: sha256_hash
  fe_mime_type :: string

record transfer_manifest =
  mf_transfer_id :: transfer_id
  mf_version :: byte
  mf_files :: "file_entry list"
  mf_total_size :: u64
  mf_chunk_size :: u32
  mf_sender_name :: string
  mf_sender_platform :: platform

datatype transfer_response = Accept | Reject string | ResumeAt bytes

datatype transfer_state = Handshaking | Negotiating | Transferring | Verifying
  | Completed | Failed | Cancelled | Paused

fun transfer_state_display :: "transfer_state \<Rightarrow> string" where
  "transfer_state_display Handshaking = ''Handshaking''"
| "transfer_state_display Negotiating = ''Negotiating''"
| "transfer_state_display Transferring = ''Transferring''"
| "transfer_state_display Verifying = ''Verifying''"
| "transfer_state_display Completed = ''Completed''"
| "transfer_state_display Failed = ''Failed''"
| "transfer_state_display Cancelled = ''Cancelled''"
| "transfer_state_display Paused = ''Paused''"

record transfer_progress =
  tp_transfer_id :: transfer_id
  tp_state :: transfer_state
  tp_bytes_transferred :: u64
  tp_total_bytes :: u64
  tp_current_file_index :: u32
  tp_total_files :: u32
  tp_speed_bps :: u64
  tp_eta_secs :: "u64 option"

record chunk_id =
  ci_file_index :: u32
  ci_chunk_offset :: u64

record chunk_ack =
  ack_id :: chunk_id
  ack_sha256 :: sha256_hash

datatype transfer_direction = Sending | Receiving

section \<open>Errors\<close>

datatype storage_error =
    FileNotFound path
  | PermissionDenied path
  | ChunkIntegrityFailed uuid u64
  | FileIntegrityFailed string string
  | ResumeStateCorrupted uuid
  | InsufficientSpace u64 u64
  | StorageIo path io_error

fun storage_display :: "storage_error \<Rightarrow> string" where
  "storage_display (FileNotFound p) = ''file not found: '' @ path_display p"
| "storage_display (PermissionDenied p) = ''permission denied: '' @ path_display p"
| "storage_display (ChunkIntegrityFailed t c) =
     ''chunk '' @ show_nat c @ '' integrity mismatch for transfer '' @ t"
| "storage_display (FileIntegrityFailed e a) =
     ''file integrity mismatch: expected '' @ e @ '', got '' @ a"
| "storage_display (ResumeStateCorrupted t) = ''resume state corrupted for transfer '' @ t"
| "storage_display (InsufficientSpace n a) =
     ''insufficient disk space: need '' @ show_nat n @ '' bytes, have '' @ show_nat a @ '' bytes''"
| "storage_display (StorageIo p e) = ''i/o error on '' @ path_display p @ '': '' @ io_display e"

text \<open>The \<open>map_err\<close> that wraps every file system error of the storage code with its path.\<close>

definition io_at :: "path \<Rightarrow> ('s, 'a, io_error) io \<Rightarrow> ('s, 'a, storage_error) io" where
  "io_at p = map_err_io (StorageIo p)"

lemma io_at_Ok_iff [simp]: "io_at p m s = (Ok a, s') \<longleftrightarrow> m s = (Ok a, s')"
  by (simp add: io_at_def)

lemma snd_io_at [simp]: "snd (io_at p m s) = snd (m s)"
  by (simp add: io_at_def map_err_io_def split: prod.split)

datatype protocol_error =
    InvalidTag byte
  | MessageTooLarge usize usize
  | UnexpectedMessage string string
  | TransferNotFound uuid
  | Rejected string
  | CancelledBy string
  | Serialization string
  | Deserialization string
  | VersionMismatch byte byte

fun protocol_display :: "protocol_error \<Rightarrow> string" where
  "protocol_display (InvalidTag t) = ''invalid message tag: 0x'' @ hex_byte t"
| "protocol_display (MessageTooLarge n m) =
     ''message too large: '' @ show_nat n @ '' bytes (max '' @ show_nat m @ '')''"
| "protocol_display (UnexpectedMessage st t) = ''unexpected message in state '' @ st @ '': got '' @ t"
| "protocol_display (TransferNotFound i) = ''transfer '' @ i @ '' not found''"
| "protocol_display (Rejected r) = ''transfer rejected by peer: '' @ r"
| "protocol_display (CancelledBy r) = ''transfer cancelled: '' @ r"
| "protocol_display (Serialization m) = ''serialization error: '' @ m"
| "protocol_display (Deserialization m) = ''deserialization error: '' @ m"
| "protocol_display (VersionMismatch l r) =
     ''protocol version mismatch: local='' @ show_nat (unat l) @ '', remote='' @ show_nat (unat r)"

datatype security_error =
    HandshakeFailed string
  | EncryptionFailed string
  | DecryptionFailed string
  | InvalidKey string
  | KeyStorage string
  | PeerVerificationFailed

fun security_display :: "security_error \<Rightarrow> string" where
  "security_display (HandshakeFailed m) = ''noise handshake failed: '' @ m"
| "security_display (EncryptionFailed m) = ''encryption failed: '' @ m"
| "security_display (DecryptionFailed m) = ''decryption failed: '' @ m"
| "security_display (InvalidKey m) = ''invalid key material: '' @ m"
| "security_display (KeyStorage m) = ''key storage error: '' @ m"
| "security_display PeerVerificationFailed = ''peer identity verification failed''"

datatype network_error =
    ConnectionFailed string io_error
  | Timeout string
  | ConnectionReset
  | BindFailed u16 io_error
  | SendfileFailed string
  | Closed
  | NetIo io_error

fun network_display :: "network_error \<Rightarrow> string" where
  "network_display (ConnectionFailed a e) = ''connection failed to '' @ a @ '': '' @ io_display e"
| "network_display (Timeout a) = ''connection timed out to '' @ a"
| "network_display ConnectionReset = ''connection reset by peer''"
| "network_display (BindFailed p e) =
     ''listener bind failed on port '' @ show_nat p @ '': '' @ io_display e"
| "network_display (SendfileFailed m) = ''sendfile failed: '' @ m"
| "network_display Closed = ''transport closed''"
| "network_display (NetIo e) = ''i/o error: '' @ io_display e"

datatype config_error =
    ConfigNotFound path
  | ConfigParse string
  | InvalidValue string string string

section \<open>Chunk arithmetic\<close>

definition chunk_count :: "file_entry \<Rightarrow> u32 \<Rightarrow> (u64, 'e) result" where
  "chunk_count f cs = (if fe_size f = 0 then Ok 1 else div_ceil (fe_size f) cs)"

fun sum_chunks :: "file_entry list \<Rightarrow> u32 \<Rightarrow> u64 \<Rightarrow> (u64, 'e) result" where
  "sum_chunks [] cs acc = Ok acc"
| "sum_chunks (f # fs) cs acc =
     bind_res (chunk_count f cs) (\<lambda>n. sum_chunks fs cs (add64 acc n))"

definition total_chunks :: "transfer_manifest \<Rightarrow> (u64, 'e) result" where
  "total_chunks m = sum_chunks (mf_files m) (mf_chunk_size m) 0"

text \<open>
  \<open>TransferManifest::new\<close>: the fresh identifier and the platform the code was compiled for
  are arguments.
\<close>

definition manifest_new ::
  "uuid \<Rightarrow> platform \<Rightarrow> file_entry list \<Rightarrow> string \<Rightarrow> u32 \<Rightarrow> transfer_manifest" where
  "manifest_new new_id current files sender cs =
     \<lparr>mf_transfer_id = new_id, mf_version = PROTOCOL_VERSION, mf_files = files,
      mf_total_size = foldl (\<lambda>acc f. add64 acc (fe_size f)) 0 files,
      mf_chunk_size = cs, mf_sender_name = sender, mf_sender_platform = current\<rparr>"

definition effective_chunk_size :: "u64 \<Rightarrow> u32 \<Rightarrow> u32" where
  "effective_chunk_size file_size base =
     (if LARGE_FILE_THRESHOLD < file_size
      then min (saturating_mul32 base 2) (4 * 1024 * 1024)
      else base)"

section \<open>Facts\<close>

text \<open>The number of chunks as a number, for a chunk size the code does not panic on.\<close>

definition nchunks :: "u64 \<Rightarrow> u32 \<Rightarrow> u64" where
  "nchunks sz cs = (if sz = 0 then 1 else ceil_div sz cs)"

lemma chunk_count_eq: "0 < cs \<Longrightarrow> chunk_count f cs = Ok (nchunks (fe_size f) cs)"
  by (simp add: chunk_count_def nchunks_def div_ceil_def)

lemma nchunks_pos [simp]: "0 < cs \<Longrightarrow> 0 < nchunks sz cs"
  by (simp add: nchunks_def)

lemma nchunks_less_iff:
  "0 < cs \<Longrightarrow> 0 < sz \<Longrightarrow> i < nchunks sz cs \<longleftrightarrow> i * cs < sz"
  by (simp add: nchunks_def ceil_div_less_iff)

lemma nchunks_offset:
  "0 < cs \<Longrightarrow> i < nchunks sz cs \<Longrightarrow> i * cs \<le> sz"
  by (cases "sz = 0") (auto simp: nchunks_less_iff less_imp_le, simp add: nchunks_def)

lemma nchunks_le_size: "0 < cs \<Longrightarrow> nchunks sz cs \<le> max 1 sz"
  using ceil_div_le [of sz sz cs] by (auto simp: nchunks_def)

lemma sum_chunks_eq:
  assumes "0 < cs" and "acc + (\<Sum>f\<leftarrow>fs. nchunks (fe_size f) cs) < 2 ^ 64"
  shows "sum_chunks fs cs acc = Ok (acc + (\<Sum>f\<leftarrow>fs. nchunks (fe_size f) cs))"
  using assms(2)
proof (induction fs arbitrary: acc)
  case Nil
  then show ?case by simp
next
  case (Cons f fs)
  then have "acc + nchunks (fe_size f) cs < 2 ^ 64" by simp
  with Cons show ?case by (simp add: chunk_count_eq assms(1) add.assoc)
qed

text \<open>
  The chunk count covers a file exactly: with a positive chunk size, a non-empty file ends
  inside its last chunk, an empty file has one chunk, and a zero chunk size panics.
\<close>

theorem chunk_count_covers:
  "(fe_size f = 0 \<longrightarrow> chunk_count f cs = Ok 1) \<and>
   (0 < fe_size f \<and> cs = 0 \<longrightarrow> chunk_count f cs = Panic) \<and>
   (0 < fe_size f \<and> 0 < cs \<longrightarrow>
      (\<exists>n. chunk_count f cs = Ok n \<and> (n - 1) * cs < fe_size f \<and> fe_size f \<le> n * cs))"
  using ceil_div_bounds [of cs "fe_size f"]
  by (auto simp: chunk_count_def div_ceil_def)

theorem chunk_count_covers_witness:
  "chunk_count \<lparr>fe_index = 0, fe_relative_path = ''a'', fe_size = 500, fe_sha256 = [], fe_mime_type = []\<rparr> 256
     = (Ok 2 :: (u64, storage_error) result)"
  using chunk_count_covers
    [of "\<lparr>fe_index = 0, fe_relative_path = ''a'', fe_size = 500, fe_sha256 = [], fe_mime_type = []\<rparr>" 256]
  by (simp add: chunk_count_def div_ceil_def ceil_div_def)

end
