(* ===== verification/Chunker.thy ===== *)
theory Chunker
  imports Core_Types
begin

text \<open>
  \<open>crates/justdrop-storage/src/chunker.rs\<close>: a file read as fixed-size chunks with a hash per
  chunk. SHA-256 is an argument \<open>sha256\<close>; the hasher that is fed piece by piece is the
  concatenation of what it was fed.
\<close>

record file_chunker =
  fc_path :: path
  fc_file_index :: u32
  fc_chunk_size :: u32
  fc_file_size :: u64

record read_chunk_data =
  rc_id :: chunk_id
  rc_data :: bytes
  rc_sha256 :: sha256_hash

definition chunker_open :: "path \<Rightarrow> u32 \<Rightarrow> u32 \<Rightarrow> ('a fs_scheme, file_chunker, storage_error) io" where
  "chunker_open p idx cs =
     bind_io (map_err_io (\<lambda>e. if e = NotFound then FileNotFound p else StorageIo p e) (fs_len p))
       (\<lambda>n. return_io \<lparr>fc_path = p, fc_file_index = idx, fc_chunk_size = cs, fc_file_size = n\<rparr>)"

definition chunker_chunk_count :: "file_chunker \<Rightarrow> (u64, 'e) result" where
  "chunker_chunk_count c =
     (if fc_file_size c = 0 then Ok 1 else div_ceil (fc_file_size c) (fc_chunk_size c))"

text \<open>The read loop: it ends when the buffer is full or a read returns no bytes.\<close>

function read_loop :: "path \<Rightarrow> nat \<Rightarrow> nat \<Rightarrow> bytes \<Rightarrow> ('a fs_scheme, bytes, io_error) io" where
  "read_loop p pos want acc s =
     (if want = 0 then (Ok acc, s)
      else case fs_read p pos want s of
             (Ok d, s') \<Rightarrow>
               if d = [] then (Ok acc, s')
               else read_loop p (pos + length d) (want - length d) (acc @ d) s'
           | (Err e, s') \<Rightarrow> (Err e, s')
           | (Panic, s') \<Rightarrow> (Panic, s'))"
  by pat_completeness auto
termination
  by (relation "measure (\<lambda>(p, pos, want, acc, s). want)") auto

declare read_loop.simps [simp del]

definition read_chunk ::
  "(bytes \<Rightarrow> sha256_hash) \<Rightarrow> file_chunker \<Rightarrow> u64 \<Rightarrow> ('a fs_scheme, read_chunk_data, storage_error) io" where
  "read_chunk sha256 c off =
     (let byte_offset = mul64 off (fc_chunk_size c);
          remaining = saturating_sub (fc_file_size c) byte_offset;
          read_size = min remaining (fc_chunk_size c)
      in bind_io (io_at (fc_path c) (fs_open (fc_path c))) (\<lambda>_.
         bind_io (if 0 < byte_offset then io_at (fc_path c) (fs_seek (fc_path c)) else return_io ()) (\<lambda>_.
         bind_io (io_at (fc_path c) (read_loop (fc_path c) byte_offset read_size [])) (\<lambda>buf.
         return_io \<lparr>rc_id = \<lparr>ci_file_index = fc_file_index c, ci_chunk_offset = off\<rparr>,
                    rc_data = buf, rc_sha256 = sha256 buf\<rparr>))))"

text \<open>
  \<open>stream_chunks\<close>: the receiving end of the channel may be dropped at any time; \<open>open_at n\<close>
  says whether the n-th send still finds it. The result is what was delivered.
\<close>

function stream_from ::
  "(bytes \<Rightarrow> sha256_hash) \<Rightarrow> file_chunker \<Rightarrow> (nat \<Rightarrow> bool) \<Rightarrow> u64 \<Rightarrow> u64
   \<Rightarrow> (read_chunk_data, storage_error) result list \<Rightarrow> 'a fs_scheme
   \<Rightarrow> (read_chunk_data, storage_error) result list \<times> 'a fs_scheme" where
  "stream_from sha256 c open_at off n_chunks sent s =
     (if off < n_chunks
      then case read_chunk sha256 c off s of
             (Ok chunk, s') \<Rightarrow>
               if open_at (length sent)
               then stream_from sha256 c open_at (Suc off) n_chunks (sent @ [Ok chunk]) s'
               else (sent, s')
           | (Err e, s') \<Rightarrow> (if open_at (length sent) then sent @ [Err e] else sent, s')
           | (Panic, s') \<Rightarrow> (sent, s')
      else (sent, s))"
  by pat_completeness auto
termination
  by (relation "measure (\<lambda>(sha, c, op, off, n_chunks, sent, s). n_chunks - off)") auto

declare stream_from.simps [simp del]

definition stream_chunks ::
  "(bytes \<Rightarrow> sha256_hash) \<Rightarrow> file_chunker \<Rightarrow> (nat \<Rightarrow> bool) \<Rightarrow> u64 \<Rightarrow> 'a fs_scheme
   \<Rightarrow> ((read_chunk_data, storage_error) result list, storage_error) result \<times> 'a fs_scheme" where
  "stream_chunks sha256 c open_at start s =
     (case chunker_chunk_count c of
        Ok n_chunks \<Rightarrow> (case stream_from sha256 c open_at start n_chunks [] s of (out, s') \<Rightarrow> (Ok out, s'))
      | Err e \<Rightarrow> (Err e, s)
      | Panic \<Rightarrow> (Panic, s))"

text \<open>
  \<open>hash_file\<close>: reads of at most 256 KiB, fed to the hasher until a read returns nothing. It
  ends because a read does not change the file and every non-empty read moves on in it.
\<close>

definition file_length :: "'a fs_scheme \<Rightarrow> path \<Rightarrow> nat" where
  "file_length s p = (case content s p of None \<Rightarrow> 0 | Some d \<Rightarrow> length d)"

lemma fs_read_Ok:
  assumes "fs_read p pos want s = (Ok d, s')"
  shows "content s' = content s"
    and "\<exists>x. content s p = Some x \<and> d = take (length d) (drop pos x) \<and> length d \<le> want
           \<and> (0 < want \<and> pos < length x \<longrightarrow> d \<noteq> [])"
proof -
  obtain x s1 where "fs_gate OpRead p s = (Ok (), s1)" and s1: "content s1 p = Some x" "s' = s1"
    and d: "d = take (min want (max 1 (cap s (ticks s)))) (drop pos x)"
    using assms by (auto simp: fs_read_def bind_io_Ok_iff split: option.splits)
  then have c: "content s1 = content s" by (auto simp: fs_gate_def split: option.splits)
  then show "content s' = content s" using s1 by simp
  have "d = take (length d) (drop pos x)" unfolding d by (simp add: min_def)
  moreover have "length d \<le> want" unfolding d by simp
  moreover have "0 < want \<and> pos < length x \<longrightarrow> d \<noteq> []" unfolding d by (auto simp: max_def)
  ultimately show "\<exists>x. content s p = Some x \<and> d = take (length d) (drop pos x)
      \<and> length d \<le> want \<and> (0 < want \<and> pos < length x \<longrightarrow> d \<noteq> [])"
    using s1 c by auto
qed

lemma fs_read_progress:
  assumes "fs_read p pos want s = (Ok d, s')" and "d \<noteq> []"
  shows "file_length s' p - (pos + length d) < file_length s p - pos"
proof -
  obtain x where x: "content s p = Some x" "d = take (length d) (drop pos x)"
    using fs_read_Ok(2) [OF assms(1)] by auto
  have "length d \<le> length x - pos" by (subst x(2)) simp
  then show ?thesis
    using x fs_read_Ok(1) [OF assms(1)] assms(2) by (cases d) (auto simp: file_length_def)
qed

function hash_loop :: "path \<Rightarrow> nat \<Rightarrow> bytes \<Rightarrow> ('a fs_scheme, bytes, io_error) io" where
  "hash_loop p pos acc s =
     (case fs_read p pos (256 * 1024) s of
        (Ok d, s') \<Rightarrow>
          if d = [] then (Ok acc, s') else hash_loop p (pos + length d) (acc @ d) s'
      | (Err e, s') \<Rightarrow> (Err e, s')
      | (Panic, s') \<Rightarrow> (Panic, s'))"
  by pat_completeness auto
termination
  by (relation "measure (\<lambda>(p, pos, acc, s). file_length s p - pos)")
    (auto dest: fs_read_progress [OF sym])

declare hash_loop.simps [simp del]

definition hash_file ::
  "(bytes \<Rightarrow> sha256_hash) \<Rightarrow> path \<Rightarrow> ('a fs_scheme, sha256_hash, storage_error) io" where
  "hash_file sha256 p =
     bind_io (io_at p (bind_io (fs_open p) (\<lambda>_. hash_loop p 0 []))) (\<lambda>fed. return_io (sha256 fed))"

section \<open>Reading gives the bytes of the file\<close>

lemma read_loop_0 [simp]: "read_loop p pos 0 acc s = (Ok acc, s)"
  by (simp add: read_loop.simps [of p pos 0])

lemma read_loop_Ok:
  assumes "read_loop p pos want acc s = (Ok buf, s')" and "content s p = Some x"
  shows "buf = acc @ take want (drop pos x) \<and> content s' = content s"
  using assms
proof (induction p pos want acc s rule: read_loop.induct)
  case (1 p pos want acc s)
  show ?case
  proof (cases "want = 0")
    case True
    then show ?thesis using "1.prems" by simp
  next
    case False
    then obtain d s1 where r: "fs_read p pos want s = (Ok d, s1)"
      using "1.prems"(1) by (auto simp: read_loop.simps [of p pos want] split: prod.splits result.splits)
    note R = fs_read_Ok [OF r]
    show ?thesis
    proof (cases "d = []")
      case True
      then show ?thesis
        using R False r "1.prems" by (auto simp: read_loop.simps [of p pos want])
    next
      case dne: False
      have d: "d = take (length d) (drop pos x)" and le: "length d \<le> want"
        using R(2) "1.prems"(2) by auto
      have "read_loop p (pos + length d) (want - length d) (acc @ d) s1 = (Ok buf, s')"
        using "1.prems"(1) False r dne by (simp add: read_loop.simps [of p pos want])
      then have "buf = (acc @ d) @ take (want - length d) (drop (pos + length d) x) \<and> content s' = content s1"
        using "1.IH" [OF False r [symmetric] refl dne] R(1) "1.prems"(2) by auto
      moreover have "take want (drop pos x) = d @ take (want - length d) (drop (pos + length d) x)"
        using d le by (metis add.commute drop_drop le_add_diff_inverse take_add)
      ultimately show ?thesis using R(1) by simp
    qed
  qed
qed

lemma nodes_ticks_healthy:
  assumes "healthy s"
  shows "fs_open p s = (if nodes s p = None then Err NotFound else if nodes s p = Some DirN then Err IsADirectory else Ok (),
           s\<lparr>ticks := Suc (ticks s)\<rparr>)"
    and "fs_seek p s = (Ok (), s\<lparr>ticks := Suc (ticks s)\<rparr>)"
  using assms
  by (auto simp: fs_open_def fs_seek_def bind_io_def fs_simps split: option.splits node.splits)

lemma fs_read_healthy:
  assumes "healthy s" and "content s p = Some x"
  shows "\<exists>d. fs_read p pos want s = (Ok d, s\<lparr>ticks := Suc (ticks s)\<rparr>)"
  using assms by (simp add: fs_read_def bind_io_def fs_simps)

lemma read_loop_healthy:
  assumes "healthy s" and "content s p = Some x"
  shows "\<exists>buf s'. read_loop p pos want acc s = (Ok buf, s') \<and> healthy s'"
  using assms
proof (induction p pos want acc s rule: read_loop.induct)
  case (1 p pos want acc s)
  obtain d where r: "fs_read p pos want s = (Ok d, s\<lparr>ticks := Suc (ticks s)\<rparr>)"
    using fs_read_healthy [OF "1.prems"] by blast
  show ?case
    using r "1.prems" "1.IH" [OF _ r [symmetric] refl]
    by (cases "want = 0", simp, cases "d = []") (auto simp: read_loop.simps [of p pos want])
qed

definition chunk_at :: "(bytes \<Rightarrow> sha256_hash) \<Rightarrow> file_chunker \<Rightarrow> bytes \<Rightarrow> nat \<Rightarrow> read_chunk_data" where
  "chunk_at sha256 c x i =
     \<lparr>rc_id = \<lparr>ci_file_index = fc_file_index c, ci_chunk_offset = i\<rparr>,
      rc_data = slice (fc_chunk_size c) x i, rc_sha256 = sha256 (slice (fc_chunk_size c) x i)\<rparr>"

text \<open>The chunker still describes the file: what \<open>open\<close> established.\<close>

definition describes :: "file_chunker \<Rightarrow> bytes \<Rightarrow> 'a fs_scheme \<Rightarrow> bool" where
  "describes c x s \<longleftrightarrow> content s (fc_path c) = Some x \<and> fc_file_size c = length x
     \<and> length x < 2 ^ 64 \<and> 0 < fc_chunk_size c"

abbreviation count_of :: "file_chunker \<Rightarrow> nat" where
  "count_of c \<equiv> nchunks (fc_file_size c) (fc_chunk_size c)"

lemma chunk_offset_no_overflow:
  assumes "describes c x s" and "off < count_of c"
  shows "mul64 off (fc_chunk_size c) = off * fc_chunk_size c"
  using assms nchunks_offset [of "fc_chunk_size c" off "length x"]
  by (intro mul64_small) (auto simp: describes_def)

lemma read_chunk_Ok:
  assumes "read_chunk sha256 c off s = (Ok ch, s')" and "describes c x s" and "off < count_of c"
  shows "ch = chunk_at sha256 c x off \<and> content s' = content s"
proof -
  let ?b = "off * fc_chunk_size c"
  obtain s1 s2 buf where o: "fs_open (fc_path c) s = (Ok (), s1)"
    and k: "(if 0 < ?b then io_at (fc_path c) (fs_seek (fc_path c)) else return_io ()) s1 = (Ok (), s2)"
    and r: "read_loop (fc_path c) ?b (min (length x - ?b) (fc_chunk_size c)) [] s2 = (Ok buf, s')"
    and ch: "ch = \<lparr>rc_id = \<lparr>ci_file_index = fc_file_index c, ci_chunk_offset = off\<rparr>,
                 rc_data = buf, rc_sha256 = sha256 buf\<rparr>"
    using assms chunk_offset_no_overflow [OF assms(2,3)]
    by (auto simp: read_chunk_def Let_def bind_io_Ok_iff io_at_def return_io_def describes_def)
  have "content s2 = content s1"
    using k by (auto simp: io_at_def return_io_def fs_seek_def dest!: gate_same_env same_envD split: if_splits)
  then have c2: "content s2 = content s" using fs_open_Ok [OF o] by (simp add: same_envD)
  have "content s2 (fc_path c) = Some x" using assms(2) c2 by (simp add: describes_def)
  from read_loop_Ok [OF r this]
  have "buf = slice (fc_chunk_size c) x off" and "content s' = content s2"
    by (simp_all add: slice_def min_def)
  then show ?thesis using ch c2 by (simp add: chunk_at_def)
qed

lemma read_chunk_healthy:
  assumes "healthy s" and "describes c x s" and "off < count_of c"
  shows "\<exists>s'. read_chunk sha256 c off s = (Ok (chunk_at sha256 c x off), s')
           \<and> healthy s' \<and> content s' = content s"
proof -
  let ?s1 = "s\<lparr>ticks := Suc (ticks s)\<rparr>" and ?b = "mul64 off (fc_chunk_size c)"
  have n: "nodes s (fc_path c) = Some (FileN x)"
    using assms(2) by (simp add: describes_def content_Some)
  define s2 where "s2 = (if 0 < ?b then ?s1\<lparr>ticks := Suc (ticks ?s1)\<rparr> else ?s1)"
  have h2: "healthy s2" "content s2 (fc_path c) = Some x"
    using assms(1) n by (auto simp: s2_def content_Some)
  obtain buf s' where r: "read_loop (fc_path c) ?b
      (min (saturating_sub (fc_file_size c) ?b) (fc_chunk_size c)) [] s2 = (Ok buf, s')" "healthy s'"
    using read_loop_healthy [OF h2] by blast
  have "fst (read_chunk sha256 c off s) = Ok \<lparr>rc_id = \<lparr>ci_file_index = fc_file_index c, ci_chunk_offset = off\<rparr>,
      rc_data = buf, rc_sha256 = sha256 buf\<rparr> \<and> snd (read_chunk sha256 c off s) = s'"
    using r(1) n assms(1)
    by (cases "0 < ?b")
      (simp_all add: read_chunk_def Let_def bind_io_def io_at_def map_err_io_def nodes_ticks_healthy
        return_io_def s2_def)
  then obtain ch where "read_chunk sha256 c off s = (Ok ch, s')" by (metis prod.collapse)
  then show ?thesis using read_chunk_Ok [OF _ assms(2,3)] r(2) by fastforce
qed

section \<open>Properties\<close>

lemma stream_stops:
  assumes d: "describes c x s" and off: "off < count_of c" and r: "read_chunk sha256 c off s = (r, s1)"
    and stop: "\<not> ((\<exists>ch. r = Ok ch) \<and> open_at (length sent))"
    and run: "stream_from sha256 c open_at off (count_of c) sent s = (out, s')"
  shows "\<not> (healthy s \<and> (\<forall>n. open_at n))"
    and "\<exists>tl. length tl \<le> 1 \<and> (\<forall>r\<in>set tl. \<exists>e. r = Err e) \<and> out = sent @ tl"
proof -
  note unfold = stream_from.simps [of sha256 c open_at off "count_of c" sent s]
  show "\<not> (healthy s \<and> (\<forall>n. open_at n))"
    using stop r read_chunk_healthy [OF _ d off, of sha256] by auto
  show "\<exists>tl. length tl \<le> 1 \<and> (\<forall>r\<in>set tl. \<exists>e. r = Err e) \<and> out = sent @ tl"
  proof (cases r)
    case (Err e)
    then show ?thesis using run off r by (auto simp: unfold split: if_splits intro: exI [of _ "[Err e]"])
  qed (use stop run off r in \<open>auto simp: unfold\<close>)
qed

lemma stream_from_shape:
  assumes "describes c x s" and "off \<le> count_of c"
    and "stream_from sha256 c open_at off (count_of c) sent s = (out, s')"
  shows "\<exists>k tl. off \<le> k \<and> k \<le> count_of c \<and> length tl \<le> 1 \<and> (\<forall>r\<in>set tl. \<exists>e. r = Err e)
           \<and> out = sent @ map (Ok \<circ> chunk_at sha256 c x) [off..<k] @ tl
           \<and> (healthy s \<and> (\<forall>n. open_at n) \<longrightarrow> k = count_of c \<and> tl = [])"
  using assms
proof (induction sha256 c open_at off "count_of c" sent s rule: stream_from.induct)
  case (1 sha256 c open_at off sent s)
  note unfold = stream_from.simps [of sha256 c open_at off "count_of c" sent s]
  show ?case
  proof (cases "off < count_of c")
    case False
    then have "out = sent" "off = count_of c" using "1.prems"(2,3) unfolding unfold by simp_all
    then show ?thesis by (intro exI [of _ "count_of c"] exI [of _ "[]"]) simp
  next
    case off: True
    obtain r s1 where r: "read_chunk sha256 c off s = (r, s1)" by fastforce
    show ?thesis
    proof (cases "(\<exists>ch. r = Ok ch) \<and> open_at (length sent)")
      case False
      note stop = stream_stops [OF "1.prems"(1) off r False "1.prems"(3)]
      show ?thesis using stop off by (intro exI [of _ off]) auto
    next
      case True
      then obtain ch where ch: "r = Ok ch" and op: "open_at (length sent)" by blast
      note R = read_chunk_Ok [OF r [unfolded ch] "1.prems"(1) off]
      have "describes c x s1" using R "1.prems"(1) by (simp add: describes_def)
      moreover have "stream_from sha256 c open_at (Suc off) (count_of c) (sent @ [Ok ch]) s1 = (out, s')"
        using "1.prems"(3) off r ch op by (simp add: unfold)
      ultimately obtain k tl where k: "Suc off \<le> k" "k \<le> count_of c" "length tl \<le> 1"
          "\<forall>r\<in>set tl. \<exists>e. r = Err e"
          "out = (sent @ [Ok ch]) @ map (Ok \<circ> chunk_at sha256 c x) [Suc off..<k] @ tl"
          "healthy s1 \<and> (\<forall>n. open_at n) \<longrightarrow> k = count_of c \<and> tl = []"
        using "1.hyps" [OF off r [symmetric] ch op] off by fastforce
      have "healthy s1" if "healthy s"
        using read_chunk_healthy [OF that "1.prems"(1) off, of sha256] r by auto
      moreover have "[off..<k] = off # [Suc off..<k]" using k(1) by (simp add: upt_conv_Cons)
      ultimately show ?thesis using k R by (intro exI [of _ k] exI [of _ tl]) auto
    qed
  qed
qed

lemma describes_count: "describes c x s \<Longrightarrow> chunker_chunk_count c = Ok (count_of c)"
  by (simp add: chunker_chunk_count_def describes_def nchunks_def div_ceil_def)

text \<open>
  C33. Streaming a file in chunks loses and reorders nothing: on a healthy file system, with
  the receiver listening, \<open>stream_chunks\<close> delivers one chunk per offset, in order, each with
  the hash of its own bytes, and the chunks concatenate to the file, however short the
  individual reads are.
\<close>

theorem stream_chunks_reassemble:
  assumes "healthy s" and "describes c x s" and "\<forall>n. open_at n"
  shows "\<exists>out s'. stream_chunks sha256 c open_at 0 s = (Ok (map Ok out), s')
           \<and> concat (map rc_data out) = x
           \<and> map (ci_chunk_offset \<circ> rc_id) out = [0..<count_of c]
           \<and> (\<forall>ch\<in>set out. rc_sha256 ch = sha256 (rc_data ch)
                \<and> length (rc_data ch) \<le> fc_chunk_size c)"
proof -
  obtain o1 s' where o1: "stream_from sha256 c open_at 0 (count_of c) [] s = (o1, s')" by fastforce
  have o: "o1 = map Ok (map (chunk_at sha256 c x) [0..<count_of c])"
    using stream_from_shape [OF assms(2) _ o1] assms by auto
  have "length x \<le> count_of c * fc_chunk_size c"
    using assms(2) ceil_div_bounds(1) [of "fc_chunk_size c" "length x"]
    by (auto simp: describes_def nchunks_def)
  then have "concat (map (slice (fc_chunk_size c) x) [0..<count_of c]) = x"
    by (rule concat_slices)
  then have "concat (map rc_data (map (chunk_at sha256 c x) [0..<count_of c])) = x"
    by (simp add: chunk_at_def comp_def)
  then show ?thesis
    using o1 unfolding o
    by (intro exI [of _ "map (chunk_at sha256 c x) [0..<count_of c]"] exI [of _ s'])
      (auto simp: stream_chunks_def describes_count [OF assms(2)] chunk_at_def comp_def length_slice)
qed

definition demo_chunker :: file_chunker where
  "demo_chunker = \<lparr>fc_path = path_of ''/f'', fc_file_index = 0, fc_chunk_size = 2, fc_file_size = 3\<rparr>"

definition demo_fs :: fs where
  "demo_fs = \<lparr>nodes = [path_of ''/f'' \<mapsto> FileN [1, 2, 3]], fault = (\<lambda>_ _ _. None),
              cap = (\<lambda>_. 1), ticks = 0\<rparr>"

lemma demo_describes: "healthy demo_fs" "describes demo_chunker [1, 2, 3] demo_fs"
  by (simp_all add: healthy_def describes_def demo_fs_def demo_chunker_def content_def)

theorem stream_chunks_reassemble_witness:
  "\<exists>out s'. stream_chunks id demo_chunker (\<lambda>_. True) 0 demo_fs = (Ok (map Ok out), s')
     \<and> concat (map rc_data out) = [1, 2, 3]"
  using stream_chunks_reassemble [OF demo_describes, of "\<lambda>_. True" id] by auto

text \<open>
  Whatever fails while a file is streamed (a read error, a receiver that goes away at any
  point), what was delivered is a prefix of the file's chunks in order, followed by at most
  one error: a chunk with the wrong bytes or the wrong hash is never delivered.
\<close>

theorem stream_chunks_prefix:
  assumes "describes c x s" and "stream_chunks sha256 c open_at start s = (Ok out, s')"
    and "start \<le> count_of c"
  shows "\<exists>k tl. start \<le> k \<and> k \<le> count_of c \<and> length tl \<le> 1 \<and> (\<forall>r\<in>set tl. \<exists>e. r = Err e)
           \<and> out = map (Ok \<circ> chunk_at sha256 c x) [start..<k] @ tl"
proof -
  have "stream_from sha256 c open_at start (count_of c) [] s = (out, s')"
    using assms(2) describes_count [OF assms(1), where 'b = storage_error]
    by (auto simp: stream_chunks_def split: prod.splits)
  from stream_from_shape [OF assms(1,3) this] show ?thesis by auto
qed

theorem stream_chunks_prefix_witness:
  "\<exists>out k tl. fst (stream_chunks id demo_chunker (\<lambda>n. n < 1) 0 demo_fs) = Ok out
     \<and> k \<le> 2 \<and> length tl \<le> 1 \<and> out = map (Ok \<circ> chunk_at id demo_chunker [1, 2, 3]) [0..<k] @ tl"
proof -
  obtain out s' where o: "stream_chunks id demo_chunker (\<lambda>n. n < 1) 0 demo_fs = (Ok out, s')"
    by (cases "stream_from id demo_chunker (\<lambda>n. n < 1) 0 (count_of demo_chunker) [] demo_fs")
      (auto simp: stream_chunks_def describes_count [OF demo_describes(2)])
  have "count_of demo_chunker = 2" by (simp add: demo_chunker_def nchunks_def ceil_div_def)
  then show ?thesis
    using stream_chunks_prefix [OF demo_describes(2) o] o by auto
qed

lemma hash_loop_Ok:
  assumes "hash_loop p pos acc s = (Ok fed, s')" and "content s p = Some x"
  shows "fed = acc @ drop pos x"
  using assms
proof (induction p pos acc s rule: hash_loop.induct)
  case (1 p pos acc s)
  note unfold = hash_loop.simps [of p pos acc s]
  obtain d s1 where r: "fs_read p pos (256 * 1024) s = (Ok d, s1)"
    using "1.prems"(1) by (auto simp: unfold split: prod.splits result.splits)
  note R = fs_read_Ok [OF r]
  show ?case
  proof (cases "d = []")
    case True
    then show ?thesis using R(2) r "1.prems" by (auto simp: unfold)
  next
    case False
    have d: "d = take (length d) (drop pos x)" using R(2) "1.prems"(2) by auto
    have "hash_loop p (pos + length d) (acc @ d) s1 = (Ok fed, s')"
      using "1.prems"(1) r False by (simp add: unfold)
    then have "fed = (acc @ d) @ drop (pos + length d) x"
      using "1.IH" [OF r [symmetric] refl False] R(1) "1.prems"(2) by auto
    then show ?thesis using d by (metis add.commute append.assoc append_take_drop_id drop_drop)
  qed
qed

text \<open>
  The streaming hash of a file is the hash of its bytes: whenever \<open>hash_file\<close> succeeds,
  its result does not depend on how the reads were split.
\<close>

theorem hash_file_is_hash_of_content:
  assumes "hash_file sha256 p s = (Ok h, s')" and "content s p = Some x"
  shows "h = sha256 x"
proof -
  obtain fed s1 s2 where "fs_open p s = (Ok (), s1)" "hash_loop p 0 [] s1 = (Ok fed, s2)" "h = sha256 fed"
    using assms(1) by (auto simp: hash_file_def io_at_def bind_io_Ok_iff return_io_def)
  then show ?thesis using hash_loop_Ok [of p 0 "[]" s1 fed s2 x] assms(2)
    by (auto dest!: fs_open_Ok same_envD)
qed

theorem hash_file_is_hash_of_content_witness:
  "fst (hash_file rev (path_of ''/f'') demo_fs) = Ok (rev [1, 2, 3])"
proof -
  have r: "\<exists>h s'. hash_file rev (path_of ''/f'') demo_fs = (Ok h, s')"
    by (simp add: hash_file_def io_at_def bind_io_def map_err_io_def return_io_def fs_open_def
        fs_gate_def demo_fs_def hash_loop.simps fs_read_def content_def)
  have "content demo_fs (path_of ''/f'') = Some [1, 2, 3]"
    by (simp add: demo_fs_def content_def)
  with r show ?thesis using hash_file_is_hash_of_content [of rev "path_of ''/f''" demo_fs] by fastforce
qed

section \<open>Reading changes nothing but the clock\<close>

lemma map_err_io_env: "same_env s (snd (m s)) \<Longrightarrow> same_env s (snd (map_err_io g m s))"
  by (cases "m s") (simp add: map_err_io_def)

lemma bind_env:
  assumes "same_env s (snd (m s))" and "\<And>a s1. same_env s1 (snd (f a s1))"
  shows "same_env s (snd (bind_io m f s))"
  by (rule bind_io_state [where P = "same_env s"], rule assms)
    (use assms in \<open>auto intro: same_env_trans\<close>)

lemma read_loop_env: "same_env s (snd (read_loop p pos want acc s))"
proof (induction p pos want acc s rule: read_loop.induct)
  case (1 p pos want acc s)
  show ?case
  proof (cases "want = 0")
    case False
    obtain r s1 where r: "fs_read p pos want s = (r, s1)" by fastforce
    then have "same_env s s1" using fs_read_env [of s p pos want] by simp
    then show ?thesis using False r "1.IH" [OF False r [symmetric]]
      by (cases r) (auto simp: read_loop.simps [of p pos want] intro: same_env_trans)
  qed simp
qed

lemma hash_loop_env: "same_env s (snd (hash_loop p pos acc s))"
proof (induction p pos acc s rule: hash_loop.induct)
  case (1 p pos acc s)
  obtain r s1 where r: "fs_read p pos (256 * 1024) s = (r, s1)" by fastforce
  then have "same_env s s1" using fs_read_env [of s p pos "256 * 1024"] by simp
  then show ?case using r "1.IH" [OF r [symmetric]]
    by (cases r) (auto simp: hash_loop.simps [of p pos] intro: same_env_trans)
qed

lemma read_chunk_env: "same_env s (snd (read_chunk sha256 c off s))"
  unfolding read_chunk_def Let_def io_at_def
  by (intro bind_env map_err_io_env fs_open_env read_loop_env)
    (auto simp: return_io_def map_err_io_env fs_seek_env)

lemma chunker_open_env: "same_env s (snd (chunker_open p idx cs s))"
  unfolding chunker_open_def by (intro bind_env map_err_io_env fs_len_env) (simp add: return_io_def)

lemma hash_file_env: "same_env s (snd (hash_file sha256 p s))"
  unfolding hash_file_def io_at_def
  by (intro bind_env map_err_io_env fs_open_env hash_loop_env) (simp add: return_io_def)

lemma hash_loop_healthy:
  assumes "healthy s" and "content s p = Some x"
  shows "\<exists>fed s'. hash_loop p pos acc s = (Ok fed, s')"
  using assms
proof (induction p pos acc s rule: hash_loop.induct)
  case (1 p pos acc s)
  obtain d where r: "fs_read p pos (256 * 1024) s = (Ok d, s\<lparr>ticks := Suc (ticks s)\<rparr>)"
    using fs_read_healthy [OF "1.prems"] by blast
  show ?case
    using r "1.prems" "1.IH" [OF r [symmetric] refl]
    by (cases "d = []") (auto simp: hash_loop.simps [of p pos])
qed

lemma hash_file_healthy:
  assumes "healthy s" and "content s p = Some x"
  shows "\<exists>s'. hash_file sha256 p s = (Ok (sha256 x), s')"
proof -
  let ?s = "s\<lparr>ticks := Suc (ticks s)\<rparr>"
  have "fs_open p s = (Ok (), ?s)"
    using nodes_ticks_healthy(1) [OF assms(1), of p] assms(2) by (simp add: content_Some)
  moreover obtain fed s' where f: "hash_loop p 0 [] ?s = (Ok fed, s')"
    using hash_loop_healthy [of ?s p x 0 "[]"] assms by auto
  moreover have "fed = x" using hash_loop_Ok [OF f] assms(2) by simp
  ultimately show ?thesis by (simp add: hash_file_def bind_io_def io_at_def map_err_io_def return_io_def)
qed

end
