(* ===== verification/Writer.thy ===== *)
theory Writer
  imports Core_Types
begin

text \<open>
  \<open>crates/justdrop-storage/src/writer.rs\<close>: received chunks written at their offset into a
  temporary file, a set of completed offsets, and the rename to a name that is not taken.
  A \<open>HashSet\<close> of offsets is a list without repetition in its (arbitrary) iteration order.
\<close>

type_synonym hashset = "u64 list"

record chunk_writer =
  cw_transfer_id :: transfer_id
  cw_file_index :: u32
  cw_dest_path :: path
  cw_temp_path :: path
  cw_chunk_size :: u32
  cw_file_size :: u64
  cw_total_chunks :: u64
  cw_completed :: hashset

section \<open>Operations\<close>

definition writer_new ::
  "transfer_id \<Rightarrow> u32 \<Rightarrow> path \<Rightarrow> u32 \<Rightarrow> u64 \<Rightarrow> ('a fs_scheme, chunk_writer, storage_error) io" where
  "writer_new tid idx dest cs file_size =
     (let temp = with_extension dest ''justdrop_partial''
      in bind_io (case parent dest of
                    Some d \<Rightarrow> io_at d (fs_create_dir_all d)
                  | None \<Rightarrow> return_io ()) (\<lambda>_.
         bind_io (io_at temp (fs_open_create temp)) (\<lambda>_.
         bind_io (io_at temp (fs_set_len temp file_size)) (\<lambda>_.
         bind_io (lift_io (if file_size = 0 then Ok 1 else div_ceil file_size cs)) (\<lambda>n_chunks.
         return_io \<lparr>cw_transfer_id = tid, cw_file_index = idx, cw_dest_path = dest,
                    cw_temp_path = temp, cw_chunk_size = cs, cw_file_size = file_size,
                    cw_total_chunks = n_chunks, cw_completed = []\<rparr>)))))"

definition write_chunk ::
  "(bytes \<Rightarrow> sha256_hash) \<Rightarrow> chunk_writer \<Rightarrow> u64 \<Rightarrow> bytes
   \<Rightarrow> ('a fs_scheme, sha256_hash \<times> chunk_writer, storage_error) io" where
  "write_chunk sha256 w off data =
     (if cw_total_chunks w \<le> off
      then fail_io (ChunkIntegrityFailed (cw_transfer_id w) off)
      else let byte_offset = mul64 off (cw_chunk_size w); temp = cw_temp_path w
        in bind_io (io_at temp (fs_open temp)) (\<lambda>_.
           bind_io (io_at temp (fs_seek temp)) (\<lambda>_.
           bind_io (io_at temp (fs_write_all temp byte_offset data)) (\<lambda>_.
           bind_io (io_at temp (fs_flush temp)) (\<lambda>_.
           return_io (sha256 data, w\<lparr>cw_completed := List.insert off (cw_completed w)\<rparr>))))))"

definition is_complete :: "chunk_writer \<Rightarrow> bool" where
  "is_complete w \<longleftrightarrow> length (cw_completed w) = cw_total_chunks w"

definition completed_count :: "chunk_writer \<Rightarrow> u64" where
  "completed_count w = length (cw_completed w)"

definition missing_chunks :: "chunk_writer \<Rightarrow> u64 list" where
  "missing_chunks w = filter (\<lambda>off. off \<notin> set (cw_completed w)) [0..<cw_total_chunks w]"

definition restore_completed :: "hashset \<Rightarrow> chunk_writer \<Rightarrow> chunk_writer" where
  "restore_completed chunks w = w\<lparr>cw_completed := chunks\<rparr>"

text \<open>\<open>try_exists(p).await.unwrap_or(false)\<close>.\<close>

definition exists_or_false :: "path \<Rightarrow> 'a fs_scheme \<Rightarrow> bool \<times> 'a fs_scheme" where
  "exists_or_false p s = (case fs_exists p s of (Ok b, s') \<Rightarrow> (b, s') | (_, s') \<Rightarrow> (False, s'))"

fun first_free :: "(nat \<Rightarrow> path) \<Rightarrow> nat list \<Rightarrow> 'a fs_scheme \<Rightarrow> path option \<times> 'a fs_scheme" where
  "first_free name [] s = (None, s)"
| "first_free name (i # is) s =
     (case exists_or_false (name i) s of
        (False, s') \<Rightarrow> (Some (name i), s')
      | (True, s') \<Rightarrow> first_free name is s')"

definition numbered :: "path \<Rightarrow> nat \<Rightarrow> path" where
  "numbered p i =
     (let st = (case file_stem p of Some n \<Rightarrow> n | None \<Rightarrow> ''file'');
          ext = (case extension p of Some e \<Rightarrow> e | None \<Rightarrow> []);
          par = (case parent p of Some d \<Rightarrow> d | None \<Rightarrow> path_of ''.'')
      in join par (path_of (if ext = [] then st @ '' ('' @ show_nat i @ '')''
                            else st @ '' ('' @ show_nat i @ '').'' @ ext)))"

definition uuid_name :: "uuid \<Rightarrow> path \<Rightarrow> path" where
  "uuid_name uuid p =
     (let st = (case file_stem p of Some n \<Rightarrow> n | None \<Rightarrow> ''file'');
          ext = (case extension p of Some e \<Rightarrow> e | None \<Rightarrow> []);
          par = (case parent p of Some d \<Rightarrow> d | None \<Rightarrow> path_of ''.'')
      in join par (path_of (if ext = [] then st @ ''_'' @ uuid
                            else st @ ''_'' @ uuid @ ''.'' @ ext)))"

definition unique_path :: "uuid \<Rightarrow> path \<Rightarrow> 'a fs_scheme \<Rightarrow> path \<times> 'a fs_scheme" where
  "unique_path new_uuid p s =
     (case exists_or_false p s of
        (False, s1) \<Rightarrow> (p, s1)
      | (True, s1) \<Rightarrow>
          (case first_free (numbered p) [1..<1000] s1 of
             (Some q, s2) \<Rightarrow> (q, s2)
           | (None, s2) \<Rightarrow> (uuid_name new_uuid p, s2)))"

definition finalize :: "uuid \<Rightarrow> chunk_writer \<Rightarrow> ('a fs_scheme, unit, storage_error) io" where
  "finalize new_uuid w s =
     (case unique_path new_uuid (cw_dest_path w) s of
        (dest, s1) \<Rightarrow> io_at (cw_dest_path w) (fs_rename (cw_temp_path w) dest) s1)"

definition cleanup :: "chunk_writer \<Rightarrow> 'a fs_scheme \<Rightarrow> 'a fs_scheme" where
  "cleanup w s =
     (case exists_or_false (cw_temp_path w) s of
        (True, s1) \<Rightarrow> snd (fs_remove_file (cw_temp_path w) s1)
      | (False, s1) \<Rightarrow> s1)"

section \<open>The invariant of a writer\<close>

definition writer_ok :: "chunk_writer \<Rightarrow> bool" where
  "writer_ok w \<longleftrightarrow> distinct (cw_completed w) \<and> set (cw_completed w) \<subseteq> {..<cw_total_chunks w}
     \<and> cw_total_chunks w = nchunks (cw_file_size w) (cw_chunk_size w)
     \<and> 0 < cw_chunk_size w \<and> cw_file_size w < 2 ^ 64"

lemma writer_okD:
  assumes "writer_ok w"
  shows "distinct (cw_completed w)" "set (cw_completed w) \<subseteq> {..<cw_total_chunks w}"
    "cw_total_chunks w = nchunks (cw_file_size w) (cw_chunk_size w)" "0 < cw_chunk_size w"
  using assms unfolding writer_ok_def by blast+

lemma complete_iff_all:
  assumes "writer_ok w"
  shows "is_complete w \<longleftrightarrow> set (cw_completed w) = {..<cw_total_chunks w}"
proof -
  have "length (cw_completed w) = card (set (cw_completed w))"
    using assms by (simp add: writer_ok_def distinct_card)
  moreover have "card (set (cw_completed w)) = card {..<cw_total_chunks w}
      \<longleftrightarrow> set (cw_completed w) = {..<cw_total_chunks w}"
    using writer_okD(2) [OF assms] by (metis card_subset_eq finite_lessThan)
  ultimately show ?thesis by (simp add: is_complete_def)
qed

lemma writer_ok_insert:
  "writer_ok w \<Longrightarrow> off < cw_total_chunks w \<Longrightarrow>
     writer_ok (w\<lparr>cw_completed := List.insert off (cw_completed w)\<rparr>)"
  by (auto simp: writer_ok_def)

lemma write_chunk_Ok:
  assumes "write_chunk sha256 w off data s = (Ok (h, w'), s')" and "writer_ok w"
  obtains d where "off < cw_total_chunks w" "h = sha256 data"
    "w' = w\<lparr>cw_completed := List.insert off (cw_completed w)\<rparr>"
    "content s (cw_temp_path w) = Some d"
    "content s' = (content s)(cw_temp_path w \<mapsto> write_at (off * cw_chunk_size w) data d)"
proof -
  let ?t = "cw_temp_path w"
  have off: "off < cw_total_chunks w"
    using assms(1) by (auto simp: write_chunk_def fail_io_def split: if_splits)
  have "off * cw_chunk_size w < 2 ^ 64"
    using off assms(2) nchunks_offset [of "cw_chunk_size w" off "cw_file_size w"]
    by (auto simp: writer_ok_def)
  then have m: "mul64 off (cw_chunk_size w) = off * cw_chunk_size w" by simp
  obtain s1 s2 s3 where o: "fs_open ?t s = (Ok (), s1)" "fs_seek ?t s1 = (Ok (), s2)"
    and wr: "fs_write_all ?t (off * cw_chunk_size w) data s2 = (Ok (), s3)"
    and fl: "fs_flush ?t s3 = (Ok (), s')"
    and r: "h = sha256 data" "w' = w\<lparr>cw_completed := List.insert off (cw_completed w)\<rparr>"
    using assms(1) off m
    by (auto simp: write_chunk_def Let_def bind_io_Ok_iff return_io_def)
  have c2: "content s2 = content s"
    using fs_open_Ok [OF o(1)] o(2) by (auto simp: fs_seek_def dest!: gate_same_env same_envD)
  obtain d where d: "content s2 ?t = Some d"
    "same_env (set_node ?t (Some (FileN (write_at (off * cw_chunk_size w) data d))) s2) s3"
    using wr by (rule fs_write_all_Ok)
  have "content s' = (content s)(?t \<mapsto> write_at (off * cw_chunk_size w) data d)"
    using d(2) c2 fl by (auto simp: fs_flush_def dest!: gate_same_env same_envD)
  with off r d(1) c2 show thesis by (intro that) auto
qed

lemma write_chunk_healthy:
  assumes "healthy s" and "writer_ok w" and "off < cw_total_chunks w"
    and "content s (cw_temp_path w) = Some d"
  shows "\<exists>s'. write_chunk sha256 w off data s
      = (Ok (sha256 data, w\<lparr>cw_completed := List.insert off (cw_completed w)\<rparr>), s') \<and> healthy s'"
proof -
  let ?t = "cw_temp_path w" and ?b = "mul64 off (cw_chunk_size w)"
  let ?tick = "\<lambda>s. s\<lparr>ticks := Suc (ticks s)\<rparr>"
  have n: "nodes s ?t = Some (FileN d)" using assms(4) by (simp add: content_Some)
  have o: "fs_open ?t s = (Ok (), ?tick s)" and k: "fs_seek ?t (?tick s) = (Ok (), ?tick (?tick s))"
    using assms(1) n by (simp_all add: fs_open_def fs_seek_def bind_io_def fs_simps)
  have "content (?tick (?tick s)) ?t = Some d" using assms(4) by simp
  then obtain s3 where wr: "fs_write_all ?t ?b data (?tick (?tick s)) = (Ok (), s3)"
    and "same_env (set_node ?t (Some (FileN (write_at ?b data d))) (?tick (?tick s))) s3"
    using fs_write_all_healthy [of "?tick (?tick s)" ?t d] assms(1) by auto
  then have "healthy s3" using assms(1) by (auto dest!: same_envD)
  then have "fs_flush ?t s3 = (Ok (), ?tick s3)" "healthy (?tick s3)"
    by (simp_all add: fs_flush_def fs_simps)
  then show ?thesis
    using assms(3) o k wr by (simp add: write_chunk_def Let_def bind_io_def io_at_def map_err_io_def return_io_def)
qed

section \<open>Chunks at their offsets\<close>

lemma slice_write_same:
  assumes "i * cs + length y \<le> length d" and "length y \<le> cs"
    and "length y = length (slice cs d i)"
  shows "slice cs (write_at (i * cs) y d) i = y"
proof (cases "y = []")
  case True
  then show ?thesis using assms by (auto simp: write_at_def)
next
  case False
  then show ?thesis using assms
    by (intro nth_equalityI) (auto simp: length_slice write_at_inside nth_slice nth_write_at)
qed

lemma slice_write_other:
  assumes "i * cs + length y \<le> length d" and "length y \<le> cs" and "i \<noteq> j"
  shows "slice cs (write_at (i * cs) y d) j = slice cs d j"
proof (rule nth_equalityI)
  have l: "length (write_at (i * cs) y d) = length d" using assms(1) by (rule write_at_inside)
  then show "length (slice cs (write_at (i * cs) y d) j) = length (slice cs d j)"
    by (simp add: length_slice)
  fix k assume k: "k < length (slice cs (write_at (i * cs) y d) j)"
  then have b: "k < cs" "j * cs + k < length d" using l by (auto simp: length_slice)
  have out: "\<not> (i * cs \<le> j * cs + k \<and> j * cs + k < i * cs + length y)"
  proof (cases "i < j")
    case True
    then have "Suc i * cs \<le> j * cs" by (intro mult_le_mono1) simp
    then show ?thesis using assms(2) by simp
  next
    case False
    then have "Suc j * cs \<le> i * cs" using assms(3) by (intro mult_le_mono1) simp
    then show ?thesis using b(1) by simp
  qed
  then show "slice cs (write_at (i * cs) y d) j ! k = slice cs d j ! k"
    using b by (simp add: nth_slice length_slice l) (simp only: nth_write_at [OF b(2)] out if_False)
qed

lemma slice_fits:
  assumes "0 < cs" "i < nchunks (length x) cs"
  shows "i * cs + length (slice cs x i) \<le> length x"
  using nchunks_offset [OF assms] by (auto simp: length_slice)

text \<open>What a writer has of the file \<open>x\<close> it receives.\<close>

definition holds :: "chunk_writer \<Rightarrow> bytes \<Rightarrow> bytes \<Rightarrow> bool" where
  "holds w x d \<longleftrightarrow> length d = length x
     \<and> (\<forall>i\<in>set (cw_completed w). slice (cw_chunk_size w) d i = slice (cw_chunk_size w) x i)"

lemma holds_write:
  assumes "writer_ok w" "cw_file_size w = length x" "holds w x d" "i < cw_total_chunks w"
  shows "holds (w\<lparr>cw_completed := List.insert i (cw_completed w)\<rparr>) x
           (write_at (i * cw_chunk_size w) (slice (cw_chunk_size w) x i) d)"
proof -
  let ?cs = "cw_chunk_size w" and ?y = "slice (cw_chunk_size w) x i"
  have len: "length d = length x" using assms(3) by (simp add: holds_def)
  have fit: "i * ?cs + length ?y \<le> length d" and cs: "length ?y \<le> ?cs"
    using slice_fits [of ?cs i x] writer_okD [OF assms(1)] assms(2,4) len
    by (auto simp: length_slice)
  have "length ?y = length (slice ?cs d i)" using len by (simp add: length_slice)
  note slice_write_same [OF fit cs this] slice_write_other [OF fit cs]
  moreover have "slice ?cs (write_at (i * ?cs) ?y d) j = slice ?cs x j" if "j \<in> set (cw_completed w)" for j
    using that assms(3) calculation by (cases "i = j") (auto simp: holds_def)
  ultimately show ?thesis using len fit by (auto simp: holds_def write_at_inside)
qed

lemma holds_complete:
  assumes "writer_ok w" "cw_file_size w = length x" "holds w x d" "is_complete w"
  shows "d = x"
proof -
  let ?cs = "cw_chunk_size w" and ?n = "cw_total_chunks w"
  have len: "length d = length x" using assms(3) by (simp add: holds_def)
  have "length x \<le> ?n * ?cs"
    using writer_okD [OF assms(1)] assms(2) ceil_div_bounds(1) [of ?cs "length x"]
    by (auto simp: nchunks_def)
  then have "concat (map (slice ?cs x) [0..<?n]) = x" "concat (map (slice ?cs d) [0..<?n]) = d"
    using len by (simp_all add: concat_slices)
  moreover have "map (slice ?cs d) [0..<?n] = map (slice ?cs x) [0..<?n]"
    using assms(3,4) complete_iff_all [OF assms(1)] by (auto simp: holds_def)
  ultimately show ?thesis by metis
qed

lemma writer_new_Ok:
  assumes "writer_new tid i dest cs n s = (Ok w, s')" and "0 < cs" "n < 2 ^ 64"
  shows "writer_ok w" "cw_completed w = []" "cw_chunk_size w = cs" "cw_file_size w = n"
    "cw_dest_path w = dest" "cw_temp_path w = with_extension dest ''justdrop_partial''"
    "\<exists>d. content s' (cw_temp_path w) = Some d \<and> length d = n"
proof -
  let ?t = "with_extension dest ''justdrop_partial''"
  obtain s1 s2 m where len: "fs_set_len ?t n s1 = (Ok (), s2)"
    and m: "(if n = 0 then Ok 1 else div_ceil n cs) = (Ok m :: (nat, storage_error) result)" "s' = s2"
    and w: "w = \<lparr>cw_transfer_id = tid, cw_file_index = i, cw_dest_path = dest,
                 cw_temp_path = ?t, cw_chunk_size = cs, cw_file_size = n,
                 cw_total_chunks = m, cw_completed = []\<rparr>"
    using assms(1) by (auto simp: writer_new_def Let_def bind_io_Ok_iff return_io_def lift_io_def)
  obtain s3 where "(case content s3 ?t of None \<Rightarrow> (Err NotFound, s3)
      | Some d \<Rightarrow> (Ok (), set_node ?t (Some (FileN (set_length n d))) s3)) = (Ok (), s2)"
    using len unfolding fs_set_len_def by (rule bind_gate_Ok)
  then show "\<exists>d. content s' (cw_temp_path w) = Some d \<and> length d = n"
    using w m(2) by (auto split: option.splits)
  have "m = nchunks n cs" using m(1) assms(2) by (auto simp: nchunks_def div_ceil_def split: if_splits)
  then show "writer_ok w" using w assms by (simp add: writer_ok_def)
  show "cw_completed w = []" "cw_chunk_size w = cs" "cw_file_size w = n" "cw_dest_path w = dest"
    "cw_temp_path w = ?t"
    using w by simp_all
qed

text \<open>A run of the receive loop on one file: the chunks in the order they arrive.\<close>

fun write_chunks ::
  "(bytes \<Rightarrow> sha256_hash) \<Rightarrow> (u64 \<times> bytes) list \<Rightarrow> chunk_writer
   \<Rightarrow> ('a fs_scheme, chunk_writer, storage_error) io" where
  "write_chunks sha256 [] w = return_io w"
| "write_chunks sha256 ((off, data) # cks) w =
     bind_io (write_chunk sha256 w off data) (\<lambda>(h, w'). write_chunks sha256 cks w')"

lemma write_chunks_holds:
  assumes "healthy s" "writer_ok w" "cw_file_size w = length x"
    and "content s (cw_temp_path w) = Some d" "holds w x d" "set offs \<subseteq> {..<cw_total_chunks w}"
  shows "\<exists>w' s' d'. write_chunks sha256 (map (\<lambda>i. (i, slice (cw_chunk_size w) x i)) offs) w s = (Ok w', s')
     \<and> writer_ok w' \<and> holds w' x d' \<and> content s' (cw_temp_path w) = Some d'
     \<and> set (cw_completed w') = set (cw_completed w) \<union> set offs
     \<and> cw_total_chunks w' = cw_total_chunks w \<and> cw_file_size w' = length x"
  using assms
proof (induction offs arbitrary: w s d)
  case Nil
  then show ?case by (auto simp: return_io_def)
next
  case (Cons i offs)
  let ?w = "w\<lparr>cw_completed := List.insert i (cw_completed w)\<rparr>" and ?y = "slice (cw_chunk_size w) x i"
  have i: "i < cw_total_chunks w" using Cons.prems(6) by simp
  obtain s1 where s1: "write_chunk sha256 w i ?y s = (Ok (sha256 ?y, ?w), s1)" "healthy s1"
    using write_chunk_healthy [OF Cons.prems(1,2) i Cons.prems(4)] by blast
  let ?d = "write_at (i * cw_chunk_size w) ?y d"
  have c1: "content s1 (cw_temp_path w) = Some ?d"
    by (rule write_chunk_Ok [OF s1(1) Cons.prems(2)]) (use Cons.prems(4) in simp)
  note d1 = c1 holds_write [OF Cons.prems(2,3,5) i]
  have "writer_ok ?w" using Cons.prems(2) i by (rule writer_ok_insert)
  moreover have "cw_file_size ?w = length x" "content s1 (cw_temp_path ?w) = Some ?d"
    "set offs \<subseteq> {..<cw_total_chunks ?w}"
    using d1(1) Cons.prems(3,6) by simp_all
  ultimately obtain w' s' d' where
    "write_chunks sha256 (map (\<lambda>i. (i, slice (cw_chunk_size ?w) x i)) offs) ?w s1 = (Ok w', s')"
    and ok: "writer_ok w'" "holds w' x d'" "content s' (cw_temp_path ?w) = Some d'"
    "set (cw_completed w') = set (cw_completed ?w) \<union> set offs"
    "cw_total_chunks w' = cw_total_chunks ?w" "cw_file_size w' = length x"
    using Cons.IH [of s1 ?w ?d] s1(2) d1(2) by meson
  then have "write_chunks sha256 (map (\<lambda>i. (i, slice (cw_chunk_size w) x i)) (i # offs)) w s = (Ok w', s')"
    using s1(1) by (simp add: bind_io_def)
  moreover have "set (cw_completed w') = set (cw_completed w) \<union> set (i # offs)"
    using ok(4) by (simp add: List.insert_def) blast
  ultimately show ?case using ok by (intro exI [of _ w'] exI [of _ s'] exI [of _ d']) simp
qed

section \<open>Receiving a file\<close>

text \<open>
  C5. Chunks may arrive in any order and more than once: if every offset of the file is among
  the arrivals, the writer that \<open>new\<close> created ends complete and the temporary file is the file
  that was sent, whatever an earlier attempt left in the temporary file.
\<close>

theorem writer_reassembles:
  assumes "healthy s0" and "writer_new tid idx dest cs (length x) s = (Ok w, s0)"
    and "0 < cs" and "length x < 2 ^ 64" and "set offs = {..<nchunks (length x) cs}"
  shows "\<exists>w' s'. write_chunks sha256 (map (\<lambda>i. (i, slice cs x i)) offs) w s0 = (Ok w', s')
           \<and> is_complete w' \<and> content s' (with_extension dest ''justdrop_partial'') = Some x"
proof -
  note W = writer_new_Ok [OF assms(2,3,4)]
  obtain d where d: "content s0 (cw_temp_path w) = Some d" "length d = length x" using W(7) by blast
  have n: "cw_total_chunks w = nchunks (length x) cs" using writer_okD(3) [OF W(1)] W(3,4) by simp
  have "holds w x d" using d W(2) by (simp add: holds_def)
  from write_chunks_holds [OF assms(1) W(1,4) d(1) this, of offs sha256]
  obtain w' s' d' where run: "write_chunks sha256 (map (\<lambda>i. (i, slice cs x i)) offs) w s0 = (Ok w', s')"
    and ok: "writer_ok w'" "holds w' x d'" "content s' (cw_temp_path w) = Some d'"
      "set (cw_completed w') = {..<nchunks (length x) cs}" "cw_file_size w' = length x"
      "cw_total_chunks w' = nchunks (length x) cs"
    using assms(5) n W(2,3) by auto
  then have "is_complete w'" by (simp add: complete_iff_all)
  moreover from this have "d' = x" by (rule holds_complete [OF ok(1,5,2)])
  ultimately show ?thesis using run ok(3) W(6) by auto
qed

definition demo_dir :: fs where
  "demo_dir = \<lparr>nodes = [path_of ''/d'' \<mapsto> DirN, path_of ''/d/f.justdrop_partial'' \<mapsto> FileN [9, 9, 9, 9]],
              fault = (\<lambda>_ _ _. None), cap = (\<lambda>_. 1), ticks = 0\<rparr>"

lemmas path_eval = path_of_def proper_comps_def with_extension_def file_stem_def file_name_def
  split_name_def with_name_def parent_def absolute_def

lemmas fs_eval = fs_gate_def fs_open_create_def fs_open_def fs_set_len_def fs_create_dir_all_def
  fs_write_all_def fs_seek_def fs_flush_def fs_rename_def fs_exists_def fs_remove_file_def
  bind_io_def map_err_io_def return_io_def lift_io_def fail_io_def io_at_def set_node_def
  content_def is_dir_def parent_ok_def

lemma demo_writer_new:
  "\<exists>w s0. writer_new [] 0 (path_of ''/d/f'') 2 3 demo_dir = (Ok w, s0) \<and> healthy s0"
  by (simp add: writer_new_def demo_dir_def path_eval fs_eval div_ceil_def healthy_def Let_def)

theorem writer_reassembles_witness:
  "\<exists>w s0 w' s'. writer_new [] 0 (path_of ''/d/f'') 2 3 demo_dir = (Ok w, s0)
     \<and> write_chunks id [(1, [3]), (0, [1, 2]), (1, [3])] w s0 = (Ok w', s')
     \<and> content s' (path_of ''/d/f.justdrop_partial'') = Some [1, 2, 3]"
proof -
  obtain w s0 where w: "writer_new [] 0 (path_of ''/d/f'') 2 3 demo_dir = (Ok w, s0)" "healthy s0"
    using demo_writer_new by blast
  have "set [1, 0, 1] = {..<nchunks (length [1, 2, 3 :: byte]) 2}"
    by (auto simp: nchunks_def ceil_div_def)
  from writer_reassembles [OF w(2) _ _ _ this, of "[]" 0 "path_of ''/d/f''" demo_dir w id] w(1)
  obtain w' s' where "write_chunks id [(1, [3]), (0, [1, 2]), (1, [3])] w s0 = (Ok w', s')"
    "content s' (path_of ''/d/f.justdrop_partial'') = Some [1, 2, 3]"
    by (simp del: write_chunks.simps add: slice_def path_eval numeral_3_eq_3) blast
  with w(1) show ?thesis by blast
qed

text \<open>Every writer a transfer can have: operations that fail leave it as it was.\<close>

inductive writer_reach :: "(bytes \<Rightarrow> sha256_hash) \<Rightarrow> chunk_writer \<Rightarrow> bool"
  for sha256 where
  reach_new: "writer_new tid i dest cs n (s :: fs) = (Ok w, s') \<Longrightarrow> 0 < cs \<Longrightarrow> n < 2 ^ 64
      \<Longrightarrow> writer_reach sha256 w"
| reach_write: "writer_reach sha256 w \<Longrightarrow> write_chunk sha256 w off data (s :: fs) = (Ok (h, w'), s')
      \<Longrightarrow> writer_reach sha256 w'"

inductive_cases writer_reachE: "writer_reach sha256 w"

lemma writer_reach_ok: "writer_reach sha256 w \<Longrightarrow> writer_ok w"
proof (induction rule: writer_reach.induct)
  case (reach_new tid i dest cs n s w s')
  then show ?case by (rule writer_new_Ok)
next
  case (reach_write w off data s h w' s')
  then show ?case by (auto elim!: write_chunk_Ok intro: writer_ok_insert)
qed



section \<open>What a failing write leaves\<close>

lemma gate_cases:
  assumes "fs_gate op p s = (r, s')"
  shows "nodes s' = nodes s" "content s' = content s" "(\<exists>e. r = Err e) \<or> r = Ok ()"
  using assms by (auto simp: fs_gate_def split: option.splits)

lemma fs_write_all_frame:
  assumes "fs_write_all p off x s = (r, s')" and "content s p = Some d"
  shows "\<exists>k. nodes s' = (nodes s)(p \<mapsto> FileN (write_at off (take k x) d))"
proof -
  obtain r1 s1 where g: "fs_gate OpWrite p s = (r1, s1)" by fastforce
  note G = gate_cases [OF g]
  show ?thesis
  proof (cases r1)
    case (Ok u)
    then show ?thesis using assms g G(1) by (intro exI [of _ "length x"]) (auto simp: fs_write_all_def)
  next
    case (Err e)
    then show ?thesis
      using assms g G(1) by (intro exI [of _ "cap s (ticks s)"]) (auto simp: fs_write_all_def)
  next
    case Panic
    then show ?thesis using G(3) by simp
  qed
qed

lemma gate_state: "nodes (snd (fs_gate op p s)) = nodes s" "content (snd (fs_gate op p s)) = content s"
  by (simp_all add: fs_gate_def split: option.split)

lemma fs_open_state: "nodes (snd (fs_open p s)) = nodes s"
  by (auto simp: fs_open_def bind_io_def fs_gate_def split: prod.splits result.splits option.splits node.splits)

lemma write_chunk_frame:
  assumes "content s (cw_temp_path w) = Some d"
  shows "\<exists>k. nodes (snd (write_chunk sha256 w off data s))
     = (nodes s)(cw_temp_path w \<mapsto> FileN (write_at (mul64 off (cw_chunk_size w)) (take k data) d))"
proof -
  let ?t = "cw_temp_path w" and ?b = "mul64 off (cw_chunk_size w)"
  let ?P = "\<lambda>t. \<exists>k. nodes t = (nodes s)(?t \<mapsto> FileN (write_at ?b (take k data) d))"
  have none: "?P t" if "nodes t = nodes s" for t :: "'a fs_scheme"
    using assms that by (intro exI [of _ 0]) (simp add: write_at_def content_Some fun_upd_idem)
  have wr: "?P (snd (fs_write_all ?t ?b data t))" if "nodes t = nodes s" for t :: "'a fs_scheme"
  proof -
    have "content t ?t = Some d" using assms that by (simp add: content_def)
    from fs_write_all_frame [OF surjective_pairing this] that show ?thesis by simp
  qed
  have flush: "?P (snd (bind_io (io_at ?t (fs_flush ?t)) (\<lambda>_. return_io r) t))"
    if "?P t" for t :: "'a fs_scheme" and r :: "sha256_hash \<times> chunk_writer"
    using that gate_state(1) [of OpFlush ?t t]
    by (intro bind_io_state [where P = ?P]) (auto simp: fs_flush_def return_io_def)
  have keep: "?P (snd (bind_io (io_at ?t m) f t))"
    if "nodes t = nodes s" "nodes (snd (m t)) = nodes t"
      and "\<And>t1. nodes t1 = nodes s \<Longrightarrow> ?P (snd (f () t1))"
    for t :: "'a fs_scheme" and m :: "('a fs_scheme, unit, io_error) io"
      and f :: "unit \<Rightarrow> ('a fs_scheme, sha256_hash \<times> chunk_writer, storage_error) io"
    using that none by (intro bind_io_state [where P = ?P]) auto
  have rest: "?P (snd (bind_io (io_at ?t (fs_write_all ?t ?b data))
      (\<lambda>_. bind_io (io_at ?t (fs_flush ?t)) (\<lambda>_. return_io r)) t))"
    if "nodes t = nodes s" for t :: "'a fs_scheme" and r :: "sha256_hash \<times> chunk_writer"
    using wr [OF that] by (intro bind_io_state [where P = ?P] flush) auto
  show ?thesis
  proof (cases "cw_total_chunks w \<le> off")
    case True
    then show ?thesis using none by (simp add: write_chunk_def fail_io_def)
  next
    case False
    then show ?thesis unfolding write_chunk_def Let_def if_not_P [OF False]
      by (intro keep rest) (simp_all add: fs_open_state fs_seek_def gate_state)
  qed
qed

text \<open>
  A write touches its own chunk only, also when it fails half way: no other file
  changes, and if the data is no longer than the chunk the other chunks of the file keep
  their bytes and the file its length. An offset beyond the last chunk is refused before
  anything is touched.
\<close>

theorem write_chunk_confined:
  assumes "writer_reach sha256 w" and "content s (cw_temp_path w) = Some d"
    and "length d = cw_file_size w" and "length data \<le> length (slice (cw_chunk_size w) d off)"
    and "write_chunk sha256 w off data s = (r, s')"
  shows "(\<forall>p. p \<noteq> cw_temp_path w \<longrightarrow> nodes s' p = nodes s p)
    \<and> (\<exists>d'. content s' (cw_temp_path w) = Some d' \<and> length d' = length d
         \<and> (\<forall>j. j \<noteq> off \<longrightarrow> slice (cw_chunk_size w) d' j = slice (cw_chunk_size w) d j))
    \<and> (cw_total_chunks w \<le> off \<longrightarrow> r = Err (ChunkIntegrityFailed (cw_transfer_id w) off) \<and> s' = s)"
proof -
  let ?cs = "cw_chunk_size w" and ?b = "mul64 off (cw_chunk_size w)"
  note ok = writer_okD [OF writer_reach_ok [OF assms(1)]]
  have range: "cw_total_chunks w \<le> off \<longrightarrow> r = Err (ChunkIntegrityFailed (cw_transfer_id w) off) \<and> s' = s"
    using assms(5) by (auto simp: write_chunk_def fail_io_def)
  show ?thesis
  proof (cases "cw_total_chunks w \<le> off")
    case True
    then show ?thesis using range assms(2) by auto
  next
    case False
    then have "off * ?cs \<le> cw_file_size w" using ok(3,4) by (auto intro: nchunks_offset)
    moreover have "cw_file_size w < 2 ^ 64"
      using writer_reach_ok [OF assms(1)] by (simp add: writer_ok_def)
    ultimately have b: "?b = off * ?cs" "off * ?cs \<le> length d" using assms(3) by simp_all
    obtain k where k: "nodes s' = (nodes s)(cw_temp_path w \<mapsto> FileN (write_at (off * ?cs) (take k data) d))"
      using write_chunk_frame [OF assms(2), of sha256 off data] assms(5) b(1) by auto
    have l: "length (take k data) \<le> length (slice ?cs d off)" using assms(4) by simp
    then have "off * ?cs + length (take k data) \<le> length d" "length (take k data) \<le> ?cs"
      using b(2) by (auto simp: length_slice)
    note slice_write_other [OF this] write_at_inside [OF this(1)]
    with k range False show ?thesis by (auto simp: content_def)
  qed
qed

theorem write_chunk_confined_witness:
  "\<exists>w (s0 :: fs) s'. writer_reach id w \<and> write_chunk id w 5 [] s0 = (Err (ChunkIntegrityFailed [] 5), s0)
     \<and> write_chunk id w 5 [] s0 = (Err (ChunkIntegrityFailed [] 5), s')
     \<and> (\<forall>p. p \<noteq> cw_temp_path w \<longrightarrow> nodes s' p = nodes s0 p)"
proof -
  obtain w s0 where w: "writer_new [] 0 (path_of ''/d/f'') 2 3 demo_dir = (Ok w, s0)"
    using demo_writer_new by blast
  note W = writer_new_Ok [OF w]
  have r: "writer_reach id w" using w by (intro reach_new) auto
  obtain d where d: "content s0 (cw_temp_path w) = Some d" "length d = cw_file_size w" using W by auto
  have "cw_total_chunks w \<le> 5" "cw_transfer_id w = []"
    using w writer_okD(3) [OF W(1)] W(3,4)
    by (auto simp: writer_new_def Let_def bind_io_Ok_iff return_io_def lift_io_def nchunks_def ceil_div_def)
  moreover obtain r' s' where x: "write_chunk id w 5 [] s0 = (r', s')" by fastforce
  ultimately have "r' = Err (ChunkIntegrityFailed [] 5)" "s' = s0"
    "\<forall>p. p \<noteq> cw_temp_path w \<longrightarrow> nodes s' p = nodes s0 p"
    using write_chunk_confined [OF r d _ x] by auto
  with r x show ?thesis by blast
qed

section \<open>The final name\<close>

lemma exists_or_false_healthy:
  "healthy s \<Longrightarrow> exists_or_false p s = (nodes s p \<noteq> None, s\<lparr>ticks := Suc (ticks s)\<rparr>)"
  by (simp add: exists_or_false_def fs_exists_def bind_io_def fs_simps)

lemma first_free_healthy:
  assumes "healthy s" "first_free name is s = (q, s')"
  shows "same_env s s'" "q = None \<Longrightarrow> \<forall>i\<in>set is. nodes s (name i) \<noteq> None"
    "q = Some p \<Longrightarrow> nodes s p = None"
  using assms
  by (induction name "is" s arbitrary: q s' rule: first_free.induct)
    (auto simp: exists_or_false_healthy same_env_def split: bool.splits prod.splits if_splits)

lemma unique_path_healthy:
  assumes "healthy s" "unique_path u p s = (q, s')"
  shows "same_env s s'"
    "nodes s q = None \<or> q = uuid_name u p \<and> nodes s p \<noteq> None
       \<and> (\<forall>i\<in>{1..<1000}. nodes s (numbered p i) \<noteq> None)"
    "nodes s p = None \<Longrightarrow> q = p"
proof -
  let ?s = "s\<lparr>ticks := Suc (ticks s)\<rparr>"
  obtain f s2 where f: "first_free (numbered p) [1..<1000] ?s = (f, s2)" by fastforce
  have "healthy ?s" using assms(1) by simp
  note F = first_free_healthy [OF this f]
  show "nodes s p = None \<Longrightarrow> q = p"
    using assms by (auto simp: unique_path_def exists_or_false_healthy)
  show "same_env s s'"
    using assms f F(1) same_env_trans [OF same_env_ticks]
    by (auto simp: unique_path_def exists_or_false_healthy split: bool.splits option.splits)
  show "nodes s q = None \<or> q = uuid_name u p \<and> nodes s p \<noteq> None
       \<and> (\<forall>i\<in>{1..<1000}. nodes s (numbered p i) \<noteq> None)"
    using assms f F(2,3)
    by (auto simp: unique_path_def exists_or_false_healthy split: bool.splits option.splits)
qed

lemma finalize_step:
  assumes "healthy s" and "nodes s (uuid_name u (cw_dest_path w)) = None"
    and "content s (cw_temp_path w) = Some d" and "finalize u w s = (Ok (), s')"
  shows "\<exists>q. nodes s q = None \<and> (nodes s (cw_dest_path w) = None \<longrightarrow> q = cw_dest_path w)
           \<and> nodes s' = (nodes s)(cw_temp_path w := None, q \<mapsto> FileN d)"
proof -
  let ?t = "cw_temp_path w"
  obtain q s1 where q: "unique_path u (cw_dest_path w) s = (q, s1)" by fastforce
  note Q = unique_path_healthy [OF assms(1) q]
  have free: "nodes s q = None" using Q(2) assms(2) by auto
  have "fs_rename ?t q s1 = (Ok (), s')" using assms(4) q by (simp add: finalize_def)
  then obtain s2 where s2: "same_env s1 s2"
    and r: "(case nodes s2 ?t of None \<Rightarrow> (Err NotFound, s2) | Some n \<Rightarrow>
        if ?t = q then (Ok (), s2) else if nodes s2 q = Some DirN then (Err IsADirectory, s2)
        else if \<not> parent_ok s2 q then (Err NotFound, s2)
        else (Ok (), set_node q (Some n) (set_node ?t None s2))) = (Ok (), s')"
    unfolding fs_rename_def by (rule bind_gate_Ok)
  have n: "nodes s2 = nodes s" using s2 Q(1) by (simp add: same_envD)
  have t: "nodes s ?t = Some (FileN d)" using assms(3) by (simp add: content_Some)
  then have "?t \<noteq> q" using free by auto
  then have "nodes s' = (nodes s)(?t := None, q \<mapsto> FileN d)"
    using r n t by (auto split: if_splits)
  then show ?thesis using free Q(3) by (intro exI [of _ q]) simp
qed

lemma finalize_healthy:
  assumes "healthy s"
  shows "healthy (snd (finalize u w s))"
proof -
  obtain q s1 where q: "unique_path u (cw_dest_path w) s = (q, s1)" by fastforce
  have "healthy s1" using assms unique_path_healthy(1) [OF assms q] by (simp add: same_envD)
  then show ?thesis
    by (simp add: finalize_def q fs_rename_def bind_io_def fs_simps split: option.split)
qed

text \<open>
  C20. On a healthy file system \<open>finalize\<close> never overwrites a file: when it succeeds the temporary
  file has moved to a path where nothing was, which is the destination itself if that was
  free, and every other file is as before. (The name with a fresh UUID, tried when the
  destination and 999 numbered names are taken, is assumed to be free.)
\<close>

theorem finalize_no_overwrite:
  assumes "healthy s" and "nodes s (uuid_name u (cw_dest_path w)) = None"
    and "content s (cw_temp_path w) = Some d" and "finalize u w s = (Ok (), s')"
  shows "\<exists>q. nodes s q = None \<and> (nodes s (cw_dest_path w) = None \<longrightarrow> q = cw_dest_path w)
           \<and> nodes s' = (nodes s)(cw_temp_path w := None, q \<mapsto> FileN d)"
  using assms by (rule finalize_step)

definition demo_writer :: chunk_writer where
  "demo_writer = \<lparr>cw_transfer_id = [], cw_file_index = 0, cw_dest_path = path_of ''/d/f.txt'',
     cw_temp_path = path_of ''/d/f.justdrop_partial'', cw_chunk_size = 4, cw_file_size = 4,
     cw_total_chunks = 1, cw_completed = [0]\<rparr>"

definition demo_taken :: fs where
  "demo_taken = set_node (path_of ''/d/f.txt'') (Some (FileN [1])) demo_dir"

lemmas name_eval = uuid_name_def numbered_def extension_def join_def

theorem finalize_no_overwrite_witness:
  "\<exists>s' q. finalize ''u'' demo_writer demo_taken = (Ok (), s') \<and> nodes demo_taken q = None
     \<and> nodes s' = (nodes demo_taken)(cw_temp_path demo_writer := None, q \<mapsto> FileN [9, 9, 9, 9])"
proof -
  have h: "healthy demo_taken" by (simp add: demo_taken_def demo_dir_def healthy_def set_node_def)
  have n: "nodes demo_taken = [path_of ''/d'' \<mapsto> DirN, path_of ''/d/f.justdrop_partial'' \<mapsto> FileN [9, 9, 9, 9],
      path_of ''/d/f.txt'' \<mapsto> FileN [1]]"
    by (simp add: demo_taken_def demo_dir_def)
  have "[1..<1000] = 1 # [2..<1000]" by (subst upt_rec) (simp del: upt_rec_numeral add: numeral_2_eq_2)
  then have "\<exists>s'. finalize ''u'' demo_writer demo_taken = (Ok (), s')"
    using h n
    by (simp add: finalize_def unique_path_def exists_or_false_healthy demo_writer_def
        name_eval path_eval show_nat.simps digit_char_def fs_rename_def io_at_def bind_io_def
        map_err_io_def fs_simps parent_ok_def is_dir_def del: upt_rec_numeral)
  moreover have "nodes demo_taken (uuid_name ''u'' (cw_dest_path demo_writer)) = None"
    by (simp add: n demo_writer_def name_eval path_eval)
  moreover have "content demo_taken (cw_temp_path demo_writer) = Some [9, 9, 9, 9]"
    by (simp add: content_Some n demo_writer_def path_eval)
  ultimately show ?thesis using finalize_no_overwrite [OF h] by blast
qed

section \<open>Two limits of the receiving side\<close>

text \<open>
  The chunk size of a manifest is used as a divisor: with a chunk size of zero, \<open>new\<close>
  panics for every non-empty file for which it would otherwise return a writer, after it has
  already created the temporary file at full length.
\<close>

theorem zero_chunk_size_panics:
  assumes "writer_new tid idx dest cs n s = (Ok w, s')" and "0 < cs" and "0 < n"
  shows "writer_new tid idx dest 0 n s = (Panic, s') \<and> content s' (cw_temp_path w) \<noteq> None"
proof -
  let ?t = "with_extension dest ''justdrop_partial''"
  obtain s1 s2 where
    "(case parent dest of Some d \<Rightarrow> io_at d (fs_create_dir_all d) | None \<Rightarrow> return_io ()) s
       = ((Ok (), s1) :: (unit, storage_error) result \<times> _)"
    "fs_open_create ?t s1 = (Ok (), s2)" and len: "fs_set_len ?t n s2 = (Ok (), s')"
    and t: "cw_temp_path w = ?t"
    using assms(1) by (auto simp: writer_new_def Let_def bind_io_Ok_iff return_io_def lift_io_def)
  then have "writer_new tid idx dest 0 n s = (Panic, s')"
    using assms(3)
    by (simp add: writer_new_def Let_def bind_io_def lift_io_def div_ceil_def io_at_def map_err_io_def)
  moreover obtain s3 where "(case content s3 ?t of None \<Rightarrow> (Err NotFound, s3)
      | Some d \<Rightarrow> (Ok (), set_node ?t (Some (FileN (set_length n d))) s3)) = (Ok (), s')"
    using len unfolding fs_set_len_def by (rule bind_gate_Ok)
  ultimately show ?thesis using t by (auto split: option.splits)
qed

theorem zero_chunk_size_panics_witness:
  "fst (writer_new [] 0 (path_of ''/d/f'') 0 3 demo_dir) = Panic"
proof -
  obtain w s0 where "writer_new [] 0 (path_of ''/d/f'') 2 3 demo_dir = (Ok w, s0)"
    using demo_writer_new by blast
  from zero_chunk_size_panics [OF this] show ?thesis by simp
qed

text \<open>
  Two files of one directory whose names differ in the extension only share the temporary
  file: once the first is finalized the second cannot be, and fails with \<open>NotFound\<close>.
\<close>

theorem same_stem_collides:
  assumes "writer_new t1 i1 p cs1 n1 (r1 :: 'a fs_scheme) = (Ok w1, r1')"
    and "writer_new t2 i2 q cs2 n2 (r2 :: 'a fs_scheme) = (Ok w2, r2')"
    and "parent p = parent q" and "file_stem p = file_stem q" and "file_stem p \<noteq> None"
    and "healthy s" and "nodes s (uuid_name u1 p) = None"
    and "content s (cw_temp_path w1) = Some d" and "finalize u1 w1 s = (Ok (), s1)"
  shows "cw_temp_path w1 = cw_temp_path w2
    \<and> fst (finalize u2 w2 s1) = Err (StorageIo q NotFound)"
proof -
  have w: "cw_temp_path w1 = with_extension p ''justdrop_partial''" "cw_dest_path w1 = p"
    "cw_temp_path w2 = with_extension q ''justdrop_partial''" "cw_dest_path w2 = q"
    using assms(1,2) by (auto simp: writer_new_def Let_def bind_io_Ok_iff return_io_def)
  have t: "cw_temp_path w1 = cw_temp_path w2"
    using assms(3-5) unfolding w
    by (auto simp: with_extension_def file_stem_def file_name_def parent_def with_name_def split: if_splits)
  obtain q' where "nodes s q' = None" "nodes s1 = (nodes s)(cw_temp_path w1 := None, q' \<mapsto> FileN d)"
    using finalize_step [OF assms(6) _ assms(8,9)] assms(7) w(2) by auto
  then have gone: "nodes s1 (cw_temp_path w2) = None" using t assms(8) by (auto simp: content_Some)
  have "healthy s1" using finalize_healthy [OF assms(6), of u1 w1] assms(9) by simp
  moreover obtain dest s2 where d: "unique_path u2 q s1 = (dest, s2)" by fastforce
  ultimately have "same_env s1 s2" using unique_path_healthy(1) by blast
  then have "healthy s2" "nodes s2 (cw_temp_path w2) = None"
    using gone \<open>healthy s1\<close> by (simp_all add: same_envD)
  then have "fst (fs_rename (cw_temp_path w2) dest s2) = Err NotFound"
    by (simp add: fs_rename_def bind_io_def fs_simps)
  then show ?thesis using t d w(4)
    by (cases "fs_rename (cw_temp_path w2) dest s2") (simp add: finalize_def io_at_def map_err_io_def)
qed

theorem same_stem_collides_witness:
  "\<exists>w1 w2 s1. finalize ''u'' w1 demo_dir = (Ok (), s1) \<and> cw_dest_path w1 = path_of ''/d/f.txt''
     \<and> fst (finalize ''v'' w2 s1) = Err (StorageIo (path_of ''/d/f.pdf'') NotFound)"
proof -
  have h: "healthy demo_dir" by (simp add: demo_dir_def healthy_def)
  have new: "\<exists>w s0. writer_new [] 0 (path_of f) 4 4 demo_dir = (Ok w, s0)
      \<and> cw_temp_path w = path_of ''/d/f.justdrop_partial'' \<and> cw_dest_path w = path_of f"
    if "f = ''/d/f.txt'' \<or> f = ''/d/f.pdf''" for f
    using that
    by (auto simp: writer_new_def demo_dir_def path_eval fs_eval div_ceil_def Let_def)
  obtain w1 w2 r1 r2 where w: "writer_new [] 0 (path_of ''/d/f.txt'') 4 4 demo_dir = (Ok w1, r1)"
      "writer_new [] 0 (path_of ''/d/f.pdf'') 4 4 demo_dir = (Ok w2, r2)"
    and t: "cw_temp_path w1 = path_of ''/d/f.justdrop_partial''" "cw_dest_path w1 = path_of ''/d/f.txt''"
    using new [of "''/d/f.txt''"] new [of "''/d/f.pdf''"] by auto
  have c: "content demo_dir (cw_temp_path w1) = Some [9, 9, 9, 9]"
    by (simp add: t content_Some demo_dir_def path_eval)
  have u: "nodes demo_dir (uuid_name ''u'' (path_of ''/d/f.txt'')) = None"
    by (simp add: demo_dir_def name_eval path_eval)
  have "\<exists>s1. finalize ''u'' w1 demo_dir = (Ok (), s1)"
    using h unfolding finalize_def t
    by (simp add: unique_path_def exists_or_false_healthy path_eval demo_dir_def fs_rename_def
        io_at_def bind_io_def map_err_io_def fs_simps fs_gate_def parent_ok_def is_dir_def)
  then obtain s1 where f: "finalize ''u'' w1 demo_dir = (Ok (), s1)" ..
  have e: "parent (path_of ''/d/f.txt'') = parent (path_of ''/d/f.pdf'')"
    "file_stem (path_of ''/d/f.txt'') = file_stem (path_of ''/d/f.pdf'')"
    "file_stem (path_of ''/d/f.txt'') \<noteq> None"
    by (simp_all add: path_eval)
  show ?thesis using same_stem_collides [OF w e h u c f] f t by blast
qed

section \<open>Runs without failures\<close>

definition fs_step :: "nat \<Rightarrow> (path \<Rightarrow> node option) \<Rightarrow> 'a fs_scheme \<Rightarrow> 'a fs_scheme" where
  "fs_step k N s = s\<lparr>nodes := N, ticks := ticks s + k\<rparr>"

lemma fs_step_fields [simp]:
  "nodes (fs_step k N s) = N" "fault (fs_step k N s) = fault s" "healthy (fs_step k N s) = healthy s"
  by (simp_all add: fs_step_def healthy_def)

lemma write_chunk_run:
  assumes "healthy s" and "writer_ok w" and "off < cw_total_chunks w"
    and "content s (cw_temp_path w) = Some d"
  shows "write_chunk sha256 w off data s
      = (Ok (sha256 data, w\<lparr>cw_completed := List.insert off (cw_completed w)\<rparr>),
         fs_step 4 ((nodes s)(cw_temp_path w \<mapsto> FileN (write_at (off * cw_chunk_size w) data d))) s)"
proof -
  have "off * cw_chunk_size w < 2 ^ 64"
    using assms(2,3) nchunks_offset [of "cw_chunk_size w" off "cw_file_size w"]
    by (auto simp: writer_ok_def)
  then have m: "mul64 off (cw_chunk_size w) = off * cw_chunk_size w" by simp
  have n: "nodes s (cw_temp_path w) = Some (FileN d)" using assms(4) by (simp add: content_Some)
  show ?thesis using assms(1,3) n
    by (simp add: write_chunk_def Let_def m bind_io_def io_at_def map_err_io_def return_io_def
        fs_open_def fs_seek_def fs_write_all_def fs_flush_def fs_simps content_def set_node_def fs_step_def
        eval_nat_numeral)
qed

lemma finalize_run:
  assumes "healthy s" and "content s (cw_temp_path w) = Some d" and "nodes s (cw_dest_path w) = None"
    and "parent_ok s (cw_dest_path w)"
  shows "finalize u w s = (Ok (), fs_step 2 ((nodes s)(cw_temp_path w := None, cw_dest_path w \<mapsto> FileN d)) s)"
proof -
  have n: "nodes s (cw_temp_path w) = Some (FileN d)" using assms(2) by (simp add: content_Some)
  then have "cw_temp_path w \<noteq> cw_dest_path w" using assms(3) by auto
  moreover have "parent_ok (s\<lparr>ticks := t\<rparr>) = parent_ok s" for t
    by (auto simp: parent_ok_def is_dir_def fun_eq_iff split: option.split)
  ultimately show ?thesis using assms(1,3,4) n
    by (simp add: finalize_def unique_path_def exists_or_false_healthy fs_rename_def bind_io_def fs_simps
        io_at_def map_err_io_def set_node_def fs_step_def numeral_2_eq_2)
qed

text \<open>The directories above a file exist.\<close>

definition dirs_ok :: "'a fs_scheme \<Rightarrow> path \<Rightarrow> bool" where
  "dirs_ok s d \<longleftrightarrow> comps d \<noteq> [] \<and> (\<forall>k. 0 < k \<and> k \<le> length (comps d) \<longrightarrow>
     nodes s (Path (absolute d) (take k (comps d))) = Some DirN)"

lemma prefix_not_child:
  assumes "parent p = Some dir"
  shows "Path (absolute dir) (take i (comps dir)) \<noteq> p"
proof -
  have "length (comps p) = Suc (length (comps dir))"
    using assms by (cases "comps p" rule: rev_cases) (auto simp: parent_def)
  then show ?thesis by (cases p) (auto dest!: arg_cong [of _ _ length])
qed

lemma dirs_ok_upd:
  assumes "dirs_ok s dir" "parent p = Some dir"
  shows "dirs_ok (fs_step k ((nodes s)(p := n)) s) dir"
  using assms(1) prefix_not_child [OF assms(2)] by (simp add: dirs_ok_def)

lemma dirs_ok_is_dir: "dirs_ok s dir \<Longrightarrow> is_dir s dir"
  by (cases dir) (auto simp: is_dir_def dirs_ok_def dest: spec [of _ "length (comps dir)"])

lemma make_dirs_ok:
  assumes "\<forall>k. 0 < k \<and> k \<le> length cs \<longrightarrow> nodes s (Path a (pre @ take k cs)) = Some DirN"
  shows "make_dirs a pre cs s = (Ok (), s)"
  using assms
proof (induction a pre cs s rule: make_dirs.induct)
  case (2 a pre c cs s)
  have "nodes s (Path a (pre @ [c])) = Some DirN" using "2.prems" [rule_format, of 1] by simp
  moreover have "\<forall>k. 0 < k \<and> k \<le> length cs \<longrightarrow> nodes s (Path a ((pre @ [c]) @ take k cs)) = Some DirN"
    using "2.prems" [rule_format, of "Suc _"] by auto
  ultimately show ?case using "2.IH"(2) by simp
qed simp

lemma create_dir_all_ok:
  assumes "healthy s" "dirs_ok s d"
  shows "fs_create_dir_all d s = (Ok (), s\<lparr>ticks := Suc (ticks s)\<rparr>)"
  using assms make_dirs_ok [of "comps d" "s\<lparr>ticks := Suc (ticks s)\<rparr>" "absolute d" "[]"]
  by (simp add: fs_create_dir_all_def bind_io_def fs_simps dirs_ok_def)

lemma writer_new_run:
  assumes "healthy s" and "dirs_ok s dir" and "parent dest = Some dir" and "0 < cs"
    and t: "t = with_extension dest ''justdrop_partial''" and "nodes s t \<noteq> Some DirN"
  shows "\<exists>w d. writer_new tid i dest cs n s = (Ok w, fs_step 3 ((nodes s)(t \<mapsto> FileN d)) s) \<and> length d = n"
proof -
  have mk: "make_dirs (absolute dir) [] (comps dir) (s\<lparr>ticks := k\<rparr>) = (Ok (), s\<lparr>ticks := k\<rparr>)" for k
    using assms(2) by (intro make_dirs_ok) (simp add: dirs_ok_def)
  have "is_dir s dir"
    using assms(2) by (cases dir) (auto simp: is_dir_def dirs_ok_def dest: spec [of _ "length (comps dir)"])
  moreover have "parent_ok (s\<lparr>ticks := k\<rparr>) = parent_ok s" for k
    by (auto simp: parent_ok_def is_dir_def fun_eq_iff split: option.split)
  moreover have "parent t = Some dir" using assms(3) by (simp add: t parent_with_extension)
  ultimately have p: "parent_ok (s\<lparr>ticks := k\<rparr>) t" for k by (simp add: parent_ok_def)
  show ?thesis
  proof (cases "nodes s t")
    case None
    then show ?thesis using assms(1,3,4) p mk
      by (auto simp: writer_new_def t [symmetric] Let_def bind_io_def io_at_def map_err_io_def lift_io_def
          return_io_def fs_create_dir_all_def fs_open_create_def fs_set_len_def fs_simps content_def set_node_def
          fs_step_def div_ceil_def numeral_3_eq_3 set_length_def intro!: exI [of _ "set_length n []"])
  next
    case (Some nd)
    then obtain old where old: "nodes s t = Some (FileN old)" using assms(6) by (cases nd) auto
    then show ?thesis using assms(1,3,4) p mk
      by (auto simp: writer_new_def t [symmetric] Let_def bind_io_def io_at_def map_err_io_def lift_io_def
          return_io_def fs_create_dir_all_def fs_open_create_def fs_set_len_def fs_simps content_def set_node_def
          fs_step_def div_ceil_def numeral_3_eq_3 set_length_def intro!: exI [of _ "set_length n old"])
  qed
qed

end
