(* ===== verification/Store.thy ===== *)
theory Store
  imports Prelude
begin

text \<open>
  The contract that the persistent stores of the program share: values with a key are put,
  looked up and deleted, and an operation on one key does not disturb another. The resume
  state files (\<open>Resume\<close>) and the tables of the database (\<open>Database\<close>) provide it.
\<close>

locale kv_store =
  fixes inv :: "'s \<Rightarrow> bool"
    and key :: "'v \<Rightarrow> 'k"
    and ok :: "'v \<Rightarrow> bool"
    and valid :: "'k \<Rightarrow> bool"
    and put :: "'v \<Rightarrow> 's \<Rightarrow> 's"
    and get :: "'k \<Rightarrow> 's \<Rightarrow> 'v option"
    and del :: "'k \<Rightarrow> 's \<Rightarrow> 's"
  assumes ok_valid: "ok v \<Longrightarrow> valid (key v)"
    and inv_put: "inv s \<Longrightarrow> ok v \<Longrightarrow> inv (put v s)"
    and inv_del: "inv s \<Longrightarrow> valid k \<Longrightarrow> inv (del k s)"
    and get_put: "inv s \<Longrightarrow> ok v \<Longrightarrow> valid k \<Longrightarrow>
          get k (put v s) = (if k = key v then Some v else get k s)"
    and get_del: "inv s \<Longrightarrow> valid j \<Longrightarrow> valid k \<Longrightarrow>
          get k (del j s) = (if k = j then None else get k s)"
begin

text \<open>A history of puts and deletes, and the finite map it amounts to.\<close>

fun run :: "('v + 'k) list \<Rightarrow> 's \<Rightarrow> 's" where
  "run [] s = s"
| "run (Inl v # ops) s = run ops (put v s)"
| "run (Inr k # ops) s = run ops (del k s)"

fun effect :: "('v + 'k) list \<Rightarrow> ('k \<Rightarrow> 'v option) \<Rightarrow> 'k \<Rightarrow> 'v option" where
  "effect [] m = m"
| "effect (Inl v # ops) m = effect ops (m(key v \<mapsto> v))"
| "effect (Inr k # ops) m = effect ops (m(k := None))"

definition op_valid :: "'v + 'k \<Rightarrow> bool" where
  "op_valid x = (case x of Inl v \<Rightarrow> ok v | Inr k \<Rightarrow> valid k)"

lemma run_inv: "inv s \<Longrightarrow> list_all op_valid ops \<Longrightarrow> inv (run ops s)"
  by (induction ops s rule: run.induct) (auto simp: op_valid_def inv_put inv_del)

lemma effect_cong:
  "valid k \<Longrightarrow> (\<And>j. valid j \<Longrightarrow> m j = m' j) \<Longrightarrow> effect ops m k = effect ops m' k"
proof (induction ops arbitrary: m m')
  case (Cons x ops)
  have step: "effect ops (m(i := v)) k = effect ops (m'(i := v)) k" for i v
    using Cons.prems by (intro Cons.IH) simp_all
  show ?case by (cases x) (simp_all only: effect.simps step)
qed simp

lemma run_effect:
  assumes "inv s" "list_all op_valid ops" "valid k"
  shows "get k (run ops s) = effect ops (\<lambda>j. get j s) k"
  using assms
proof (induction ops s rule: run.induct)
  case (1 s)
  then show ?case by simp
next
  case (2 v ops s)
  then have v: "ok v" by (simp add: op_valid_def)
  have "get k (run ops (put v s)) = effect ops (\<lambda>j. get j (put v s)) k"
    using 2 v by (simp add: inv_put)
  also have "\<dots> = effect ops ((\<lambda>j. get j s)(key v \<mapsto> v)) k"
    using 2(2,4) v by (intro effect_cong) (auto simp: get_put)
  finally show ?case by simp
next
  case (3 j ops s)
  then have v: "valid j" by (simp add: op_valid_def)
  have "get k (run ops (del j s)) = effect ops (\<lambda>i. get i (del j s)) k"
    using 3 v by (simp add: inv_del)
  also have "\<dots> = effect ops ((\<lambda>i. get i s)(j := None)) k"
    using 3(2,4) v by (intro effect_cong) (auto simp: get_del)
  finally show ?case by simp
qed

text \<open>What was put last is what is found, until it is put again or deleted.\<close>

lemma last_put_wins:
  assumes "inv s" "list_all op_valid ops" "ok v"
    and "\<forall>x\<in>set ops. (case x of Inl w \<Rightarrow> key w | Inr j \<Rightarrow> j) \<noteq> key v"
  shows "get (key v) (run ops (put v s)) = Some v"
proof -
  have "effect ops m (key v) = m (key v)" for m
    using assms(4) by (induction ops m rule: effect.induct) auto
  then show ?thesis using run_effect [of "put v s" ops "key v"] assms by (simp add: inv_put get_put ok_valid)
qed

end

end
