(* ===== verification/Resume.thy ===== *)
theory Resume
  imports Core_Types Store
begin

text \<open>
  \<open>crates/justdrop-storage/src/resume.rs\<close>: the state of interrupted transfers, one JSON file per
  transfer in a state directory, and the bitmap of received chunks. The JSON text of a state
  and its parser (\<open>serde_json\<close>) are the parameters \<open>to_json\<close> and \<open>from_json\<close>; a directory is
  enumerated by the parameter \<open>read_dir\<close>, in whatever order the system yields it.
\<close>

record file_resume_state =
  fr_file_index :: u32
  fr_dest_path :: string
  fr_temp_path :: string
  fr_file_size :: u64
  fr_chunk_size :: u32
  fr_completed_chunks :: "u64 list"

record transfer_resume_state =
  tr_transfer_id :: transfer_id
  tr_last_updated :: int
  tr_files :: "file_resume_state list"
  tr_bytes_transferred :: u64
  tr_total_bytes :: u64

record resume_manager =
  rm_state_dir :: path

section \<open>State files\<close>

definition rm_new :: "path \<Rightarrow> resume_manager" where
  "rm_new d = \<lparr>rm_state_dir = d\<rparr>"

definition rm_init :: "resume_manager \<Rightarrow> ('a fs_scheme, unit, storage_error) io" where
  "rm_init m = io_at (rm_state_dir m) (fs_create_dir_all (rm_state_dir m))"

definition state_path :: "resume_manager \<Rightarrow> transfer_id \<Rightarrow> path" where
  "state_path m t = join (rm_state_dir m) (path_of (t @ ''.json''))"

definition rm_save ::
  "(transfer_resume_state \<Rightarrow> (bytes, string) result) \<Rightarrow> resume_manager \<Rightarrow> transfer_resume_state
   \<Rightarrow> ('a fs_scheme, unit, storage_error) io" where
  "rm_save to_json m st =
     (let p = state_path m (tr_transfer_id st)
      in bind_io (lift_io (map_err (\<lambda>e. StorageIo p (OtherIo e)) (to_json st)))
           (\<lambda>c. io_at p (fs_write_file p c)))"

text \<open>\<open>try_exists(path).await.unwrap_or(false)\<close>, as in the writer.\<close>

definition present :: "path \<Rightarrow> ('a fs_scheme, bool, 'e) io" where
  "present p s = (case fs_exists p s of (Ok b, s') \<Rightarrow> (Ok b, s') | (_, s') \<Rightarrow> (Ok False, s'))"

definition rm_load ::
  "(bytes \<Rightarrow> (transfer_resume_state, string) result) \<Rightarrow> resume_manager \<Rightarrow> transfer_id
   \<Rightarrow> ('a fs_scheme, transfer_resume_state option, storage_error) io" where
  "rm_load from_json m t =
     (let p = state_path m t
      in bind_io (present p) (\<lambda>there.
         if \<not> there then return_io None
         else bind_io (io_at p (fs_read_to_string p)) (\<lambda>c.
              bind_io (lift_io (map_err (\<lambda>_. ResumeStateCorrupted t) (from_json c))) (\<lambda>st.
              return_io (Some st)))))"

definition rm_remove :: "resume_manager \<Rightarrow> transfer_id \<Rightarrow> ('a fs_scheme, unit, storage_error) io" where
  "rm_remove m t =
     (let p = state_path m t
      in bind_io (present p) (\<lambda>there.
         if there then io_at p (fs_remove_file p) else return_io ()))"

text \<open>
  \<open>read_dir\<close> gives the outcome of opening the directory and of each \<open>next_entry\<close>; the loop ends at
  the first entry that fails.
\<close>

fun list_entries ::
  "(bytes \<Rightarrow> (transfer_resume_state, string) result) \<Rightarrow> (path, io_error) result list
   \<Rightarrow> 'a fs_scheme \<Rightarrow> transfer_resume_state list \<times> 'a fs_scheme" where
  "list_entries from_json (Ok p # es) s =
     (if extension p = Some ''json''
      then (case fs_read_to_string p s of
              (Ok c, s') \<Rightarrow>
                (case from_json c of
                   Ok st \<Rightarrow> (case list_entries from_json es s' of (sts, s'') \<Rightarrow> (st # sts, s''))
                 | _ \<Rightarrow> list_entries from_json es s')
            | (_, s') \<Rightarrow> list_entries from_json es s')
      else list_entries from_json es s)"
| "list_entries from_json _ s = ([], s)"

definition list_pending ::
  "(bytes \<Rightarrow> (transfer_resume_state, string) result)
   \<Rightarrow> ('a fs_scheme \<Rightarrow> path \<Rightarrow> ((path, io_error) result list, io_error) result)
   \<Rightarrow> resume_manager \<Rightarrow> ('a fs_scheme, transfer_resume_state list, storage_error) io" where
  "list_pending from_json read_dir m s =
     (case read_dir s (rm_state_dir m) of
        Ok es \<Rightarrow> (case list_entries from_json es s of (sts, s') \<Rightarrow> (Ok sts, s'))
      | Err e \<Rightarrow> (Err (StorageIo (rm_state_dir m) e), s)
      | Panic \<Rightarrow> (Panic, s))"

section \<open>The bitmap of received chunks\<close>

definition bit_of :: "u64 \<Rightarrow> byte" where
  "bit_of chunk = push_bit (chunk mod 8) 1"

definition set_chunk :: "u64 \<Rightarrow> bytes \<Rightarrow> bytes" where
  "set_chunk chunk bitmap =
     (let byte_idx = chunk div 8
      in if byte_idx < length bitmap
         then bitmap[byte_idx := (bitmap ! byte_idx) OR bit_of chunk] else bitmap)"

definition encode_received_bitmap :: "u64 list \<Rightarrow> u64 \<Rightarrow> bytes" where
  "encode_received_bitmap completed n =
     fold set_chunk completed (replicate (ceil_div n 8) 0)"

definition decode_received_bitmap :: "bytes \<Rightarrow> u64 \<Rightarrow> u64 list" where
  "decode_received_bitmap bitmap n =
     filter (\<lambda>chunk. chunk div 8 < length bitmap \<and> (bitmap ! (chunk div 8)) AND bit_of chunk \<noteq> 0)
       [0..<n]"

lemma length_set_chunk [simp]: "length (set_chunk c bm) = length bm"
  by (simp add: set_chunk_def Let_def)

lemma length_fold_set_chunk [simp]: "length (fold set_chunk cs bm) = length bm"
  by (induction cs arbitrary: bm) simp_all

definition has_chunk :: "bytes \<Rightarrow> u64 \<Rightarrow> bool" where
  "has_chunk bm c \<longleftrightarrow> (bm ! (c div 8)) AND bit_of c \<noteq> 0"

lemma bit_bit_of: "bit (bit_of c) k \<longleftrightarrow> k = c mod 8"
  by (auto simp: bit_of_def push_bit_of_1 bit_exp_iff)

lemma has_chunk_bit: "has_chunk bm c \<longleftrightarrow> bit (bm ! (c div 8)) (c mod 8)"
proof -
  have "(x AND bit_of c \<noteq> 0) = bit x (c mod 8)" for x :: byte
    by (auto simp: bit_eq_iff [of "x AND bit_of c"] bit_and_iff bit_bit_of)
  then show ?thesis by (simp add: has_chunk_def)
qed

lemma has_set_chunk:
  assumes "c div 8 < length bm"
  shows "has_chunk (set_chunk x bm) c \<longleftrightarrow> has_chunk bm c \<or> x = c"
proof -
  have "c = x" if "c div 8 = x div 8" "c mod 8 = x mod 8" using that by (metis div_mult_mod_eq)
  then show ?thesis using assms
    by (auto simp: has_chunk_bit set_chunk_def Let_def nth_list_update bit_or_iff bit_bit_of)
qed

lemma has_fold_set_chunk:
  "c div 8 < length bm \<Longrightarrow> has_chunk (fold set_chunk cs bm) c \<longleftrightarrow> has_chunk bm c \<or> c \<in> set cs"
  by (induction cs arbitrary: bm) (auto simp: has_set_chunk)

lemma decode_encode_bitmap:
  "decode_received_bitmap (encode_received_bitmap completed n) n
     = filter (\<lambda>c. c \<in> set completed) [0..<n]
   \<and> length (encode_received_bitmap completed n) = ceil_div n 8"
proof -
  let ?z = "replicate (ceil_div n 8) (0 :: byte)"
  have idx: "c div 8 < ceil_div n 8" if "c < n" for c
  proof -
    have "n \<le> ceil_div n 8 * 8" by (rule ceil_div_bounds) simp
    then show ?thesis using that by (simp add: div_less_iff_less_mult)
  qed
  have "has_chunk (fold set_chunk completed ?z) c \<longleftrightarrow> c \<in> set completed" if "c < n" for c
    using idx [OF that] by (simp add: has_fold_set_chunk) (simp add: has_chunk_bit)
  with idx show ?thesis
    unfolding decode_received_bitmap_def encode_received_bitmap_def has_chunk_def [symmetric]
    by (intro conjI filter_cong) simp_all
qed

lemma decode_encoded_bitmap:
  "set (decode_received_bitmap (encode_received_bitmap completed n) n) = {c\<in>set completed. c < n}"
  using decode_encode_bitmap [of completed n] by auto

text \<open>
  The bitmap carries the completed chunks exactly: decoding what was encoded gives, in
  ascending order, the completed offsets below the chunk count, whatever the iteration order
  of the set; the bitmap has one bit per chunk, rounded up to bytes.
\<close>

theorem bitmap_roundtrip:
  "decode_received_bitmap (encode_received_bitmap completed n) n
     = filter (\<lambda>c. c \<in> set completed) [0..<n]
   \<and> length (encode_received_bitmap completed n) = ceil_div n 8"
  by (rule decode_encode_bitmap)

text \<open>
  A bitmap from the peer can name no chunk outside the transfer, whatever its length and
  content, and a chunk it names has its bit set.
\<close>

theorem decode_bitmap_bounded:
  "set (decode_received_bitmap bitmap n)
     = {c. c < n \<and> c div 8 < length bitmap \<and> bit (bitmap ! (c div 8)) (c mod 8)}
   \<and> distinct (decode_received_bitmap bitmap n)"
  using has_chunk_bit [of bitmap] by (auto simp: decode_received_bitmap_def has_chunk_def)

section \<open>The state directory as a store\<close>

text \<open>Transfer identifiers are UUID texts: they hold no separator.\<close>

definition valid_id :: "transfer_id \<Rightarrow> bool" where
  "valid_id t \<longleftrightarrow> CHR ''/'' \<notin> set t"

definition json_ok ::
  "(transfer_resume_state \<Rightarrow> (bytes, string) result) \<Rightarrow> (bytes \<Rightarrow> (transfer_resume_state, string) result)
   \<Rightarrow> transfer_resume_state \<Rightarrow> bool" where
  "json_ok to_json from_json st \<longleftrightarrow>
     (\<exists>c. to_json st = Ok c \<and> utf8_valid c \<and> from_json c = Ok st)"

definition savable ::
  "(transfer_resume_state \<Rightarrow> (bytes, string) result) \<Rightarrow> (bytes \<Rightarrow> (transfer_resume_state, string) result)
   \<Rightarrow> transfer_resume_state \<Rightarrow> bool" where
  "savable to_json from_json st \<longleftrightarrow> valid_id (tr_transfer_id st) \<and> json_ok to_json from_json st"

definition store_ready :: "resume_manager \<Rightarrow> 'a fs_scheme \<Rightarrow> bool" where
  "store_ready m s \<longleftrightarrow> healthy s \<and> is_dir s (rm_state_dir m)
     \<and> (\<forall>t. valid_id t \<longrightarrow> nodes s (state_path m t) \<noteq> Some DirN)"

lemma state_path_eq:
  "valid_id t \<Longrightarrow> state_path m t = Path (absolute (rm_state_dir m)) (comps (rm_state_dir m) @ [t @ ''.json''])"
  by (simp add: state_path_def join_plain plain_name_def valid_id_def)

lemma state_path_inj: "valid_id t \<Longrightarrow> valid_id u \<Longrightarrow> state_path m t = state_path m u \<longleftrightarrow> t = u"
  by (auto simp: state_path_eq)

lemma state_path_parent: "valid_id t \<Longrightarrow> parent (state_path m t) = Some (rm_state_dir m)"
  by (simp add: state_path_eq parent_def)

lemma state_path_not_dir: "valid_id t \<Longrightarrow> state_path m t \<noteq> rm_state_dir m"
  by (cases "rm_state_dir m") (auto simp: state_path_eq)

lemma present_healthy:
  "healthy s \<Longrightarrow> present p s = (Ok (nodes s p \<noteq> None), s\<lparr>ticks := Suc (ticks s)\<rparr>)"
  by (simp add: present_def fs_exists_def bind_io_def fs_simps)

lemma rm_save_ready:
  assumes "store_ready m s" "valid_id (tr_transfer_id st)" "to_json st = Ok c"
  shows "\<exists>s'. rm_save to_json m st s = (Ok (), s') \<and> healthy s'
     \<and> nodes s' = (nodes s)(state_path m (tr_transfer_id st) \<mapsto> FileN c)"
proof -
  let ?p = "state_path m (tr_transfer_id st)"
  have h: "healthy s" using assms(1) by (simp add: store_ready_def)
  have "parent_ok s ?p" using assms by (simp add: parent_ok_def state_path_parent store_ready_def)
  moreover obtain s1 where s1: "same_env s s1" and "fs_write_file ?p c s
      = (case nodes s1 ?p of Some DirN \<Rightarrow> (Err IsADirectory, s1)
         | Some (FileN _) \<Rightarrow> (Ok (), set_node ?p (Some (FileN c)) s1)
         | None \<Rightarrow> if parent_ok s1 ?p then (Ok (), set_node ?p (Some (FileN c)) s1)
                   else (Err NotFound, s1))"
    unfolding fs_write_file_def by (rule bind_gate_healthy [OF h])
  moreover have "nodes s ?p \<noteq> Some DirN" using assms by (simp add: store_ready_def)
  ultimately have "fs_write_file ?p c s = (Ok (), set_node ?p (Some (FileN c)) s1)"
    by (auto simp: same_envD split: option.splits node.splits)
  then show ?thesis
    using assms(1,3) s1
    by (simp add: rm_save_def Let_def bind_io_def lift_io_def io_at_def map_err_io_def same_envD
        store_ready_def)
qed

lemma rm_remove_ready:
  assumes "store_ready m s" "valid_id t"
  shows "\<exists>s'. rm_remove m t s = (Ok (), s') \<and> healthy s' \<and> nodes s' = (nodes s)(state_path m t := None)"
proof (cases "nodes s (state_path m t)")
  case None
  then show ?thesis using assms
    by (auto simp: rm_remove_def Let_def bind_io_def present_healthy store_ready_def return_io_def)
next
  case (Some n)
  then obtain d where "nodes s (state_path m t) = Some (FileN d)"
    using assms by (cases n) (auto simp: store_ready_def)
  then show ?thesis using assms
    by (auto simp: rm_remove_def Let_def bind_io_def present_healthy store_ready_def io_at_def
        map_err_io_def fs_remove_file_def fs_simps content_def)
qed

definition stored ::
  "(bytes \<Rightarrow> (transfer_resume_state, string) result) \<Rightarrow> resume_manager \<Rightarrow> transfer_id \<Rightarrow> 'a fs_scheme
   \<Rightarrow> transfer_resume_state option" where
  "stored from_json m t s = (case fst (rm_load from_json m t s) of Ok r \<Rightarrow> r | _ \<Rightarrow> None)"

lemma rm_load_ready:
  assumes "store_ready m s" "valid_id t"
  shows "fst (rm_load from_json m t s) = (case nodes s (state_path m t) of
      Some (FileN c) \<Rightarrow>
        if utf8_valid c
        then (case from_json c of Ok st \<Rightarrow> Ok (Some st) | Err e \<Rightarrow> Err (ResumeStateCorrupted t) | Panic \<Rightarrow> Panic)
        else Err (StorageIo (state_path m t) (OtherIo ''stream did not contain valid UTF-8''))
    | _ \<Rightarrow> Ok None)"
proof (cases "nodes s (state_path m t)")
  case None
  then show ?thesis using assms
    by (simp add: rm_load_def Let_def bind_io_def present_healthy store_ready_def return_io_def)
next
  case (Some n)
  then obtain d where d: "nodes s (state_path m t) = Some (FileN d)"
    using assms by (cases n) (auto simp: store_ready_def)
  then show ?thesis using assms
    by (auto simp: rm_load_def Let_def bind_io_def present_healthy store_ready_def return_io_def
        io_at_def map_err_io_def fs_read_to_string_def fs_read_file_def fs_simps content_def
        lift_io_def split: result.split)
qed

lemma store_ready_set:
  assumes "store_ready m s" "valid_id t" "healthy s'" "nodes s' = (nodes s)(state_path m t := n)"
    and "n \<noteq> Some DirN"
  shows "store_ready m s'"
  using assms state_path_not_dir [OF assms(2), of m] by (auto simp: store_ready_def is_dir_def)

interpretation resume_store: kv_store
  "store_ready m :: 'a fs_scheme \<Rightarrow> bool" tr_transfer_id "savable to_json from_json" valid_id
  "\<lambda>st s. snd (rm_save to_json m st s)" "stored from_json m" "\<lambda>t s. snd (rm_remove m t s)"
  for to_json from_json m
proof unfold_locales
  fix s :: "'a fs_scheme" and v :: transfer_resume_state and j k :: transfer_id
  show "savable to_json from_json v \<Longrightarrow> valid_id (tr_transfer_id v)"
    by (simp add: savable_def)
  assume inv: "store_ready m s"
  {
    assume ok: "savable to_json from_json v"
    then obtain c where v: "valid_id (tr_transfer_id v)"
      and c: "to_json v = Ok c" "utf8_valid c" "from_json c = Ok v"
      by (auto simp: json_ok_def savable_def)
    obtain s' where s': "rm_save to_json m v s = (Ok (), s')" "healthy s'"
      "nodes s' = (nodes s)(state_path m (tr_transfer_id v) \<mapsto> FileN c)"
      using rm_save_ready [where to_json = to_json, OF inv v c(1)] by blast
    have r: "store_ready m s'" by (rule store_ready_set [OF inv v s'(2,3)]) simp
    then show "store_ready m (snd (rm_save to_json m v s))" using s'(1) by simp
    assume "valid_id k"
    then show "stored from_json m k (snd (rm_save to_json m v s))
        = (if k = tr_transfer_id v then Some v else stored from_json m k s)"
      using s' r inv v c by (simp add: stored_def rm_load_ready state_path_inj)
  next
    assume j: "valid_id j"
    obtain s' where s': "rm_remove m j s = (Ok (), s')" "healthy s'"
      "nodes s' = (nodes s)(state_path m j := None)"
      using rm_remove_ready [OF inv j] by blast
    have r: "store_ready m s'" by (rule store_ready_set [OF inv j s'(2,3)]) simp
    then show "store_ready m (snd (rm_remove m j s))" using s'(1) by simp
    assume "valid_id k"
    then show "stored from_json m k (snd (rm_remove m j s)) = (if k = j then None else stored from_json m k s)"
      using s' r inv j by (simp add: stored_def rm_load_ready state_path_inj)
  }
qed

text \<open>A history of saves and removals on the state directory.\<close>

fun rm_history ::
  "(transfer_resume_state \<Rightarrow> (bytes, string) result) \<Rightarrow> resume_manager
   \<Rightarrow> (transfer_resume_state + transfer_id) list \<Rightarrow> 'a fs_scheme \<Rightarrow> 'a fs_scheme" where
  "rm_history to_json m [] s = s"
| "rm_history to_json m (Inl st # ops) s = rm_history to_json m ops (snd (rm_save to_json m st s))"
| "rm_history to_json m (Inr t # ops) s = rm_history to_json m ops (snd (rm_remove m t s))"

definition touched :: "transfer_resume_state + transfer_id \<Rightarrow> transfer_id" where
  "touched x = (case x of Inl st \<Rightarrow> tr_transfer_id st | Inr t \<Rightarrow> t)"

lemma rm_history_run: "rm_history to_json m ops s = resume_store.run to_json m ops s"
  by (induction to_json m ops s rule: rm_history.induct) simp_all

text \<open>
  C16. A saved resume state is found again: on a healthy file system, \<open>load\<close> after a \<open>save\<close>
  returns exactly the saved state, however many other transfers are saved and removed in
  between, provided the JSON library reads back what it writes.
\<close>

theorem resume_survives_other_transfers:
  assumes "store_ready m s" and "savable to_json from_json st"
    and "\<forall>x\<in>set ops. (case x of Inl st' \<Rightarrow> savable to_json from_json st' | Inr t \<Rightarrow> valid_id t)
           \<and> touched x \<noteq> tr_transfer_id st"
  shows "fst (rm_load from_json m (tr_transfer_id st)
           (rm_history to_json m ops (snd (rm_save to_json m st s)))) = Ok (Some st)"
proof -
  have "list_all (resume_store.op_valid to_json from_json) ops"
    using assms(3) by (simp add: list_all_iff resume_store.op_valid_def)
  from resume_store.last_put_wins [OF assms(1) this assms(2)] assms(3)
  have "stored from_json m (tr_transfer_id st)
      (rm_history to_json m ops (snd (rm_save to_json m st s))) = Some st"
    by (simp add: rm_history_run touched_def)
  then show ?thesis by (auto simp: stored_def split: result.splits)
qed

definition demo_manager :: resume_manager where
  "demo_manager = rm_new (path_of ''/r'')"

definition demo_state :: transfer_resume_state where
  "demo_state = \<lparr>tr_transfer_id = ''a'', tr_last_updated = 0, tr_files = [],
                 tr_bytes_transferred = 1, tr_total_bytes = 2\<rparr>"

definition demo_store :: fs where
  "demo_store = \<lparr>nodes = [path_of ''/r'' \<mapsto> DirN, path_of ''/r/x.json'' \<mapsto> FileN [0xFF]],
                 fault = (\<lambda>_ _ _. None), cap = (\<lambda>_. 1), ticks = 0\<rparr>"

lemma demo_store_ready: "store_ready demo_manager demo_store"
  by (auto simp: store_ready_def demo_store_def demo_manager_def rm_new_def healthy_def is_dir_def
      state_path_eq path_of_def proper_comps_def Let_def)

definition demo_to_json :: "transfer_resume_state \<Rightarrow> (bytes, string) result" where
  "demo_to_json st = Ok [if st = demo_state then 0x61 else 0x62]"

definition demo_from_json :: "bytes \<Rightarrow> (transfer_resume_state, string) result" where
  "demo_from_json c = (if c = [0x61] then Ok demo_state
     else if c = [0x62] then Ok (demo_state\<lparr>tr_transfer_id := ''b''\<rparr>) else Err ''expected value'')"

theorem resume_survives_other_transfers_witness:
  "fst (rm_load demo_from_json demo_manager ''a'' (rm_history demo_to_json demo_manager
     [Inl (demo_state\<lparr>tr_transfer_id := ''b''\<rparr>), Inr ''c'']
     (snd (rm_save demo_to_json demo_manager demo_state demo_store)))) = Ok (Some demo_state)"
proof -
  let ?b = "demo_state\<lparr>tr_transfer_id := ''b''\<rparr>"
  have ok: "savable demo_to_json demo_from_json demo_state" "savable demo_to_json demo_from_json ?b"
    by (simp_all add: savable_def json_ok_def demo_to_json_def demo_from_json_def demo_state_def
        valid_id_def utf8_valid.simps)
  show ?thesis
    using resume_survives_other_transfers [OF demo_store_ready ok(1), of "[Inl ?b, Inr ''c'']"] ok(2)
    by (simp add: demo_state_def valid_id_def touched_def)
qed

text \<open>
  One damaged file does not hide the others: \<open>list_pending\<close> succeeds whenever the directory can
  be read, and returns, in the order of the directory, the state of every \<open>.json\<close> entry that
  parses, skipping the unreadable and corrupt ones.
\<close>

theorem list_pending_skips_corrupt:
  assumes "healthy s" and "read_dir s (rm_state_dir m) = Ok (map Ok ps)"
  shows "fst (list_pending from_json read_dir m s) = Ok (List.map_filter
     (\<lambda>p. if extension p = Some ''json''
           then Option.bind (content s p) (\<lambda>c. if utf8_valid c then res_ok (from_json c) else None)
           else None) ps)"
proof -
  have read: "fs_read_to_string p s = (case content s p of None \<Rightarrow> (Err NotFound, s\<lparr>ticks := Suc (ticks s)\<rparr>)
      | Some d \<Rightarrow> if utf8_valid d then (Ok d, s\<lparr>ticks := Suc (ticks s)\<rparr>)
         else (Err (OtherIo ''stream did not contain valid UTF-8''), s\<lparr>ticks := Suc (ticks s)\<rparr>))"
    if "healthy s" for p and s :: "'a fs_scheme"
    using that by (simp add: fs_read_to_string_def fs_read_file_def bind_io_def fs_simps split: option.split)
  have "fst (list_entries from_json (map Ok ps) s) = List.map_filter
     (\<lambda>p. if extension p = Some ''json''
           then Option.bind (content s p) (\<lambda>c. if utf8_valid c then res_ok (from_json c) else None)
           else None) ps"
    using assms(1)
  proof (induction ps arbitrary: s)
    case (Cons p ps)
    from Cons.IH [of s] Cons.IH [of "s\<lparr>ticks := Suc (ticks s)\<rparr>", unfolded content_set_node] Cons.prems show ?case
      by (auto simp: read map_filter_simps split: option.splits result.splits prod.splits)
  qed (simp add: map_filter_simps)
  then show ?thesis using assms(2) by (cases "list_entries from_json (map Ok ps) s") (simp add: list_pending_def)
qed

theorem list_pending_skips_corrupt_witness:
  "fst (list_pending demo_from_json (\<lambda>_ _. Ok (map Ok [path_of ''/r/x.json'', path_of ''/r/a.json'', path_of ''/r/n.txt'']))
     demo_manager (snd (rm_save demo_to_json demo_manager demo_state demo_store))) = Ok [demo_state]"
proof -
  let ?ps = "[path_of ''/r/x.json'', path_of ''/r/a.json'', path_of ''/r/n.txt'']"
  let ?s = "snd (rm_save demo_to_json demo_manager demo_state demo_store)"
  have ok: "valid_id (tr_transfer_id demo_state)" "demo_to_json demo_state = Ok [0x61]"
    by (simp_all add: demo_to_json_def demo_state_def valid_id_def)
  obtain s' where s': "rm_save demo_to_json demo_manager demo_state demo_store = (Ok (), s')" "healthy s'"
    "nodes s' = (nodes demo_store)(state_path demo_manager (tr_transfer_id demo_state) \<mapsto> FileN [0x61])"
    using rm_save_ready [where to_json = demo_to_json, OF demo_store_ready ok] by blast
  have "content ?s (path_of ''/r/x.json'') = Some [0xFF]" "content ?s (path_of ''/r/a.json'') = Some [0x61]"
    "extension (path_of ''/r/n.txt'') = Some ''txt''" "extension (path_of ''/r/a.json'') = Some ''json''"
    using s' ok(1) by (simp_all add: content_Some demo_store_def state_path_eq demo_state_def demo_manager_def
        rm_new_def path_of_def proper_comps_def Let_def extension_def split_name_def file_name_def)
  then show ?thesis
    using list_pending_skips_corrupt [of ?s "\<lambda>_ _. Ok (map Ok ?ps)" demo_manager ?ps demo_from_json] s'
    by (simp add: map_filter_simps utf8_valid.simps demo_from_json_def cont_def)
qed

end
