(* ===== verification/Messages.thy ===== *)
theory Messages
  imports Core_Types
begin

text \<open>
  \<open>crates/justdrop-protocol/src/messages.rs\<close> and \<open>messages_v2.rs\<close>: the two generations of wire
  messages, their tags and their encodings. The serializers (\<open>bincode\<close> and \<open>postcard\<close>) are
  parameters.
\<close>

section \<open>messages.rs\<close>

datatype message =
    TransferRequest transfer_manifest
  | TransferResponse transfer_response
  | ChunkData chunk_id bytes
  | ChunkAck chunk_ack
  | TransferComplete sha256_hash
  | TransferVerified bool "string option"
  | Progress u64 u64
  | Cancel string
  | Ping
  | Pong

fun tag :: "message \<Rightarrow> byte" where
  "tag (TransferRequest _) = 0x01"
| "tag (TransferResponse _) = 0x02"
| "tag (ChunkData _ _) = 0x03"
| "tag (ChunkAck _) = 0x04"
| "tag (TransferComplete _) = 0x05"
| "tag (TransferVerified _ _) = 0x06"
| "tag (Progress _ _) = 0x07"
| "tag (Cancel _) = 0x08"
| "tag Ping = 0x09"
| "tag Pong = 0x0A"

definition encode :: "(message \<Rightarrow> (bytes, string) result) \<Rightarrow> message \<Rightarrow> (bytes, string) result" where
  "encode ser m = bind_res (map_err (\<lambda>e. ''serialization failed: '' @ e) (ser m))
     (\<lambda>payload. Ok ([] @ [tag m] @ payload))"

definition decode :: "(bytes \<Rightarrow> (message, string) result) \<Rightarrow> bytes \<Rightarrow> (message, string) result" where
  "decode deser data =
     (if data = [] then Err ''empty message''
      else map_err (\<lambda>e. ''deserialization failed: '' @ e) (deser data))"

fun is_data :: "message \<Rightarrow> bool" where
  "is_data (ChunkData _ _) = True"
| "is_data _ = False"

fun data_size :: "message \<Rightarrow> usize" where
  "data_size (ChunkData _ d) = length d"
| "data_size _ = 0"

section \<open>messages\_v2.rs\<close>

definition PROTOCOL_VERSION_V2 :: byte where
  "PROTOCOL_VERSION_V2 = 2"

datatype presence = Idle | Available | ReceivingNow | Busy | Invisible

fun presence_code :: "presence \<Rightarrow> byte" where
  "presence_code Idle = 0"
| "presence_code Available = 1"
| "presence_code ReceivingNow = 2"
| "presence_code Busy = 3"
| "presence_code Invisible = 4"

datatype message_v2 =
    HandshakeV2 byte bytes string
  | ManifestV2 transfer_manifest
  | AcceptV2
  | RejectV2 string
  | ChunkV2 chunk_id bool bytes
  | AckV2 chunk_ack
  | ResumeV2 string bytes
  | CancelV2 string
  | PresenceUpdate presence
  | CompleteV2 bytes
  | VerifiedV2 bool "string option"
  | PingV2
  | PongV2

fun tag_v2 :: "message_v2 \<Rightarrow> byte" where
  "tag_v2 (HandshakeV2 _ _ _) = 0x01"
| "tag_v2 (ManifestV2 _) = 0x02"
| "tag_v2 AcceptV2 = 0x03"
| "tag_v2 (RejectV2 _) = 0x04"
| "tag_v2 (ChunkV2 _ _ _) = 0x05"
| "tag_v2 (AckV2 _) = 0x06"
| "tag_v2 (ResumeV2 _ _) = 0x07"
| "tag_v2 (CancelV2 _) = 0x08"
| "tag_v2 (PresenceUpdate _) = 0x09"
| "tag_v2 (CompleteV2 _) = 0x0A"
| "tag_v2 (VerifiedV2 _ _) = 0x0B"
| "tag_v2 PingV2 = 0x0C"
| "tag_v2 PongV2 = 0x0D"

datatype encode_error_v2 = ProtocolEncodeError string
datatype decode_error_v2 = ProtocolDecodeError string

definition encode_v2 ::
  "(message_v2 \<Rightarrow> (bytes, string) result) \<Rightarrow> message_v2 \<Rightarrow> (bytes, encode_error_v2) result" where
  "encode_v2 to_allocvec m =
     bind_res (map_err (\<lambda>e. ProtocolEncodeError (''postcard encode: '' @ e)) (to_allocvec m))
       (\<lambda>payload. Ok ([] @ [tag_v2 m] @ payload))"

definition decode_v2 ::
  "(bytes \<Rightarrow> (message_v2, string) result) \<Rightarrow> bytes \<Rightarrow> (message_v2, decode_error_v2) result" where
  "decode_v2 from_bytes data =
     (if data = [] then Err (ProtocolDecodeError ''empty message'')
      else map_err (\<lambda>e. ProtocolDecodeError (''postcard decode: '' @ e)) (from_bytes (drop 1 data)))"

fun is_data_v2 :: "message_v2 \<Rightarrow> bool" where
  "is_data_v2 (ChunkV2 _ _ _) = True"
| "is_data_v2 _ = False"

fun data_size_v2 :: "message_v2 \<Rightarrow> usize" where
  "data_size_v2 (ChunkV2 _ _ d) = length d"
| "data_size_v2 _ = 0"

section \<open>Properties\<close>

text \<open>
  A version 2 message survives the wire: whatever \<open>encode\<close> produces starts with the tag of the
  message and \<open>decode\<close> gives the message back, provided \<open>postcard\<close> reads what it writes.
\<close>

theorem v2_roundtrip:
  assumes "\<And>m bs. to_allocvec m = Ok bs \<Longrightarrow> from_bytes bs = Ok m" and "encode_v2 to_allocvec m = Ok wire"
  shows "decode_v2 from_bytes wire = Ok m \<and> hd wire = tag_v2 m"
proof -
  obtain payload where "to_allocvec m = Ok payload" "wire = tag_v2 m # payload"
    using assms(2) by (auto simp: encode_v2_def bind_res_Ok_iff)
  then show ?thesis using assms(1) by (simp add: decode_v2_def)
qed

text \<open>A toy serializer for the witnesses: it handles the keepalives only.\<close>

definition demo_ser :: "message_v2 \<Rightarrow> (bytes, string) result" where
  "demo_ser m = (if m = PingV2 then Ok [11] else if m = PongV2 then Ok [12] else Err ''unsupported'')"

definition demo_deser :: "bytes \<Rightarrow> (message_v2, string) result" where
  "demo_deser bs = (if bs = [11] then Ok PingV2 else if bs = [12] then Ok PongV2 else Err ''unsupported'')"

theorem v2_roundtrip_witness:
  "encode_v2 demo_ser PongV2 = Ok [0x0D, 12] \<and> decode_v2 demo_deser [0x0D, 12] = Ok PongV2"
proof -
  have "demo_deser bs = Ok m" if "demo_ser m = Ok bs" for m bs
    using that by (auto simp: demo_ser_def demo_deser_def split: if_splits)
  moreover have e: "encode_v2 demo_ser PongV2 = Ok [0x0D, 12]"
    by (simp add: encode_v2_def demo_ser_def)
  ultimately show ?thesis using v2_roundtrip [of demo_ser demo_deser PongV2] by blast
qed

text \<open>
  Bincode writes an enum as the index of its variant, in declaration order, as four bytes in
  little-endian order, followed by the fields.
\<close>

fun variant_index :: "message \<Rightarrow> nat" where
  "variant_index (TransferRequest _) = 0"
| "variant_index (TransferResponse _) = 1"
| "variant_index (ChunkData _ _) = 2"
| "variant_index (ChunkAck _) = 3"
| "variant_index (TransferComplete _) = 4"
| "variant_index (TransferVerified _ _) = 5"
| "variant_index (Progress _ _) = 6"
| "variant_index (Cancel _) = 7"
| "variant_index Ping = 8"
| "variant_index Pong = 9"

definition bincode_enum ::
  "(message \<Rightarrow> (bytes, string) result) \<Rightarrow> (bytes \<Rightarrow> (message, string) result) \<Rightarrow> bool" where
  "bincode_enum ser deser \<longleftrightarrow>
     (\<forall>m bs. ser m = Ok bs \<longrightarrow> take 4 bs = le_bytes 4 (variant_index m)) \<and>
     (\<forall>m bs. deser bs = Ok m \<longrightarrow> take 4 bs = le_bytes 4 (variant_index m))"

lemma variant_bound: "variant_index m < 10"
  by (cases m) simp_all

text \<open>
  \<open>Message::decode\<close> does not undo \<open>Message::encode\<close>: the tag byte that \<open>encode\<close> puts first is not
  taken off, so the variant index is read one byte off. Every encoded message is refused, except
  that the bytes of a transfer request may be taken for a transfer response.
\<close>

theorem v1_decode_misreads_encode:
  assumes "bincode_enum ser deser" and "encode ser m = Ok wire" and "decode deser wire = Ok m'"
  shows "variant_index m = 0 \<and> variant_index m' = 1"
proof -
  obtain payload where p: "ser m = Ok payload" and w: "wire = tag m # payload"
    using assms(2) by (auto simp: encode_def bind_res_Ok_iff)
  have "deser wire = Ok m'" using assms(3) w by (simp add: decode_def)
  then have "take 4 wire = le_bytes 4 (variant_index m')" "take 4 payload = le_bytes 4 (variant_index m)"
    using assms(1) p by (auto simp: bincode_enum_def)
  moreover have "take 4 wire = tag m # take 3 (take 4 payload)" using w by (simp add: take_Cons')
  ultimately have "tag m # le_bytes 3 (variant_index m) = le_bytes 4 (variant_index m')"
    by (simp add: take_le_bytes)
  then have "of_le (tag m # le_bytes 3 (variant_index m)) = of_le (le_bytes 4 (variant_index m'))"
    by simp
  then have "unat (tag m) + 256 * variant_index m = variant_index m'"
    using variant_bound [of m] variant_bound [of m'] by (simp add: of_le_le_bytes)
  moreover have "unat (tag m) = variant_index m + 1" by (cases m) simp_all
  ultimately show ?thesis using variant_bound [of m'] by arith
qed

text \<open>A bincode for two messages of the witness, and nothing else.\<close>

definition demo_bincode :: "message \<Rightarrow> (bytes, string) result" where
  "demo_bincode m = (if m = Ping then Ok [8, 0, 0, 0] else Err ''unsupported'')"

definition demo_unbincode :: "bytes \<Rightarrow> (message, string) result" where
  "demo_unbincode bs = (if bs = [8, 0, 0, 0] then Ok Ping else Err ''unsupported'')"

theorem v1_decode_misreads_encode_witness:
  "encode demo_bincode Ping = Ok [9, 8, 0, 0, 0] \<and> (\<forall>m'. decode demo_unbincode [9, 8, 0, 0, 0] \<noteq> Ok m')"
proof -
  have "le_bytes 4 8 = [8, 0, 0, 0]" by code_simp
  then have "bincode_enum demo_bincode demo_unbincode"
    by (auto simp: bincode_enum_def demo_bincode_def demo_unbincode_def split: if_splits)
  moreover have e: "encode demo_bincode Ping = Ok [9, 8, 0, 0, 0]"
    by (simp add: encode_def demo_bincode_def)
  ultimately have "variant_index Ping = 0" if "decode demo_unbincode [9, 8, 0, 0, 0] = Ok m'" for m'
    using v1_decode_misreads_encode that by blast
  with e show ?thesis by auto
qed

end
