(* ===== verification/Config.thy ===== *)
theory Config
  imports Core_Types
begin

text \<open>
  \<open>crates/justdrop-core/src/config.rs\<close>: the configuration records with their defaults, loading
  with fallback, validation, and the resolution of the download directory and the device name.
  The TOML parser, the home directory and the process environment are arguments.
\<close>

record general_config =
  gc_device_name :: string
  gc_download_dir :: string
  gc_log_level :: string

record network_config =
  nc_listen_port :: u16
  nc_connect_timeout_secs :: u64
  nc_send_buffer_size :: usize
  nc_recv_buffer_size :: usize
  nc_tcp_nodelay :: bool

record transfer_config =
  tc_chunk_size :: u32
  tc_large_file_threshold :: u64
  tc_max_concurrent_transfers :: usize
  tc_pipeline_depth :: usize

record security_config =
  sc_encrypt_data :: bool
  sc_auto_accept_known :: bool
  sc_auto_accept_all :: bool

record discovery_config =
  dc_service_type :: string
  dc_announce_interval_secs :: u64
  dc_peer_timeout_secs :: u64

record config =
  cf_general :: general_config
  cf_network :: network_config
  cf_transfer :: transfer_config
  cf_security :: security_config
  cf_discovery :: discovery_config

section \<open>Defaults\<close>

definition default_port :: u16 where "default_port = 42420"

definition default_buffer_size :: usize where "default_buffer_size = 2 * 1024 * 1024"

definition default_chunk_size :: u32 where "default_chunk_size = 256 * 1024"

definition default_large_file_threshold :: u64 where
  "default_large_file_threshold = 1024 * 1024 * 1024"

definition default_general :: general_config where
  "default_general = \<lparr>gc_device_name = [], gc_download_dir = [], gc_log_level = ''info''\<rparr>"

definition default_network :: network_config where
  "default_network =
     \<lparr>nc_listen_port = default_port, nc_connect_timeout_secs = 10,
      nc_send_buffer_size = default_buffer_size, nc_recv_buffer_size = default_buffer_size,
      nc_tcp_nodelay = True\<rparr>"

definition default_transfer :: transfer_config where
  "default_transfer =
     \<lparr>tc_chunk_size = default_chunk_size,
      tc_large_file_threshold = default_large_file_threshold,
      tc_max_concurrent_transfers = 4, tc_pipeline_depth = 8\<rparr>"

definition default_security :: security_config where
  "default_security =
     \<lparr>sc_encrypt_data = True, sc_auto_accept_known = False, sc_auto_accept_all = False\<rparr>"

definition default_discovery :: discovery_config where
  "default_discovery =
     \<lparr>dc_service_type = ''_justdrop._tcp.local.'', dc_announce_interval_secs = 60,
      dc_peer_timeout_secs = 180\<rparr>"

definition default_config :: config where
  "default_config =
     \<lparr>cf_general = default_general, cf_network = default_network,
      cf_transfer = default_transfer, cf_security = default_security,
      cf_discovery = default_discovery\<rparr>"

section \<open>Operations\<close>

definition validate :: "config \<Rightarrow> (unit, config_error) result" where
  "validate c =
     (if nc_listen_port (cf_network c) = 0
      then Err (InvalidValue ''network.listen_port'' ''0'' ''port must be > 0'')
      else if tc_chunk_size (cf_transfer c) < 4096
      then Err (InvalidValue ''transfer.chunk_size'' (show_nat (tc_chunk_size (cf_transfer c)))
                  ''chunk size must be >= 4096 bytes'')
      else if tc_pipeline_depth (cf_transfer c) = 0
      then Err (InvalidValue ''transfer.pipeline_depth'' ''0'' ''pipeline depth must be > 0'')
      else Ok ())"

text \<open>\<open>Path::exists\<close> answers \<open>false\<close> when the metadata call fails.\<close>

definition config_load ::
  "(bytes \<Rightarrow> (config, string) result) \<Rightarrow> path \<Rightarrow> ('a fs_scheme, config, config_error) io" where
  "config_load toml_from_str p s =
     (case fs_exists p s of
        (Ok True, s1) \<Rightarrow>
          (case fs_read_file p s1 of
             (Ok text, s2) \<Rightarrow>
               (bind_res (map_err ConfigParse (toml_from_str text))
                  (\<lambda>c. bind_res (validate c) (\<lambda>_. Ok c)), s2)
           | (_, s2) \<Rightarrow> (Err (ConfigNotFound p), s2))
      | (_, s1) \<Rightarrow> (Ok default_config, s1))"

definition download_dir :: "path option \<Rightarrow> config \<Rightarrow> path" where
  "download_dir home c =
     (if gc_download_dir (cf_general c) = []
      then (case home of
              Some h \<Rightarrow> join h (path_of ''JustDrop'')
            | None \<Rightarrow> path_of ''JustDrop'')
      else path_of (gc_download_dir (cf_general c)))"

definition data_dir :: "path option \<Rightarrow> path" where
  "data_dir base = (case base of Some d \<Rightarrow> join d (path_of ''justdrop'') | None \<Rightarrow> path_of ''.justdrop'')"

definition config_dir :: "path option \<Rightarrow> path" where
  "config_dir base =
     (case base of Some d \<Rightarrow> join d (path_of ''justdrop'') | None \<Rightarrow> path_of ''.justdrop'')"

text \<open>The environment of \<open>hostname()\<close>: the outcome of the command and two variables.\<close>

record host_env =
  he_hostname_cmd :: "(bool \<times> string) option"
  he_HOSTNAME :: "string option"
  he_COMPUTERNAME :: "string option"

definition is_space :: "char \<Rightarrow> bool" where
  "is_space c \<longleftrightarrow> c \<in> set [CHR '' '', CHR 0x09, CHR 0x0A, CHR 0x0B, CHR 0x0C, CHR 0x0D]"

definition trim :: "string \<Rightarrow> string" where
  "trim s = rev (dropWhile is_space (rev (dropWhile is_space s)))"

text \<open>\<open>trim_end_matches\<close> removes the pattern as often as it occurs at the end.\<close>

function trim_end_matches :: "string \<Rightarrow> string \<Rightarrow> string" where
  "trim_end_matches pat s =
     (if pat \<noteq> [] \<and> length pat \<le> length s \<and> drop (length s - length pat) s = pat
      then trim_end_matches pat (take (length s - length pat) s) else s)"
  by pat_completeness auto
termination
  by (relation "measure (\<lambda>(pat, s). length s)") (auto simp: length_greater_0_conv [symmetric] simp del: length_greater_0_conv)

declare trim_end_matches.simps [simp del]

definition hostname :: "host_env \<Rightarrow> string" where
  "hostname e =
     (let fallback = (case he_HOSTNAME e of
                        Some n \<Rightarrow> n
                      | None \<Rightarrow> (case he_COMPUTERNAME e of Some n \<Rightarrow> n | None \<Rightarrow> ''JustDrop-Device''))
      in case he_hostname_cmd e of
           Some (True, out) \<Rightarrow>
             (let name = trim_end_matches ''.local'' (trim out)
              in if name \<noteq> [] then name else fallback)
         | _ \<Rightarrow> fallback)"

definition device_name :: "host_env \<Rightarrow> config \<Rightarrow> string" where
  "device_name e c =
     (if gc_device_name (cf_general c) = [] then hostname e else gc_device_name (cf_general c))"

section \<open>Facts\<close>

lemma validate_Ok_iff:
  "validate c = Ok () \<longleftrightarrow>
     0 < nc_listen_port (cf_network c) \<and> 4096 \<le> tc_chunk_size (cf_transfer c)
     \<and> 0 < tc_pipeline_depth (cf_transfer c)"
  by (auto simp: validate_def)

lemma default_config_valid: "validate default_config = Ok ()"
  by (simp add: validate_Ok_iff default_config_def default_network_def default_transfer_def
      default_port_def default_chunk_size_def)

text \<open>
  Every configuration that \<open>Config::load\<close> returns passes \<open>validate\<close>, whatever the file
  holds and whichever file system call fails; so its chunk size is positive and the chunk
  count of no file panics.
\<close>

theorem loaded_config_never_panics:
  assumes "config_load toml p s = (Ok c, s')"
  shows "validate c = Ok () \<and> chunk_count f (tc_chunk_size (cf_transfer c)) \<noteq> Panic"
proof -
  have "validate c = Ok ()"
    using assms default_config_valid
    by (auto simp: config_load_def bind_res_Ok_iff split: prod.splits result.splits bool.splits)
  then show ?thesis by (simp add: validate_Ok_iff chunk_count_eq)
qed

definition empty_fs :: fs where
  "empty_fs = \<lparr>nodes = (\<lambda>_. None), fault = (\<lambda>_ _ _. None), cap = (\<lambda>_. 1), ticks = 0\<rparr>"

theorem loaded_config_never_panics_witness:
  "fst (config_load (\<lambda>_. Err ''no parser'') (path_of ''/etc/justdrop.toml'') empty_fs) = Ok default_config
   \<and> validate default_config = Ok ()"
proof -
  have "config_load (\<lambda>_. Err ''no parser'') (path_of ''/etc/justdrop.toml'') empty_fs
      = (Ok default_config, empty_fs\<lparr>ticks := 1\<rparr>)"
    by (simp add: config_load_def fs_exists_def bind_io_def fs_gate_def empty_fs_def)
  then show ?thesis
    using loaded_config_never_panics
      [of "\<lambda>_. Err ''no parser''" "path_of ''/etc/justdrop.toml''" empty_fs default_config
        "empty_fs\<lparr>ticks := 1\<rparr>"] by auto
qed

end
