(* ===== verification/Framing.thy ===== *)
theory Framing
  imports Core_Types
begin

text \<open>
  Byte streams and the length-prefixed frames written over them in three places: the raw frames
  of \<open>crates/justdrop-network/src/transport.rs\<close> (\<open>send_raw\<close>, \<open>recv_raw\<close>), the handshake frames of
  \<open>crates/justdrop-protocol/src/transfer.rs\<close> (\<open>write_raw_frame\<close>, \<open>read_raw_frame\<close>) and the QUIC frames of
  \<open>crates/justdrop-transport/src/lib.rs\<close>. What framing promises is the locale \<open>framing\<close>; each of the
  three provides it.
\<close>

section \<open>Sockets\<close>

text \<open>
  The receiving side of a socket is the list of what successive reads find: the bytes of a
  segment, or an error; after the last one the peer has closed. A write may fail after a
  prefix of its bytes.
\<close>

record socket =
  sk_in :: "(bytes + io_error) list"
  sk_out :: bytes
  sk_write_fault :: "nat \<Rightarrow> (nat \<times> io_error) option"
  sk_writes :: nat

definition sock_read :: "(socket, bytes, io_error) io" where
  "sock_read s = (case sk_in s of
       [] \<Rightarrow> (Ok [], s)
     | Inl d # r \<Rightarrow> (Ok d, s\<lparr>sk_in := r\<rparr>)
     | Inr e # r \<Rightarrow> (Err e, s\<lparr>sk_in := r\<rparr>))"

definition sock_write_all :: "bytes \<Rightarrow> (socket, unit, io_error) io" where
  "sock_write_all data s = (case sk_write_fault s (sk_writes s) of
       None \<Rightarrow> (Ok (), s\<lparr>sk_out := sk_out s @ data, sk_writes := Suc (sk_writes s)\<rparr>)
     | Some (k, e) \<Rightarrow> (Err e, s\<lparr>sk_out := sk_out s @ take k data, sk_writes := Suc (sk_writes s)\<rparr>))"

text \<open>\<open>read_exact\<close>: as many reads as it takes; what a segment holds beyond stays in the socket.\<close>

fun take_exact :: "nat \<Rightarrow> bytes \<Rightarrow> (bytes + io_error) list \<Rightarrow> (bytes, io_error) result \<times> (bytes + io_error) list" where
  "take_exact n acc [] = (if n = 0 then Ok acc else Err (OtherIo ''early eof''), [])"
| "take_exact n acc (Inr e # r) = (if n = 0 then (Ok acc, Inr e # r) else (Err e, r))"
| "take_exact n acc (Inl d # r) =
     (if n = 0 then (Ok acc, Inl d # r)
      else if d = [] then (Err (OtherIo ''early eof''), r)
      else if n < length d then (Ok (acc @ take n d), Inl (drop n d) # r)
      else take_exact (n - length d) (acc @ d) r)"

definition sock_read_exact :: "nat \<Rightarrow> (socket, bytes, io_error) io" where
  "sock_read_exact n s = (case take_exact n [] (sk_in s) of (r, i) \<Rightarrow> (r, s\<lparr>sk_in := i\<rparr>))"

section \<open>Frames\<close>

text \<open>\<open>send_raw\<close> and \<open>recv_raw\<close> of \<open>SecureTransport\<close>.\<close>

definition send_raw :: "bytes \<Rightarrow> (socket, unit, network_error) io" where
  "send_raw data =
     (let len = as_u32 (length data)
      in bind_io (map_err_io NetIo (sock_write_all (be_bytes 4 len))) (\<lambda>_.
         bind_io (map_err_io NetIo (sock_write_all data)) (\<lambda>_.
         return_io ())))"

definition recv_raw :: "(socket, bytes, network_error) io" where
  "recv_raw =
     bind_io (map_err_io NetIo (sock_read_exact 4)) (\<lambda>len_buf.
     let len = of_be len_buf
     in if MAX_MESSAGE_SIZE < len
        then fail_io (NetIo (OtherIo (''raw frame too large: '' @ show_nat len)))
        else map_err_io NetIo (sock_read_exact len))"

text \<open>\<open>write_raw_frame\<close> and \<open>read_raw_frame\<close> of the transfer manager.\<close>

definition write_raw_frame :: "bytes \<Rightarrow> (socket, unit, protocol_error) io" where
  "write_raw_frame data =
     (let len = as_u32 (length data)
      in bind_io (map_err_io (\<lambda>e. Serialization (''frame write: '' @ io_display e))
                    (sock_write_all (be_bytes 4 len))) (\<lambda>_.
         bind_io (map_err_io (\<lambda>e. Serialization (''data write: '' @ io_display e))
                    (sock_write_all data)) (\<lambda>_.
         return_io ())))"

definition read_raw_frame :: "(socket, bytes, protocol_error) io" where
  "read_raw_frame =
     bind_io (map_err_io (\<lambda>e. Deserialization (''frame read: '' @ io_display e)) (sock_read_exact 4)) (\<lambda>len_buf.
     let len = of_be len_buf
     in if MAX_MESSAGE_SIZE < len then fail_io (MessageTooLarge len MAX_MESSAGE_SIZE)
        else map_err_io (\<lambda>e. Deserialization (''data read: '' @ io_display e)) (sock_read_exact len))"

text \<open>The QUIC streams: \<open>StreamSend::write_frame\<close> and \<open>StreamRecv::read_frame\<close>.\<close>

datatype transport_error = QConnection string | QWrite string | QRead string
  | QFrameTooLarge usize usize | QTls string | QBind string | QClosed

definition quic_write_all :: "bytes \<Rightarrow> (socket, unit, transport_error) io" where
  "quic_write_all data = map_err_io (\<lambda>e. QWrite (io_display e)) (sock_write_all data)"

definition quic_read_exact :: "nat \<Rightarrow> (socket, bytes, transport_error) io" where
  "quic_read_exact n = map_err_io (\<lambda>e. QRead (io_display e)) (sock_read_exact n)"

definition write_frame :: "bytes \<Rightarrow> (socket, unit, transport_error) io" where
  "write_frame data =
     bind_io (quic_write_all (be_bytes 4 (as_u32 (length data)))) (\<lambda>_. quic_write_all data)"

definition read_frame :: "usize \<Rightarrow> (socket, bytes, transport_error) io" where
  "read_frame max_size =
     bind_io (quic_read_exact 4) (\<lambda>len_buf.
     let len = of_be len_buf
     in if max_size < len then fail_io (QFrameTooLarge len max_size)
        else quic_read_exact len)"

section \<open>The contract of a framing\<close>

locale framing =
  fixes fits :: "'m \<Rightarrow> bool"
    and sent :: "'m \<Rightarrow> 'c list"
    and good :: "'s \<Rightarrow> bool"
    and pending :: "'s \<Rightarrow> 'c list"
    and recv :: "'s \<Rightarrow> ('m, 'e) result \<times> 's"
  assumes recv_sent: "good s \<Longrightarrow> fits m \<Longrightarrow> pending s = sent m @ rest \<Longrightarrow>
      \<exists>s'. recv s = (Ok m, s') \<and> good s' \<and> pending s' = rest"
begin

fun recv_n :: "nat \<Rightarrow> 's \<Rightarrow> ('m, 'e) result list \<times> 's" where
  "recv_n 0 s = ([], s)"
| "recv_n (Suc n) s = (case recv s of (r, s') \<Rightarrow> case recv_n n s' of (rs, s'') \<Rightarrow> (r # rs, s''))"

text \<open>Messages are received in the order sent, with nothing lost, merged or left over.\<close>

lemma recv_all:
  assumes "good s" "\<forall>m\<in>set ms. fits m" "pending s = concat (map sent ms) @ rest"
  shows "\<exists>s'. recv_n (length ms) s = (map Ok ms, s') \<and> good s' \<and> pending s' = rest"
  using assms
proof (induction ms arbitrary: s)
  case Nil
  then show ?case by simp
next
  case (Cons m ms)
  then obtain s1 where "recv s = (Ok m, s1)" "good s1" "pending s1 = concat (map sent ms) @ rest"
    using recv_sent [of s m "concat (map sent ms) @ rest"] by auto
  with Cons.IH [of s1] Cons.prems show ?case by auto
qed

text \<open>No frame is a prefix of another.\<close>

lemma sent_prefix_free:
  assumes "good s" "pending s = sent m @ rest" "fits m" "fits m'" "sent m @ rest = sent m' @ rest'"
  shows "m = m' \<and> rest = rest'"
proof -
  obtain s1 where "recv s = (Ok m, s1)" "pending s1 = rest" using recv_sent assms(1,2,3) by blast
  moreover obtain s2 where "recv s = (Ok m', s2)" "pending s2 = rest'"
    using recv_sent [OF assms(1,4), of rest'] assms(2,5) by metis
  ultimately show ?thesis by simp
qed

end

section \<open>The three framings\<close>

definition clean :: "(bytes + io_error) list \<Rightarrow> bool" where
  "clean i \<longleftrightarrow> (\<forall>x\<in>set i. \<exists>d. x = Inl d \<and> d \<noteq> [])"

fun joined :: "(bytes + io_error) list \<Rightarrow> bytes" where
  "joined [] = []"
| "joined (Inl d # r) = d @ joined r"
| "joined (Inr e # r) = joined r"

definition open_socket :: "socket \<Rightarrow> bool" where
  "open_socket s \<longleftrightarrow> clean (sk_in s)"

definition incoming :: "socket \<Rightarrow> bytes" where
  "incoming s = joined (sk_in s)"

lemma take_exact_clean:
  assumes "clean i" "n \<le> length (joined i)"
  shows "\<exists>i'. take_exact n acc i = (Ok (acc @ take n (joined i)), i') \<and> clean i' \<and> joined i' = drop n (joined i)"
  using assms
proof (induction n acc i rule: take_exact.induct)
  case (3 n acc d r)
  then have d: "d \<noteq> []" and r: "clean r" by (auto simp: clean_def)
  consider "n = 0" | "0 < n" "n < length d" | "0 < n" "length d \<le> n" by linarith
  then show ?case
  proof cases
    case 2
    then show ?thesis using "3.prems" r by (auto simp: clean_def)
  next
    case 3
    then show ?thesis using "3.IH" "3.prems"(2) d r by simp
  qed (use "3.prems" in simp)
qed (auto simp: clean_def)

lemma read_exact_open:
  assumes "open_socket s" "incoming s = a @ rest" "length a = n"
  shows "\<exists>s'. sock_read_exact n s = (Ok a, s') \<and> open_socket s' \<and> incoming s' = rest
    \<and> sk_out s' = sk_out s"
proof -
  have "n \<le> length (joined (sk_in s))" using assms(2,3) by (simp add: incoming_def)
  from take_exact_clean [OF _ this, of "[]"] assms obtain i where
    "take_exact n [] (sk_in s) = (Ok a, i)" "clean i" "joined i = rest"
    by (auto simp: open_socket_def incoming_def)
  then show ?thesis by (simp add: sock_read_exact_def open_socket_def incoming_def)
qed

text \<open>What each sender puts on the wire when no write fails.\<close>

definition frame_bytes :: "bytes \<Rightarrow> bytes" where
  "frame_bytes m = be_bytes 4 (as_u32 (length m)) @ m"

definition fits_in :: "usize \<Rightarrow> bytes \<Rightarrow> bool" where
  "fits_in n m \<longleftrightarrow> length m \<le> n \<and> length m < 2 ^ 32"

lemma senders_write_frames:
  assumes "\<forall>n. sk_write_fault s n = None"
  shows "\<exists>s'. send_raw m s = (Ok (), s') \<and> sk_out s' = sk_out s @ frame_bytes m"
    and "\<exists>s'. write_raw_frame m s = (Ok (), s') \<and> sk_out s' = sk_out s @ frame_bytes m"
    and "\<exists>s'. write_frame m s = (Ok (), s') \<and> sk_out s' = sk_out s @ frame_bytes m"
  using assms
  by (simp_all add: send_raw_def write_raw_frame_def write_frame_def quic_write_all_def frame_bytes_def
      bind_io_def map_err_io_def sock_write_all_def return_io_def Let_def)

lemma receivers_read_frames:
  assumes "open_socket s" "fits_in max_len m" "incoming s = frame_bytes m @ rest"
  obtains s1 s2 where "sock_read_exact 4 s = (Ok (be_bytes 4 (length m)), s1)"
    "sock_read_exact (length m) s1 = (Ok m, s2)" "open_socket s2" "incoming s2 = rest"
proof -
  have "incoming s = be_bytes 4 (length m) @ m @ rest"
    using assms(2,3) by (simp add: frame_bytes_def fits_in_def as_u32_def)
  from read_exact_open [OF assms(1) this] obtain s1 where
    s1: "sock_read_exact 4 s = (Ok (be_bytes 4 (length m)), s1)" "open_socket s1" "incoming s1 = m @ rest"
    by auto
  moreover from read_exact_open [OF s1(2,3) refl] obtain s2 where
    "sock_read_exact (length m) s1 = (Ok m, s2)" "open_socket s2" "incoming s2 = rest" by auto
  ultimately show thesis by (intro that)
qed

interpretation raw_frames: framing "fits_in MAX_MESSAGE_SIZE" frame_bytes open_socket incoming recv_raw
proof
  fix s m rest assume "open_socket s" "fits_in MAX_MESSAGE_SIZE m" "incoming s = frame_bytes m @ rest"
  then show "\<exists>s'. recv_raw s = (Ok m, s') \<and> open_socket s' \<and> incoming s' = rest"
    by (rule receivers_read_frames)
      (use \<open>fits_in MAX_MESSAGE_SIZE m\<close> in \<open>auto simp: recv_raw_def bind_io_def map_err_io_def fits_in_def Let_def\<close>)
qed

interpretation transfer_frames: framing "fits_in MAX_MESSAGE_SIZE" frame_bytes open_socket incoming read_raw_frame
proof
  fix s m rest assume "open_socket s" "fits_in MAX_MESSAGE_SIZE m" "incoming s = frame_bytes m @ rest"
  then show "\<exists>s'. read_raw_frame s = (Ok m, s') \<and> open_socket s' \<and> incoming s' = rest"
    by (rule receivers_read_frames)
      (use \<open>fits_in MAX_MESSAGE_SIZE m\<close> in \<open>auto simp: read_raw_frame_def bind_io_def map_err_io_def fits_in_def Let_def\<close>)
qed

interpretation quic_frames: framing "fits_in max_size" frame_bytes open_socket incoming "read_frame max_size"
  for max_size
proof
  fix s m rest assume "open_socket s" "fits_in max_size m" "incoming s = frame_bytes m @ rest"
  then show "\<exists>s'. read_frame max_size s = (Ok m, s') \<and> open_socket s' \<and> incoming s' = rest"
    by (rule receivers_read_frames)
      (use \<open>fits_in max_size m\<close> in \<open>auto simp: read_frame_def quic_read_exact_def bind_io_def map_err_io_def fits_in_def Let_def\<close>)
qed

section \<open>Properties\<close>

fun send_frames :: "bytes list \<Rightarrow> (socket, unit, transport_error) io" where
  "send_frames [] = return_io ()"
| "send_frames (m # ms) = bind_io (write_frame m) (\<lambda>_. send_frames ms)"

fun recv_frames :: "usize \<Rightarrow> nat \<Rightarrow> socket \<Rightarrow> (bytes, transport_error) result list \<times> socket" where
  "recv_frames max_len 0 s = ([], s)"
| "recv_frames max_len (Suc n) s =
     (case read_frame max_len s of (r, s') \<Rightarrow> case recv_frames max_len n s' of (rs, s'') \<Rightarrow> (r # rs, s''))"

lemma recv_frames_run: "recv_frames max_len n s = quic_frames.recv_n max_len n s"
  by (induction n arbitrary: s) simp_all

lemma send_frames_out:
  assumes "\<forall>n. sk_write_fault s n = None"
  shows "fst (send_frames ms s) = Ok () \<and> sk_out (snd (send_frames ms s)) = sk_out s @ concat (map frame_bytes ms)"
  using assms
proof (induction ms arbitrary: s)
  case (Cons m ms)
  obtain s' where s': "write_frame m s = (Ok (), s')" "sk_out s' = sk_out s @ frame_bytes m"
    using senders_write_frames(3) [OF Cons.prems] by blast
  have "sk_write_fault s' = sk_write_fault s"
    using s'(1) Cons.prems by (auto simp: write_frame_def quic_write_all_def bind_io_def map_err_io_def sock_write_all_def)
  with Cons.IH [of s'] Cons.prems s' show ?case by (simp add: bind_io_def)
qed (simp add: return_io_def)


definition demo_socket :: "(bytes + io_error) list \<Rightarrow> socket" where
  "demo_socket i = \<lparr>sk_in = i, sk_out = [], sk_write_fault = (\<lambda>_. None), sk_writes = 0\<rparr>"


lemma take_exact_length:
  "take_exact n acc i = (Ok m, i') \<Longrightarrow> length m = length acc + n"
  by (induction n acc i rule: take_exact.induct) (auto split: if_splits)

lemma read_exact_length: "sock_read_exact n s = (Ok m, s') \<Longrightarrow> length m = n"
  by (auto simp: sock_read_exact_def split: prod.splits dest: take_exact_length)

text \<open>
  A peer cannot make a receiver accept more than its limit or a truncated message: on any
  stream, with errors and closes anywhere, a frame that is returned has exactly the announced
  length, which is at most the limit, and a larger announcement is refused before the body is read.
\<close>

theorem frames_bounded:
  "(read_frame max_len s = (Ok m, s') \<longrightarrow> length m \<le> max_len \<and>
      (\<exists>len_buf s1. sock_read_exact 4 s = (Ok len_buf, s1) \<and> of_be len_buf = length m))
   \<and> (read_raw_frame s = (Ok m, s') \<longrightarrow> length m \<le> MAX_MESSAGE_SIZE)
   \<and> (recv_raw s = (Ok m, s') \<longrightarrow> length m \<le> MAX_MESSAGE_SIZE)
   \<and> (sock_read_exact 4 s = (Ok len_buf, s1) \<and> max_len < of_be len_buf \<longrightarrow>
        read_frame max_len s = (Err (QFrameTooLarge (of_be len_buf) max_len), s1))"
  by (auto simp: read_frame_def read_raw_frame_def recv_raw_def quic_read_exact_def bind_io_Ok_iff
      bind_io_def map_err_io_def fail_io_def Let_def split: if_splits prod.splits result.splits
      dest: read_exact_length)

theorem frames_bounded_witness:
  "fst (read_frame 10 (demo_socket [Inl [0, 0, 0, 11, 1]])) = Err (QFrameTooLarge 11 10)"
proof -
  have "sock_read_exact 4 (demo_socket [Inl [0, 0, 0, 11, 1]]) = (Ok [0, 0, 0, 11], demo_socket [Inl [1]])"
    by (simp add: sock_read_exact_def demo_socket_def)
  moreover have "of_be [0, 0, 0, 11] = 11" by code_simp
  ultimately show ?thesis
    using frames_bounded [of 10 "demo_socket [Inl [0, 0, 0, 11, 1]]" _ _ "[0, 0, 0, 11]"] by simp
qed

end
