(* ===== verification/Noise.thy ===== *)
theory Noise
  imports Core_Types
begin

text \<open>
  \<open>crates/justdrop-security/src/handshake.rs\<close> and \<open>session.rs\<close>: the two sides of the Noise XX
  handshake and the session it yields. The Noise implementation (the crate \<open>snow\<close>) is a parameter,
  a record of the operations the code calls; the \<open>send\<close> and \<open>recv\<close> closures are operations on the
  state of the caller.
\<close>

record ('b, 'h, 'n) snow =
  sn_parse_params :: "string \<Rightarrow> (unit, string) result"
  sn_local_private_key :: "bytes \<Rightarrow> ('b, string) result"
  sn_build_initiator :: "'b \<Rightarrow> ('h, string) result"
  sn_build_responder :: "'b \<Rightarrow> ('h, string) result"
  sn_hs_write :: "'h \<Rightarrow> bytes \<Rightarrow> usize \<Rightarrow> (bytes, string) result \<times> 'h"
  sn_hs_read :: "'h \<Rightarrow> bytes \<Rightarrow> usize \<Rightarrow> (bytes, string) result \<times> 'h"
  sn_remote_static :: "'h \<Rightarrow> bytes option"
  sn_into_transport :: "'h \<Rightarrow> ('n, string) result"
  sn_write_message :: "'n \<Rightarrow> bytes \<Rightarrow> usize \<Rightarrow> (bytes, string) result \<times> 'n"
  sn_read_message :: "'n \<Rightarrow> bytes \<Rightarrow> usize \<Rightarrow> (bytes, string) result \<times> 'n"
  sn_is_initiator :: "'n \<Rightarrow> bool"

section \<open>session.rs\<close>

definition TAG_LEN :: usize where
  "TAG_LEN = 16"

record 'n noise_session =
  ns_transport :: 'n

definition noise_encrypt ::
  "('b, 'h, 'n) snow \<Rightarrow> bytes \<Rightarrow> ('n noise_session, bytes, security_error) io" where
  "noise_encrypt sn plaintext ns =
     (case sn_write_message sn (ns_transport ns) plaintext (length plaintext + TAG_LEN) of
        (r, t) \<Rightarrow> (map_err EncryptionFailed r, ns\<lparr>ns_transport := t\<rparr>))"

definition noise_decrypt ::
  "('b, 'h, 'n) snow \<Rightarrow> bytes \<Rightarrow> ('n noise_session, bytes, security_error) io" where
  "noise_decrypt sn ciphertext ns =
     (case sn_read_message sn (ns_transport ns) ciphertext (length ciphertext) of
        (r, t) \<Rightarrow> (map_err DecryptionFailed r, ns\<lparr>ns_transport := t\<rparr>))"

section \<open>handshake.rs\<close>

definition NOISE_PARAMS :: string where
  "NOISE_PARAMS = ''Noise_XX_25519_ChaChaPoly_BLAKE2s''"

definition MAX_HANDSHAKE_MSG :: usize where
  "MAX_HANDSHAKE_MSG = 65535"

definition noise_initiator_new ::
  "('b, 'h, 'n) snow \<Rightarrow> bytes \<Rightarrow> ('h, security_error) result" where
  "noise_initiator_new sn private_key =
     bind_res (map_err (\<lambda>e. HandshakeFailed (''invalid params: '' @ e)) (sn_parse_params sn NOISE_PARAMS)) (\<lambda>_.
     bind_res (map_err (\<lambda>e. HandshakeFailed (''builder key: '' @ e)) (sn_local_private_key sn private_key)) (\<lambda>b.
     map_err (\<lambda>e. HandshakeFailed (''builder failed: '' @ e)) (sn_build_initiator sn b)))"

definition noise_responder_new ::
  "('b, 'h, 'n) snow \<Rightarrow> bytes \<Rightarrow> ('h, security_error) result" where
  "noise_responder_new sn private_key =
     bind_res (map_err (\<lambda>e. HandshakeFailed (''invalid params: '' @ e)) (sn_parse_params sn NOISE_PARAMS)) (\<lambda>_.
     bind_res (map_err (\<lambda>e. HandshakeFailed (''builder key: '' @ e)) (sn_local_private_key sn private_key)) (\<lambda>b.
     map_err (\<lambda>e. HandshakeFailed (''builder failed: '' @ e)) (sn_build_responder sn b)))"

text \<open>One handshake message: the library's result, its errors prefixed with the step.\<close>

definition hs_write ::
  "('b, 'h, 'n) snow \<Rightarrow> string \<Rightarrow> 'h \<Rightarrow> (bytes, security_error) result \<times> 'h" where
  "hs_write sn step h = (case sn_hs_write sn h [] MAX_HANDSHAKE_MSG of
       (r, h') \<Rightarrow> (map_err (\<lambda>e. HandshakeFailed (step @ e)) r, h'))"

definition hs_read ::
  "('b, 'h, 'n) snow \<Rightarrow> string \<Rightarrow> bytes \<Rightarrow> 'h \<Rightarrow> (bytes, security_error) result \<times> 'h" where
  "hs_read sn step msg h = (case sn_hs_read sn h msg MAX_HANDSHAKE_MSG of
       (r, h') \<Rightarrow> (map_err (\<lambda>e. HandshakeFailed (step @ e)) r, h'))"

definition hs_finish ::
  "('b, 'h, 'n) snow \<Rightarrow> 'h \<Rightarrow> ('n noise_session \<times> bytes, security_error) result" where
  "hs_finish sn h =
     bind_res (ok_or (sn_remote_static sn h) PeerVerificationFailed) (\<lambda>remote_static.
     bind_res (map_err (\<lambda>e. HandshakeFailed (''transport mode: '' @ e)) (sn_into_transport sn h)) (\<lambda>t.
     Ok (\<lparr>ns_transport = t\<rparr>, remote_static)))"

definition initiator_handshake ::
  "('b, 'h, 'n) snow \<Rightarrow> (bytes \<Rightarrow> ('s, unit, security_error) io) \<Rightarrow> ('s, bytes, security_error) io \<Rightarrow> 'h
   \<Rightarrow> ('s, 'n noise_session \<times> bytes, security_error) io" where
  "initiator_handshake sn send recv h0 =
     (case hs_write sn ''msg1 write: '' h0 of (r1, h1) \<Rightarrow>
      bind_io (lift_io r1) (\<lambda>msg1.
      bind_io (send msg1) (\<lambda>_.
      bind_io recv (\<lambda>msg2.
      case hs_read sn ''msg2 read: '' msg2 h1 of (r2, h2) \<Rightarrow>
      bind_io (lift_io r2) (\<lambda>_.
      case hs_write sn ''msg3 write: '' h2 of (r3, h3) \<Rightarrow>
      bind_io (lift_io r3) (\<lambda>msg3.
      bind_io (send msg3) (\<lambda>_.
      lift_io (hs_finish sn h3))))))))"

definition responder_handshake ::
  "('b, 'h, 'n) snow \<Rightarrow> (bytes \<Rightarrow> ('s, unit, security_error) io) \<Rightarrow> ('s, bytes, security_error) io \<Rightarrow> 'h
   \<Rightarrow> ('s, 'n noise_session \<times> bytes, security_error) io" where
  "responder_handshake sn send recv h0 =
     bind_io recv (\<lambda>msg1.
     case hs_read sn ''msg1 read: '' msg1 h0 of (r1, h1) \<Rightarrow>
     bind_io (lift_io r1) (\<lambda>_.
     case hs_write sn ''msg2 write: '' h1 of (r2, h2) \<Rightarrow>
     bind_io (lift_io r2) (\<lambda>msg2.
     bind_io (send msg2) (\<lambda>_.
     bind_io recv (\<lambda>msg3.
     case hs_read sn ''msg3 read: '' msg3 h2 of (r3, h3) \<Rightarrow>
     bind_io (lift_io r3) (\<lambda>_.
     lift_io (hs_finish sn h3)))))))"

section \<open>Two peers\<close>

text \<open>A peer's view of the wire: the messages still to be received, the messages sent.\<close>

record wire =
  w_in :: "bytes list"
  w_out :: "bytes list"

definition wire_send :: "bytes \<Rightarrow> (wire, unit, security_error) io" where
  "wire_send m w = (Ok (), w\<lparr>w_out := w_out w @ [m]\<rparr>)"

definition wire_recv :: "(wire, bytes, security_error) io" where
  "wire_recv w = (case w_in w of
       [] \<Rightarrow> (Err (HandshakeFailed ''connection closed''), w)
     | m # ms \<Rightarrow> (Ok m, w\<lparr>w_in := ms\<rparr>))"

text \<open>
  What Noise XX provides: the three messages of honest peers are accepted in order, each side
  learns the other's static key, and what one transport writes the other reads.
\<close>

definition noise_xx ::
  "('b, 'h, 'n) snow \<Rightarrow> 'h \<Rightarrow> 'h \<Rightarrow> bytes \<Rightarrow> bytes \<Rightarrow> 'n \<Rightarrow> 'n \<Rightarrow> bytes list \<Rightarrow> bool" where
  "noise_xx sn i0 r0 key_i key_r ti tr msgs \<longleftrightarrow> (\<exists>m1 m2 m3 i1 i2 i3 r1 r2 r3 p1 p2 p3.
       msgs = [m1, m2, m3]
     \<and> sn_hs_write sn i0 [] MAX_HANDSHAKE_MSG = (Ok m1, i1) \<and> sn_hs_read sn r0 m1 MAX_HANDSHAKE_MSG = (Ok p1, r1)
     \<and> sn_hs_write sn r1 [] MAX_HANDSHAKE_MSG = (Ok m2, r2) \<and> sn_hs_read sn i1 m2 MAX_HANDSHAKE_MSG = (Ok p2, i2)
     \<and> sn_hs_write sn i2 [] MAX_HANDSHAKE_MSG = (Ok m3, i3) \<and> sn_hs_read sn r2 m3 MAX_HANDSHAKE_MSG = (Ok p3, r3)
     \<and> sn_remote_static sn i3 = Some key_r \<and> sn_remote_static sn r3 = Some key_i
     \<and> sn_into_transport sn i3 = Ok ti \<and> sn_into_transport sn r3 = Ok tr)"


text \<open>
  A transparent Noise for the witness: a state counts the messages of its handshake and carries
  the keys; sessions do not encrypt.
\<close>

definition toy_snow :: "(bytes, nat \<times> bytes \<times> bytes option, bytes) snow" where
  "toy_snow = \<lparr>sn_parse_params = (\<lambda>_. Ok ()), sn_local_private_key = Ok,
     sn_build_initiator = (\<lambda>k. Ok (0, k, None)), sn_build_responder = (\<lambda>k. Ok (0, k, None)),
     sn_hs_write = (\<lambda>(n, k, r) _ _. (Ok (if n = 0 then [] else k), (n + 1, k, r))),
     sn_hs_read = (\<lambda>(n, k, r) m _. (Ok [], (n + 1, k, if n = 0 then None else Some m))),
     sn_remote_static = (\<lambda>(n, k, r). r), sn_into_transport = (\<lambda>(n, k, r). if n = 3 then Ok k else Err ''state''),
     sn_write_message = (\<lambda>t m _. if length m + 16 \<le> 65535 then (Ok (m @ replicate 16 0), t) else (Err ''input error'', t)),
     sn_read_message = (\<lambda>t m _. if 16 \<le> length m \<and> length m \<le> 65535 then (Ok (take (length m - 16) m), t)
                                else (Err ''decrypt error'', t)),
     sn_is_initiator = (\<lambda>_. True)\<rparr>"


end
