(* ===== verification/Transport.thy ===== *)
theory Transport
  imports Framing Noise Messages Config
begin

text \<open>
  \<open>crates/justdrop-network/src/transport.rs\<close> (the encrypted, framed transport over TCP),
  \<open>crates/justdrop-protocol/src/codec.rs\<close> (messages over it), and the connection code of
  \<open>crates/justdrop-network/src/connector.rs\<close> and \<open>sendfile.rs\<close>.
\<close>

section \<open>SecureTransport\<close>

definition FRAME_HEADER_SIZE :: usize where
  "FRAME_HEADER_SIZE = 4"

record 'n secure_transport =
  st_stream :: socket
  st_session :: "'n noise_session"
  st_read_buf :: bytes

definition st_new :: "socket \<Rightarrow> 'n noise_session \<Rightarrow> 'n secure_transport" where
  "st_new stream session = \<lparr>st_stream = stream, st_session = session, st_read_buf = []\<rparr>"

text \<open>An operation of the session, and one of the stream, on the transport.\<close>

definition on_session ::
  "('n noise_session, 'a, 'e) io \<Rightarrow> ('n secure_transport, 'a, 'e) io" where
  "on_session f t = (case f (st_session t) of (r, ns) \<Rightarrow> (r, t\<lparr>st_session := ns\<rparr>))"

definition on_stream :: "(socket, 'a, 'e) io \<Rightarrow> ('n secure_transport, 'a, 'e) io" where
  "on_stream f t = (case f (st_stream t) of (r, s) \<Rightarrow> (r, t\<lparr>st_stream := s\<rparr>))"

definition security_io :: "security_error \<Rightarrow> network_error" where
  "security_io e = NetIo (OtherIo (security_display e))"

definition st_send :: "('b, 'h, 'n) snow \<Rightarrow> bytes \<Rightarrow> ('n secure_transport, unit, network_error) io" where
  "st_send sn plaintext =
     bind_io (map_err_io security_io (on_session (noise_encrypt sn plaintext))) (\<lambda>ciphertext.
     let frame_len = as_u32 (length ciphertext);
         frame = be_bytes 4 frame_len @ ciphertext
     in on_stream (map_err_io NetIo (sock_write_all frame)))"

text \<open>The read loops: true when \<open>n\<close> bytes are buffered, false when the peer closed before.\<close>

function fill :: "nat \<Rightarrow> ('n secure_transport, bool, network_error) io" where
  "fill n t =
     (if n \<le> length (st_read_buf t) then (Ok True, t)
      else case sock_read (st_stream t) of
             (Ok d, s) \<Rightarrow>
               if d = [] then (Ok False, t\<lparr>st_stream := s\<rparr>)
               else fill n (t\<lparr>st_stream := s, st_read_buf := st_read_buf t @ d\<rparr>)
           | (Err e, s) \<Rightarrow> (Err (NetIo e), t\<lparr>st_stream := s\<rparr>)
           | (Panic, s) \<Rightarrow> (Panic, t\<lparr>st_stream := s\<rparr>))"
  by pat_completeness auto
termination
  by (relation "measure (\<lambda>(n, t). length (sk_in (st_stream t)))")
    (auto simp: sock_read_def split: list.splits sum.splits)

declare fill.simps [simp del]

definition st_recv :: "('b, 'h, 'n) snow \<Rightarrow> ('n secure_transport, bytes option, network_error) io" where
  "st_recv sn =
     bind_io (fill FRAME_HEADER_SIZE) (\<lambda>header t.
     if \<not> header then (if st_read_buf t = [] then (Ok None, t) else (Err ConnectionReset, t))
     else
       let frame_len = of_be (take 4 (st_read_buf t))
       in if MAX_MESSAGE_SIZE < frame_len
          then (Err (NetIo (OtherIo (''frame too large: '' @ show_nat frame_len @ '' > '' @ show_nat MAX_MESSAGE_SIZE))), t)
          else bind_io (fill (FRAME_HEADER_SIZE + frame_len)) (\<lambda>body t.
               if \<not> body then (Err ConnectionReset, t)
               else
                 let buf = drop FRAME_HEADER_SIZE (st_read_buf t); ciphertext = take frame_len buf
                 in bind_io (map_err_io security_io (on_session (noise_decrypt sn ciphertext)))
                      (\<lambda>plaintext. return_io (Some plaintext))
                      (t\<lparr>st_read_buf := drop frame_len buf\<rparr>)) t)"

text \<open>
  Flushing a TCP stream does nothing. Shutting it down is a call that can fail like a write; after it
  every write fails.
\<close>

definition sock_flush :: "(socket, unit, io_error) io" where
  "sock_flush = return_io ()"

definition sock_shutdown :: "(socket, unit, io_error) io" where
  "sock_shutdown s = (case sk_write_fault s (sk_writes s) of
       Some (k, e) \<Rightarrow> (Err e, s\<lparr>sk_writes := Suc (sk_writes s)\<rparr>)
     | None \<Rightarrow> (Ok (), s\<lparr>sk_write_fault := \<lambda>_. Some (0, OtherIo ''Broken pipe (os error 32)'')\<rparr>))"

definition st_flush :: "('n secure_transport, unit, network_error) io" where
  "st_flush = map_err_io NetIo (on_stream sock_flush)"

definition st_shutdown :: "('n secure_transport, unit, network_error) io" where
  "st_shutdown = map_err_io NetIo (on_stream sock_shutdown)"

section \<open>ProtocolCodec\<close>

definition codec_send ::
  "('b, 'h, 'n) snow \<Rightarrow> (message \<Rightarrow> (bytes, string) result) \<Rightarrow> message
   \<Rightarrow> ('n secure_transport, unit, protocol_error) io" where
  "codec_send sn serialize m =
     bind_io (lift_io (map_err Serialization (serialize m))) (\<lambda>data.
     map_err_io (\<lambda>e. Serialization (''transport send failed: '' @ network_display e)) (st_send sn data))"

definition codec_recv ::
  "('b, 'h, 'n) snow \<Rightarrow> (bytes \<Rightarrow> (message, string) result)
   \<Rightarrow> ('n secure_transport, message option, protocol_error) io" where
  "codec_recv sn deserialize =
     bind_io (map_err_io (\<lambda>e. Deserialization (''transport recv failed: '' @ network_display e)) (st_recv sn))
       (\<lambda>r. case r of
              None \<Rightarrow> return_io None
            | Some data \<Rightarrow>
                bind_io (lift_io (map_err Deserialization (deserialize data))) (\<lambda>m. return_io (Some m)))"

definition send_handshake :: "bytes \<Rightarrow> ('n secure_transport, unit, protocol_error) io" where
  "send_handshake data =
     map_err_io (\<lambda>e. Serialization (''handshake send failed: '' @ network_display e)) (on_stream (send_raw data))"

definition recv_handshake :: "('n secure_transport, bytes, protocol_error) io" where
  "recv_handshake =
     map_err_io (\<lambda>e. Deserialization (''handshake recv failed: '' @ network_display e)) (on_stream recv_raw)"

definition codec_flush :: "('n secure_transport, unit, protocol_error) io" where
  "codec_flush = map_err_io (\<lambda>e. Serialization (''flush failed: '' @ network_display e)) st_flush"

definition codec_shutdown :: "('n secure_transport, unit, protocol_error) io" where
  "codec_shutdown = map_err_io (\<lambda>e. Serialization (''shutdown failed: '' @ network_display e)) st_shutdown"

text \<open>After an orderly end nothing more is sent: no byte reaches the stream, and no message counts as sent.\<close>

lemma nothing_sent_after_shutdown:
  assumes "codec_shutdown t = (Ok (), t')" and "codec_send sn serialize m t' = (r, u)"
  shows "sk_out (st_stream u) = sk_out (st_stream t) \<and> r \<noteq> Ok ()"
proof -
  have t': "sk_out (st_stream t') = sk_out (st_stream t)"
    "\<And>n. sk_write_fault (st_stream t') n = Some (0, OtherIo ''Broken pipe (os error 32)'')"
    using assms(1)
    by (auto simp: codec_shutdown_def st_shutdown_def on_stream_def sock_shutdown_def map_err_io_def split: option.splits)
  then show ?thesis using assms(2)
    by (auto simp: codec_send_def st_send_def bind_io_def map_err_io_def lift_io_def Let_def on_session_def on_stream_def
        sock_write_all_def split: prod.splits result.splits)
qed

section \<open>Connecting\<close>

text \<open>
  One attempt to connect: the parameter \<open>dial\<close> says how the n-th attempt ends: no answer before
  the timeout, an error, or a stream, for which setting the socket option may still fail.
\<close>

datatype dial = TimedOut | Refused io_error | Dialled socket "io_error option"

definition connect :: "string \<Rightarrow> (nat \<Rightarrow> dial) \<Rightarrow> nat \<Rightarrow> (socket, network_error) result" where
  "connect addr dial attempt =
     (case dial attempt of
        TimedOut \<Rightarrow> Err (Timeout addr)
      | Refused e \<Rightarrow> Err (ConnectionFailed addr e)
      | Dialled s (Some e) \<Rightarrow> Err (NetIo e)
      | Dialled s None \<Rightarrow> Ok s)"

text \<open>The loop over \<open>0..=max_retries\<close>; the second component counts the sleeps between attempts.\<close>

fun retry_loop ::
  "string \<Rightarrow> (nat \<Rightarrow> dial) \<Rightarrow> nat list \<Rightarrow> network_error option \<Rightarrow> (socket, network_error) result \<times> nat" where
  "retry_loop addr dial [] last_err =
     (Err (case last_err of Some e \<Rightarrow> e | None \<Rightarrow> Timeout addr), 0)"
| "retry_loop addr dial (attempt # as) last_err =
     (let slept = (if 0 < attempt then 1 else 0 :: nat)
      in case connect addr dial attempt of
           Ok s \<Rightarrow> (Ok s, slept)
         | Err e \<Rightarrow> (case retry_loop addr dial as (Some e) of (r, n) \<Rightarrow> (r, slept + n))
         | Panic \<Rightarrow> (Panic, slept))"

definition connect_with_retry ::
  "string \<Rightarrow> (nat \<Rightarrow> dial) \<Rightarrow> u32 \<Rightarrow> (socket, network_error) result \<times> nat" where
  "connect_with_retry addr dial max_retries = retry_loop addr dial [0..<max_retries + 1] None"

section \<open>Reading whatever the segmentation\<close>

definition unread :: "'n secure_transport \<Rightarrow> bytes" where
  "unread t = st_read_buf t @ joined (sk_in (st_stream t))"

lemma fill_open:
  assumes "open_socket (st_stream t)"
  shows "\<exists>t'. fill n t = (Ok (n \<le> length (unread t)), t') \<and> open_socket (st_stream t') \<and> unread t' = unread t
     \<and> st_session t' = st_session t
     \<and> (n \<le> length (unread t) \<longrightarrow> n \<le> length (st_read_buf t'))
     \<and> (length (unread t) < n \<longrightarrow> st_read_buf t' = unread t)"
  using assms
proof (induction n t rule: fill.induct)
  case (1 n t)
  note unfold = fill.simps [of n t]
  show ?case
  proof (cases "n \<le> length (st_read_buf t)")
    case True
    then show ?thesis using "1.prems" by (auto simp: unfold unread_def)
  next
    case False
    show ?thesis
    proof (cases "sk_in (st_stream t)")
      case Nil
      then show ?thesis using False "1.prems" by (simp add: unfold sock_read_def unread_def)
    next
      case (Cons x r)
      then obtain d where d: "sk_in (st_stream t) = Inl d # r" "d \<noteq> []" "clean r"
        using "1.prems" by (auto simp: open_socket_def clean_def)
      let ?s = "(st_stream t)\<lparr>sk_in := r\<rparr>"
      let ?t = "t\<lparr>st_stream := ?s, st_read_buf := st_read_buf t @ d\<rparr>"
      have rd: "sock_read (st_stream t) = (Ok d, ?s)" using d(1) by (simp add: sock_read_def)
      have u: "unread ?t = unread t" and o: "open_socket (st_stream ?t)"
        using d by (simp_all add: unread_def open_socket_def)
      have f: "fill n t = fill n ?t" using False d(2) rd by (simp add: unfold)
      show ?thesis using "1.IH" [OF False rd [symmetric] refl d(2)] o unfolding f u by simp
    qed
  qed
qed

lemma take_unread: "k \<le> length (st_read_buf t) \<Longrightarrow> take k (st_read_buf t) = take k (unread t)"
  by (simp add: unread_def)

text \<open>The part of \<open>recv\<close> after the header has been read, on the whole stream.\<close>

lemma recv_open:
  assumes "open_socket (st_stream t)" and "4 \<le> length (unread t)"
    and "of_be (take 4 (unread t)) = n" and "n \<le> MAX_MESSAGE_SIZE"
  shows "length (unread t) < 4 + n \<Longrightarrow> \<exists>t'. st_recv sn t = (Err ConnectionReset, t')"
    and "4 + n \<le> length (unread t) \<Longrightarrow>
      sn_read_message sn (ns_transport (st_session t)) (take n (drop 4 (unread t))) n = (Ok m, tr) \<Longrightarrow>
      \<exists>t'. st_recv sn t = (Ok (Some m), t') \<and> open_socket (st_stream t')
        \<and> unread t' = drop (4 + n) (unread t) \<and> ns_transport (st_session t') = tr"
proof -
  obtain t1 where t1: "fill 4 t = (Ok True, t1)" "open_socket (st_stream t1)" "unread t1 = unread t"
    "st_session t1 = st_session t" "4 \<le> length (st_read_buf t1)"
    using fill_open [OF assms(1), of 4] assms(2) by auto
  have n: "of_be (take 4 (st_read_buf t1)) = n"
    using assms(3) t1(3) take_unread [OF t1(5)] by simp
  obtain t2 where t2: "fill (4 + n) t1 = (Ok (4 + n \<le> length (unread t)), t2)" "open_socket (st_stream t2)"
    "unread t2 = unread t" "st_session t2 = st_session t"
    "4 + n \<le> length (unread t) \<longrightarrow> 4 + n \<le> length (st_read_buf t2)"
    using fill_open [OF t1(2), of "4 + n"] t1(3,4) by auto
  have run: "st_recv sn t = (if \<not> 4 + n \<le> length (unread t) then (Err ConnectionReset, t2)
      else bind_io (map_err_io security_io (on_session (noise_decrypt sn (take n (drop 4 (st_read_buf t2))))))
             (\<lambda>plaintext. return_io (Some plaintext)) (t2\<lparr>st_read_buf := drop n (drop 4 (st_read_buf t2))\<rparr>))"
    using assms(4) t1(1) t2(1) n by (simp add: st_recv_def bind_io_def FRAME_HEADER_SIZE_def Let_def)
  show "length (unread t) < 4 + n \<Longrightarrow> \<exists>t'. st_recv sn t = (Err ConnectionReset, t')"
    using run by simp
  assume len: "4 + n \<le> length (unread t)"
    and dec: "sn_read_message sn (ns_transport (st_session t)) (take n (drop 4 (unread t))) n = (Ok m, tr)"
  have buf: "4 + n \<le> length (st_read_buf t2)" using t2(5) len by simp
  have ct: "take n (drop 4 (st_read_buf t2)) = take n (drop 4 (unread t))"
    using take_unread [OF buf] t2(3) by (simp add: take_drop add.commute)
  have len_ct: "length (take n (drop 4 (st_read_buf t2))) = n" using buf by simp
  have rest: "unread (t2\<lparr>st_read_buf := drop n (drop 4 (st_read_buf t2)), st_session := x\<rparr>)
      = drop (4 + n) (unread t)" for x
    unfolding t2(3) [symmetric] using buf by (simp add: unread_def add.commute)
  show "\<exists>t'. st_recv sn t = (Ok (Some m), t') \<and> open_socket (st_stream t')
        \<and> unread t' = drop (4 + n) (unread t) \<and> ns_transport (st_session t') = tr"
    using rest [of "st_session t\<lparr>ns_transport := tr\<rparr>"] run len dec t2(2-4) len_ct buf unfolding ct
    by (simp add: on_session_def noise_decrypt_def bind_io_def map_err_io_def return_io_def add.commute)
qed

section \<open>Properties\<close>

text \<open>
  What Noise promises of an established pair: the receiving side reads what the sending side
  wrote, in order; a ciphertext is 16 bytes longer than its plaintext; a message may not exceed
  65535 bytes.
\<close>

definition noise_channel :: "('b, 'h, 'n) snow \<Rightarrow> ('n \<Rightarrow> 'n \<Rightarrow> bool) \<Rightarrow> bool" where
  "noise_channel sn R \<longleftrightarrow> (\<forall>a b m. R a b \<and> length m + 16 \<le> 65535 \<longrightarrow>
     (\<exists>c a' b'. sn_write_message sn a m (length m + 16) = (Ok c, a') \<and> length c = length m + 16
        \<and> sn_read_message sn b c (length c) = (Ok m, b') \<and> R a' b'))"

definition noise_limit :: "('b, 'h, 'n) snow \<Rightarrow> bool" where
  "noise_limit sn \<longleftrightarrow> (\<forall>a m n. 65535 < length m + 16 \<longrightarrow>
     (\<exists>e a'. sn_write_message sn a m n = (Err e, a')))"

fun st_send_all :: "('b, 'h, 'n) snow \<Rightarrow> bytes list \<Rightarrow> ('n secure_transport, unit, network_error) io" where
  "st_send_all sn [] = return_io ()"
| "st_send_all sn (m # ms) = bind_io (st_send sn m) (\<lambda>_. st_send_all sn ms)"

fun st_recv_n :: "('b, 'h, 'n) snow \<Rightarrow> nat \<Rightarrow> 'n secure_transport
   \<Rightarrow> (bytes option, network_error) result list \<times> 'n secure_transport" where
  "st_recv_n sn 0 t = ([], t)"
| "st_recv_n sn (Suc n) t =
     (case st_recv sn t of (r, t') \<Rightarrow> case st_recv_n sn n t' of (rs, t'') \<Rightarrow> (r # rs, t''))"

lemma st_recv_end:
  assumes "open_socket (st_stream t)" and "unread t = []"
  shows "\<exists>t'. st_recv sn t = (Ok None, t')"
proof -
  obtain t1 where "fill 4 t = (Ok False, t1)" "st_read_buf t1 = []"
    using fill_open [OF assms(1), of 4] assms(2) by auto
  then show ?thesis by (simp add: st_recv_def bind_io_def FRAME_HEADER_SIZE_def)
qed

lemma secure_stream:
  assumes "noise_channel sn R" "\<forall>m\<in>set ms. length m + 16 \<le> 65535"
    and "\<forall>n. sk_write_fault (st_stream t) n = None" "R (ns_transport (st_session t)) (ns_transport (st_session u))"
    and "open_socket (st_stream u)" "sk_out (st_stream t) @ unread u = sk_out (st_stream (snd (st_send_all sn ms t)))"
  shows "fst (st_send_all sn ms t) = Ok () \<and> fst (st_recv_n sn (length ms + 1) u) = map (Ok \<circ> Some) ms @ [Ok None]"
  using assms(2-)
proof (induction ms arbitrary: t u)
  case Nil
  then have "unread u = []" by (simp add: return_io_def)
  with st_recv_end [OF Nil.prems(4) this, of sn] show ?case by (auto simp: return_io_def)
next
  case (Cons m ms)
  obtain c a' b' where w: "sn_write_message sn (ns_transport (st_session t)) m (length m + 16) = (Ok c, a')"
    and lc: "length c = length m + 16" "length c \<le> 65535"
    and rd: "sn_read_message sn (ns_transport (st_session u)) c (length c) = (Ok m, b')" and R: "R a' b'"
    using assms(1) Cons.prems(1,3) unfolding noise_channel_def by fastforce
  let ?f = "be_bytes 4 (length c) @ c"
  define t1 where "t1 = snd (st_send sn m t)"
  have send: "st_send sn m t = (Ok (), t1)" and out: "sk_out (st_stream t1) = sk_out (st_stream t) @ ?f"
    and t1: "\<forall>n. sk_write_fault (st_stream t1) n = None" "ns_transport (st_session t1) = a'"
    using w lc Cons.prems(2) unfolding t1_def
    by (simp_all add: st_send_def on_session_def noise_encrypt_def TAG_LEN_def bind_io_def map_err_io_def
        on_stream_def sock_write_all_def as_u32_def Let_def)
  have grow: "\<exists>ys. sk_out (st_stream (snd (st_send_all sn ms v))) = sk_out (st_stream v) @ ys" for v
  proof (induction ms arbitrary: v)
    case (Cons m ms)
    have one: "\<exists>ys. sk_out (st_stream (snd (st_send sn m v))) = sk_out (st_stream v) @ ys"
      by (auto simp: st_send_def on_session_def bind_io_def map_err_io_def on_stream_def Let_def
          sock_write_all_def split: prod.splits result.splits option.splits)
    show ?case using one Cons [of "snd (st_send sn m v)"]
      by (auto simp: bind_io_def split: prod.splits result.splits)
  qed (simp add: return_io_def)
  obtain ys where ys: "sk_out (st_stream (snd (st_send_all sn ms t1))) = sk_out (st_stream t1) @ ys"
    using grow by blast
  then have u: "unread u = ?f @ ys"
    using Cons.prems(5) send out by (simp add: bind_io_def)
  have hdr: "of_be (take 4 (unread u)) = length c" "take (length c) (drop 4 (unread u)) = c"
    using lc by (simp_all add: u)
  obtain u1 where u1: "st_recv sn u = (Ok (Some m), u1)" "open_socket (st_stream u1)" "unread u1 = ys"
      "ns_transport (st_session u1) = b'"
    using recv_open(2) [OF Cons.prems(4) _ hdr(1), of sn m b'] lc hdr(2) rd u
    by (auto simp: MAX_MESSAGE_SIZE_def)
  have "fst (st_send_all sn ms t1) = Ok () \<and> fst (st_recv_n sn (length ms + 1) u1) = map (Ok \<circ> Some) ms @ [Ok None]"
    using Cons.prems(1) t1 R u1 ys by (intro Cons.IH) auto
  then show ?case using send u1(1) by (auto simp: bind_io_def split: prod.splits)
qed

text \<open>
  C10. The encrypted transport is a reliable message stream: between two ends of a Noise session,
  what one end sends the other receives, message by message, in order, each exactly once,
  however TCP cuts the bytes, and after the last one \<open>recv\<close> reports a clean close.
\<close>

theorem secure_transport_delivers:
  assumes "noise_channel sn R" and "R a b" and "\<forall>m\<in>set ms. length m + 16 \<le> 65535"
    and "\<forall>n. sk_write_fault out n = None" and "sk_out out = []" and "open_socket inp"
    and "incoming inp = sk_out (st_stream (snd (st_send_all sn ms (st_new out \<lparr>ns_transport = a\<rparr>))))"
  shows "fst (st_send_all sn ms (st_new out \<lparr>ns_transport = a\<rparr>)) = Ok ()
    \<and> fst (st_recv_n sn (length ms + 1) (st_new inp \<lparr>ns_transport = b\<rparr>)) = map (Ok \<circ> Some) ms @ [Ok None]"
  by (rule secure_stream [OF assms(1,3)]) (use assms in \<open>simp_all add: st_new_def unread_def incoming_def\<close>)

lemma toy_channel: "noise_channel toy_snow (\<lambda>_ _. True)" "noise_limit toy_snow"
  by (auto simp: noise_channel_def noise_limit_def toy_snow_def)

theorem secure_transport_delivers_witness:
  "\<exists>i. fst (st_recv_n toy_snow (length [[1, 2], [] :: bytes] + 1) (st_new (demo_socket i) \<lparr>ns_transport = []\<rparr>))
     = [Ok (Some [1, 2]), Ok (Some []), Ok None]"
proof -
  let ?out = "sk_out (st_stream (snd (st_send_all toy_snow [[1, 2], []] (st_new (demo_socket []) \<lparr>ns_transport = []\<rparr>))))"
  let ?i = "map (\<lambda>b. Inl [b]) ?out"
  have "clean (map (\<lambda>b. Inl [b]) xs) \<and> joined (map (\<lambda>b. Inl [b]) xs) = xs" for xs :: bytes
    by (induction xs) (auto simp: clean_def)
  then have "open_socket (demo_socket ?i)" "incoming (demo_socket ?i) = ?out"
    by (simp_all add: open_socket_def incoming_def demo_socket_def)
  from secure_transport_delivers [OF toy_channel(1) _ _ _ _ this, of "[]"]
  have "fst (st_recv_n toy_snow (length [[1, 2], [] :: bytes] + 1) (st_new (demo_socket ?i) \<lparr>ns_transport = []\<rparr>))
      = map (Ok \<circ> Some) [[1, 2], []] @ [Ok None]"
    by (simp add: demo_socket_def del: st_send_all.simps st_recv_n.simps)
  then show ?thesis by (intro exI [of _ ?i]) simp
qed

text \<open>
  C34. A connection that breaks inside a frame is never mistaken for a clean close or a message:
  with an incomplete header or body left when the peer closes, \<open>recv\<close> returns \<open>ConnectionReset\<close>;
  it reports a clean close exactly when not a single byte is left.
\<close>

theorem broken_connection_detected:
  assumes "open_socket (st_stream t)"
  shows "(unread t = [] \<longrightarrow> fst (st_recv sn t) = Ok None)
    \<and> (unread t \<noteq> [] \<and> length (unread t) < 4 \<longrightarrow> fst (st_recv sn t) = Err ConnectionReset)
    \<and> (4 \<le> length (unread t) \<and> of_be (take 4 (unread t)) \<le> MAX_MESSAGE_SIZE
         \<and> length (unread t) < 4 + of_be (take 4 (unread t)) \<longrightarrow> fst (st_recv sn t) = Err ConnectionReset)"
proof -
  have "fst (st_recv sn t) = Ok None" if "unread t = []"
    using st_recv_end [OF assms that, of sn] by auto
  moreover have "fst (st_recv sn t) = Err ConnectionReset" if u: "unread t \<noteq> []" "length (unread t) < 4"
  proof -
    obtain t1 where "fill 4 t = (Ok False, t1)" "st_read_buf t1 = unread t"
      using fill_open [OF assms, of 4] u(2) by auto
    then show ?thesis using u(1) by (simp add: st_recv_def bind_io_def FRAME_HEADER_SIZE_def)
  qed
  moreover have "fst (st_recv sn t) = Err ConnectionReset"
    if "4 \<le> length (unread t)" "of_be (take 4 (unread t)) \<le> MAX_MESSAGE_SIZE"
      "length (unread t) < 4 + of_be (take 4 (unread t))"
    using recv_open(1) [OF assms that(1) refl that(2,3), of sn] by auto
  ultimately show ?thesis by blast
qed

theorem broken_connection_detected_witness:
  "fst (st_recv toy_snow (st_new (demo_socket [Inl [0, 0, 0], Inl [9, 1]]) \<lparr>ns_transport = []\<rparr>))
     = Err ConnectionReset"
proof -
  let ?t = "st_new (demo_socket [Inl [0, 0, 0], Inl [9, 1]]) \<lparr>ns_transport = [] :: bytes\<rparr>"
  have "open_socket (st_stream ?t)"
    by (simp add: st_new_def demo_socket_def open_socket_def clean_def)
  moreover have "unread ?t = [0, 0, 0, 9, 1]"
    by (simp add: st_new_def demo_socket_def unread_def)
  moreover have "of_be [0, 0, 0, 9] = 9" by code_simp
  ultimately show ?thesis
    using broken_connection_detected [of ?t toy_snow] by (simp add: MAX_MESSAGE_SIZE_def)
qed

text \<open>
  C36. A Noise message holds at most 65535 bytes, but the default chunk is 256 KiB: a chunk
  message with more than 65519 bytes of data can never be sent. \<open>send\<close> fails before a byte
  reaches the socket, so a transfer with the default chunk size works only for files that small.
\<close>

theorem default_chunk_cannot_be_sent:
  assumes "noise_limit sn" and "\<And>cid d bs. serialize (ChunkData cid d) = Ok bs \<Longrightarrow> length d \<le> length bs"
    and "65519 < length d"
  shows "\<not> is_ok (fst (codec_send sn serialize (ChunkData cid d) t))
    \<and> st_stream (snd (codec_send sn serialize (ChunkData cid d) t)) = st_stream t"
proof (cases "serialize (ChunkData cid d)")
  case (Ok bs)
  then have "65535 < length bs + 16" using assms(2) [OF Ok] assms(3) by simp
  then obtain e a where "sn_write_message sn (ns_transport (st_session t)) bs (length bs + 16) = (Err e, a)"
    using assms(1) unfolding noise_limit_def by blast
  then show ?thesis using Ok
    by (simp add: codec_send_def st_send_def on_session_def noise_encrypt_def TAG_LEN_def bind_io_def
        map_err_io_def lift_io_def)
qed (simp_all add: codec_send_def bind_io_def lift_io_def)

theorem default_chunk_cannot_be_sent_witness:
  "\<not> is_ok (fst (codec_send toy_snow (\<lambda>m. case m of ChunkData _ d \<Rightarrow> Ok d | _ \<Rightarrow> Err ''unsupported'')
     (ChunkData \<lparr>ci_file_index = 0, ci_chunk_offset = 0\<rparr> (replicate DEFAULT_CHUNK_SIZE 0))
     (st_new (demo_socket []) \<lparr>ns_transport = []\<rparr>)))"
  using default_chunk_cannot_be_sent [OF toy_channel(2),
      of "\<lambda>m. case m of ChunkData _ d \<Rightarrow> Ok d | _ \<Rightarrow> Err ''unsupported''" "replicate DEFAULT_CHUNK_SIZE 0"]
  by (simp add: DEFAULT_CHUNK_SIZE_def)

lemma retry_loop_result:
  assumes "retry_loop addr dial [a..<b] prev = (r, n)" and "a \<le> b"
  shows "(\<exists>k s. a \<le> k \<and> k < b \<and> connect addr dial k = Ok s \<and> r = Ok s \<and> n = k + 1 - max 1 a
           \<and> (\<forall>j. a \<le> j \<and> j < k \<longrightarrow> \<not> is_ok (connect addr dial j)))
       \<or> ((\<forall>j. a \<le> j \<and> j < b \<longrightarrow> \<not> is_ok (connect addr dial j)) \<and> n = b - max 1 a
           \<and> r = (if a = b then Err (case prev of Some e \<Rightarrow> e | None \<Rightarrow> Timeout addr)
                  else connect addr dial (b - 1)))"
  using assms
proof (induction "b - a" arbitrary: a prev r n)
  case 0
  then show ?case by auto
next
  case (Suc k)
  then have ab: "a < b" and split: "[a..<b] = a # [Suc a..<b]" by (simp_all add: upt_conv_Cons)
  show ?case
  proof (cases "connect addr dial a")
    case (Ok s)
    then show ?thesis using Suc.prems(1) ab unfolding split by (intro disjI1 exI [of _ a] exI [of _ s]) auto
  next
    case (Err e)
    obtain r' n' where rec: "retry_loop addr dial [Suc a..<b] (Some e) = (r', n')" by fastforce
    then have r: "r = r'" "n = (if 0 < a then 1 else 0) + n'"
      using Suc.prems(1) Err unfolding split by auto
    have skip: "\<forall>j. a \<le> j \<and> j < i \<longrightarrow> \<not> is_ok (connect addr dial j)"
      if "\<forall>j. Suc a \<le> j \<and> j < i \<longrightarrow> \<not> is_ok (connect addr dial j)" for i
      using that Err by (metis Suc_leI is_ok.simps(2) le_neq_implies_less)
    have "k = b - Suc a" "Suc a \<le> b" using Suc.hyps(2) ab by simp_all
    from Suc.hyps(1) [OF this(1) rec this(2)] show ?thesis
    proof
      assume "\<exists>k s. Suc a \<le> k \<and> k < b \<and> connect addr dial k = Ok s \<and> r' = Ok s
        \<and> n' = k + 1 - max 1 (Suc a) \<and> (\<forall>j. Suc a \<le> j \<and> j < k \<longrightarrow> \<not> is_ok (connect addr dial j))"
      then obtain i s where i: "Suc a \<le> i" "i < b" "connect addr dial i = Ok s" "r' = Ok s"
        "n' = i + 1 - max 1 (Suc a)" "\<forall>j. Suc a \<le> j \<and> j < i \<longrightarrow> \<not> is_ok (connect addr dial j)" by blast
      then show ?thesis using r skip [OF i(6)] by (intro disjI1 exI [of _ i] exI [of _ s]) auto
    next
      assume *: "(\<forall>j. Suc a \<le> j \<and> j < b \<longrightarrow> \<not> is_ok (connect addr dial j)) \<and> n' = b - max 1 (Suc a)
        \<and> r' = (if Suc a = b then Err (case Some e of Some e \<Rightarrow> e | None \<Rightarrow> Timeout addr)
                else connect addr dial (b - 1))"
      then have "r' = connect addr dial (b - 1)" using Err by (cases "Suc a = b") auto
      then show ?thesis using * r skip [of b] ab by (intro disjI2) auto
    qed
  next
    case Panic
    then show ?thesis by (simp add: connect_def split: dial.splits option.splits)
  qed
qed

text \<open>
  Connecting with retries tries at most \<open>max_retries + 1\<close> times, returns the stream of the first
  attempt that succeeds after one delay per earlier failure, and fails, with the error of the last
  attempt, exactly when all attempts fail.
\<close>

theorem retry_first_success:
  "\<exists>r n. connect_with_retry addr dial max_retries = (r, n) \<and> n \<le> max_retries \<and>
     ((\<exists>k s. k \<le> max_retries \<and> connect addr dial k = Ok s \<and> r = Ok s \<and> n = k
         \<and> (\<forall>j. j < k \<longrightarrow> \<not> is_ok (connect addr dial j)))
      \<or> (\<not> is_ok r \<and> r = connect addr dial max_retries \<and> n = max_retries
         \<and> (\<forall>j. j \<le> max_retries \<longrightarrow> \<not> is_ok (connect addr dial j))))"
proof -
  obtain r n where rn: "retry_loop addr dial [0..<max_retries + 1] None = (r, n)" by fastforce
  from retry_loop_result [OF rn] show ?thesis
    using rn by (auto simp: connect_with_retry_def less_Suc_eq_le)
qed

theorem retry_first_success_witness:
  "\<exists>s. connect_with_retry ''p'' (\<lambda>n. if n = 1 then Dialled (demo_socket []) None else TimedOut) 3 = (Ok s, 1)"
  using retry_first_success [of "''p''" "\<lambda>n. if n = 1 then Dialled (demo_socket []) None else TimedOut" 3]
  by (auto simp: connect_def split: if_splits)

end
