(* ===== verification/Progress.thy ===== *)
theory Progress
  imports Core_Types
begin

text \<open>
  Progress for display: the fraction and the percentage of a transfer and the text of a byte count
  (\<open>crates/justdrop-core/src/types.rs\<close>), computed in floating point.
\<close>

definition fraction :: "transfer_progress \<Rightarrow> rat" where
  "fraction p =
     (if tp_total_bytes p = 0 then 1
      else f64 (as_f64 (tp_bytes_transferred p) / as_f64 (tp_total_bytes p)))"

definition percent :: "transfer_progress \<Rightarrow> nat" where
  "percent p = f64_as_u8 (min (f64 (fraction p * 100)) 100)"

text \<open>\<open>{:.2}\<close> prints the decimal with two digits that is nearest to the value, the even one on a tie.\<close>

definition fixed2 :: "rat \<Rightarrow> string" where
  "fixed2 x =
     (let n = nat (half_even (x * 100))
      in show_nat (n div 100) @ ''.'' @ [digit_char (n div 10 mod 10), digit_char (n mod 10)])"

definition format_bytes :: "u64 \<Rightarrow> string" where
  "format_bytes b =
     (if 1024 ^ 4 \<le> b then fixed2 (f64 (as_f64 b / as_f64 (1024 ^ 4))) @ '' TiB''
      else if 1024 ^ 3 \<le> b then fixed2 (f64 (as_f64 b / as_f64 (1024 ^ 3))) @ '' GiB''
      else if 1024 ^ 2 \<le> b then fixed2 (f64 (as_f64 b / as_f64 (1024 ^ 2))) @ '' MiB''
      else if 1024 \<le> b then fixed2 (f64 (as_f64 b / as_f64 1024)) @ '' KiB''
      else show_nat b @ '' B'')"

section \<open>Facts\<close>

lemma f64_one: "f64 1 = 1" and f64_hundred: "f64 100 = 100"
  using f64_exact [of 1 0] f64_exact [of 100 0] by simp_all

lemma as_f64_pos: "0 < n \<Longrightarrow> 0 < as_f64 n"
  using as_f64_mono [of 1 n] as_f64_exact [of 1] by simp

lemma floor_min_hundred: "\<lfloor>min x 100\<rfloor> \<le> (100 :: int)" for x :: rat
  by (simp add: floor_le_iff min_def)

lemma percent_eq: "percent p = nat \<lfloor>min (f64 (fraction p * 100)) 100\<rfloor>"
  using floor_min_hundred [of "f64 (fraction p * 100)"] by (simp add: percent_def f64_as_u8_def min_absorb1 nat_le_iff)

lemma percent_le: "percent p \<le> 100"
  using floor_min_hundred [of "f64 (fraction p * 100)"] by (simp add: percent_eq nat_le_iff)

lemma percent_complete:
  assumes "tp_total_bytes p \<le> tp_bytes_transferred p" shows "percent p = 100"
proof -
  have "1 \<le> fraction p"
  proof (cases "tp_total_bytes p = 0")
    case False
    then have "0 < as_f64 (tp_total_bytes p)" by (simp add: as_f64_pos)
    then have "1 \<le> as_f64 (tp_bytes_transferred p) / as_f64 (tp_total_bytes p)"
      using as_f64_mono [OF assms] by (simp add: le_divide_eq)
    from f64_mono [OF this] False show ?thesis by (simp add: fraction_def f64_one)
  qed (simp add: fraction_def)
  then have "f64 100 \<le> f64 (fraction p * 100)" by (intro f64_mono) simp
  then show ?thesis by (simp add: percent_eq f64_hundred)
qed

text \<open>The largest product below 100 is the float before 100.\<close>

lemma f64_below_hundred: "f64 (100 - 100 / 2 ^ 53) = 100 - 1 / 2 ^ 46"
proof -
  let ?y = "100 - 100 / 2 ^ 53 :: rat"
  have "binary_exp ?y = 6" by (rule binary_exp_unique) (simp_all add: power_int_def)
  then have u: "f64 ?y = of_int (half_even (?y / 2 powi (- 46))) * 2 powi (- 46)" by (simp add: f64_def)
  have q: "?y / 2 powi (- 46) = of_int (100 * 2 ^ 46 - 1) + 7 / 32" by (simp add: power_int_def power_divide)
  have "\<lfloor>rat_of_int (100 * 2 ^ 46 - 1) + 7 / 32\<rfloor> = 100 * 2 ^ 46 - 1" by (rule floor_unique) simp_all
  then have "half_even (?y / 2 powi (- 46)) = 100 * 2 ^ 46 - 1" unfolding q by (simp add: half_even_def)
  then show ?thesis unfolding u by (simp add: power_int_def power_divide)
qed

lemma percent_incomplete:
  assumes "tp_bytes_transferred p < tp_total_bytes p" "tp_total_bytes p < 2 ^ 53" shows "percent p < 100"
proof -
  define b t where "b = tp_bytes_transferred p" and "t = tp_total_bytes p"
  have bt: "b < t" "t < 2 ^ 53" using assms by (simp_all add: b_def t_def)
  have e: "as_f64 b = of_nat b" "as_f64 t = of_nat t" using bt by (simp_all add: as_f64_exact)
  have "rat_of_nat t \<le> 2 ^ 53" using bt(2) by (metis less_imp_le of_nat_le_iff of_nat_numeral of_nat_power)
  moreover have "rat_of_nat b \<le> of_nat t - 1" using bt(1) by (metis Suc_leI add_le_imp_le_diff of_nat_Suc of_nat_le_iff add.commute)
  ultimately have "rat_of_nat b / of_nat t \<le> 1 - 1 / 2 ^ 53" using bt(1)
    by (simp add: field_simps)
  also have "\<dots> = of_nat (2 ^ 53 - 1) * 2 powi (- 53)" by (simp add: power_int_def power_divide)
  finally have "f64 (of_nat b / of_nat t) \<le> of_nat (2 ^ 53 - 1) * 2 powi (- 53)"
    using f64_mono f64_exact [of "2 ^ 53 - 1" "- 53"] by fastforce
  then have "fraction p \<le> 1 - 1 / 2 ^ 53" using bt e by (simp add: fraction_def b_def t_def power_int_def power_divide)
  then have "fraction p * 100 \<le> 100 - 100 / 2 ^ 53" by simp
  from f64_mono [OF this] have "f64 (fraction p * 100) < 100" unfolding f64_below_hundred by simp
  then show ?thesis using f64_nonneg [of "fraction p * 100"] by (simp add: percent_eq nat_less_iff floor_less_iff)
qed

lemma percent_mono:
  assumes "b \<le> c" shows "percent (p\<lparr>tp_bytes_transferred := b\<rparr>) \<le> percent (p\<lparr>tp_bytes_transferred := c\<rparr>)"
proof -
  let ?x = "fraction (p\<lparr>tp_bytes_transferred := b\<rparr>)" and ?y = "fraction (p\<lparr>tp_bytes_transferred := c\<rparr>)"
  have "?x \<le> ?y"
    using as_f64_mono [OF assms] as_f64_pos [of "tp_total_bytes p"]
    by (auto simp: fraction_def intro!: f64_mono divide_right_mono)
  then have "f64 (?x * 100) \<le> f64 (?y * 100)" by (intro f64_mono) simp
  then have "\<lfloor>min (f64 (?x * 100)) 100\<rfloor> \<le> \<lfloor>min (f64 (?y * 100)) 100\<rfloor>" by (intro floor_mono) (simp add: min.coboundedI1 min_def)
  then show ?thesis by (simp add: percent_eq nat_mono)
qed

text \<open>
  C40. The percentage can be trusted: it is at most 100, never falls while bytes arrive, and, for
  transfers of less than \<open>2 ^ 53\<close> bytes, is 100 exactly when every byte has been transferred, in spite of
  two roundings.
\<close>

theorem percent_hundred_when_done:
  "percent p \<le> 100
     \<and> (tp_bytes_transferred p \<le> c \<longrightarrow> percent p \<le> percent (p\<lparr>tp_bytes_transferred := c\<rparr>))
     \<and> (tp_total_bytes p < 2 ^ 53 \<longrightarrow> percent p = 100 \<longleftrightarrow> tp_total_bytes p \<le> tp_bytes_transferred p)"
proof -
  have "percent p \<noteq> 100" if "\<not> tp_total_bytes p \<le> tp_bytes_transferred p" "tp_total_bytes p < 2 ^ 53"
    using percent_incomplete [of p] that by simp
  then show ?thesis
    using percent_le [of p] percent_complete [of p] percent_mono [of "tp_bytes_transferred p" c p] by auto
qed

definition demo_progress :: transfer_progress where
  "demo_progress = \<lparr>tp_transfer_id = ''t'', tp_state = Transferring, tp_bytes_transferred = 999999999999,
     tp_total_bytes = 1000000000000, tp_current_file_index = 0, tp_total_files = 1, tp_speed_bps = 0, tp_eta_secs = None\<rparr>"

theorem percent_hundred_when_done_witness:
  "percent demo_progress < 100 \<and> percent (demo_progress\<lparr>tp_bytes_transferred := 1000000000000\<rparr>) = 100"
proof -
  have "\<not> tp_total_bytes demo_progress \<le> tp_bytes_transferred demo_progress" "tp_total_bytes demo_progress < 2 ^ 53"
    by (simp_all add: demo_progress_def)
  then have "percent demo_progress < 100" using percent_hundred_when_done [of demo_progress 0] by (meson le_neq_implies_less)
  then show ?thesis using percent_hundred_when_done [of "demo_progress\<lparr>tp_bytes_transferred := 1000000000000\<rparr>"]
    by (simp add: demo_progress_def)
qed

lemma half_even_numeral: "half_even (numeral n) = numeral n"
  using half_even_of_int [of "numeral n"] by simp

lemma format_examples: "format_bytes 1023 = ''1023 B''" "format_bytes 1536 = ''1.50 KiB''"
proof -
  have f: "f64 (3 / 2) = 3 / 2" using f64_exact [of 3 "- 1"] by (simp add: power_int_def)
  have "format_bytes 1536 = fixed2 (f64 (3 / 2)) @ '' KiB''" by (simp add: format_bytes_def as_f64_exact)
  moreover have "fixed2 (3 / 2) = ''1.50''" by (simp add: fixed2_def half_even_numeral show_nat.simps digit_char_def)
  ultimately show "format_bytes 1536 = ''1.50 KiB''" unfolding f by simp
  show "format_bytes 1023 = ''1023 B''" by (simp add: format_bytes_def show_nat.simps digit_char_def)
qed

end
