(* ===== verification/File_Transfer.thy ===== *)
theory File_Transfer
  imports Chunker Writer Resume Messages Config Transport Progress
begin

text \<open>
  \<open>crates/justdrop-protocol/src/transfer.rs\<close>: the sender and the receiver of a transfer. The two
  handshake helpers run on a socket. The flows themselves run on a world: the file system, the
  codec seen as the messages the peer will send and the messages sent to it (what the encrypted
  transport provides), the events emitted, the user's decision and the time elapsed.
\<close>

section \<open>Handshake helpers\<close>

definition snow_params :: "('b, 'h, 'n) snow \<Rightarrow> (unit, protocol_error) result" where
  "snow_params sn = map_err (\<lambda>e. Serialization (''noise params: '' @ e)) (sn_parse_params sn NOISE_PARAMS)"

definition raw_hs_write ::
  "('b, 'h, 'n) snow \<Rightarrow> string \<Rightarrow> 'h \<Rightarrow> (bytes, protocol_error) result \<times> 'h" where
  "raw_hs_write sn step h = (case sn_hs_write sn h [] 65535 of
       (r, h') \<Rightarrow> (map_err (\<lambda>e. Serialization (step @ e)) r, h'))"

definition raw_hs_read ::
  "('b, 'h, 'n) snow \<Rightarrow> string \<Rightarrow> bytes \<Rightarrow> 'h \<Rightarrow> (bytes, protocol_error) result \<times> 'h" where
  "raw_hs_read sn step msg h = (case sn_hs_read sn h msg 65535 of
       (r, h') \<Rightarrow> (map_err (\<lambda>e. Deserialization (step @ e)) r, h'))"

text \<open>The stream moves into the transport at the end, with an empty read buffer.\<close>

definition into_codec :: "('b, 'h, 'n) snow \<Rightarrow> 'h \<Rightarrow> (socket, 'n secure_transport, protocol_error) io" where
  "into_codec sn h s =
     (case map_err (\<lambda>e. Serialization (''hs transport: '' @ e)) (sn_into_transport sn h) of
        Ok t \<Rightarrow> (Ok (st_new s \<lparr>ns_transport = t\<rparr>), s)
      | Err e \<Rightarrow> (Err e, s)
      | Panic \<Rightarrow> (Panic, s))"

definition handshake_initiator ::
  "('b, 'h, 'n) snow \<Rightarrow> bytes \<Rightarrow> (socket, 'n secure_transport, protocol_error) io" where
  "handshake_initiator sn private_key =
     bind_io (lift_io (snow_params sn)) (\<lambda>_.
     bind_io (lift_io (map_err (\<lambda>e. Serialization (''noise key: '' @ e)) (sn_local_private_key sn private_key))) (\<lambda>b.
     bind_io (lift_io (map_err (\<lambda>e. Serialization (''noise build: '' @ e)) (sn_build_initiator sn b))) (\<lambda>h0.
     case raw_hs_write sn ''hs msg1: '' h0 of (r1, h1) \<Rightarrow>
     bind_io (lift_io r1) (\<lambda>msg1.
     bind_io (write_raw_frame msg1) (\<lambda>_.
     bind_io read_raw_frame (\<lambda>msg2.
     case raw_hs_read sn ''hs msg2: '' msg2 h1 of (r2, h2) \<Rightarrow>
     bind_io (lift_io r2) (\<lambda>_.
     case raw_hs_write sn ''hs msg3: '' h2 of (r3, h3) \<Rightarrow>
     bind_io (lift_io r3) (\<lambda>msg3.
     bind_io (write_raw_frame msg3) (\<lambda>_.
     into_codec sn h3)))))))))"

definition handshake_responder ::
  "('b, 'h, 'n) snow \<Rightarrow> bytes \<Rightarrow> (socket, 'n secure_transport, protocol_error) io" where
  "handshake_responder sn private_key =
     bind_io (lift_io (snow_params sn)) (\<lambda>_.
     bind_io (lift_io (map_err (\<lambda>e. Serialization (''noise key: '' @ e)) (sn_local_private_key sn private_key))) (\<lambda>b.
     bind_io (lift_io (map_err (\<lambda>e. Serialization (''noise build: '' @ e)) (sn_build_responder sn b))) (\<lambda>h0.
     bind_io read_raw_frame (\<lambda>msg1.
     case raw_hs_read sn ''hs msg1: '' msg1 h0 of (r1, h1) \<Rightarrow>
     bind_io (lift_io r1) (\<lambda>_.
     case raw_hs_write sn ''hs msg2: '' h1 of (r2, h2) \<Rightarrow>
     bind_io (lift_io r2) (\<lambda>msg2.
     bind_io (write_raw_frame msg2) (\<lambda>_.
     bind_io read_raw_frame (\<lambda>msg3.
     case raw_hs_read sn ''hs msg3: '' msg3 h2 of (r3, h3) \<Rightarrow>
     bind_io (lift_io r3) (\<lambda>_.
     into_codec sn h3)))))))))"

section \<open>The world of a transfer\<close>

datatype transfer_event =
    EvIncomingRequest transfer_id transfer_manifest string
  | EvProgress transfer_progress
  | EvCompleted transfer_id transfer_direction
  | EvFailed transfer_id string
  | EvCancelled transfer_id

datatype decision = DecideAccept | DecideReject string

text \<open>
  \<open>wd_inbox\<close> is what successive calls of \<open>recv\<close> on the codec return; when it is used up the peer has
  closed. \<open>wd_tx_fault\<close> says which \<open>send\<close> fails, \<open>wd_elapsed\<close> the seconds and
  nanoseconds since the start at each event.
\<close>

record world = fs +
  wd_connect :: "(unit, network_error) result"
  wd_handshake :: "(unit, protocol_error) result"
  wd_inbox :: "(message option, protocol_error) result list"
  wd_outbox :: "message list"
  wd_tx_fault :: "nat \<Rightarrow> protocol_error option"
  wd_shutdown :: "(unit, protocol_error) result"
  wd_events :: "transfer_event list"
  wd_decision :: "decision option"
  wd_elapsed :: "nat \<Rightarrow> nat \<times> nat"

text \<open>Libraries and surroundings that the flows use.\<close>

record lib =
  lb_sha256 :: "bytes \<Rightarrow> sha256_hash"
  lb_serialize_manifest :: "transfer_manifest \<Rightarrow> bytes option"
  lb_debug :: "message option \<Rightarrow> string"
  lb_to_json :: "transfer_resume_state \<Rightarrow> (bytes, string) result"
  lb_from_json :: "bytes \<Rightarrow> (transfer_resume_state, string) result"
  lb_home :: "path option"
  lb_data_base :: "path option"
  lb_host :: host_env
  lb_target_os :: string
  lb_transfer_id :: uuid
  lb_fresh_uuid :: "nat \<Rightarrow> uuid"
  lb_now :: int

definition tx :: "message \<Rightarrow> (world, unit, protocol_error) io" where
  "tx m w = (case wd_tx_fault w (length (wd_outbox w)) of
       None \<Rightarrow> (Ok (), w\<lparr>wd_outbox := wd_outbox w @ [m]\<rparr>)
     | Some e \<Rightarrow> (Err e, w))"

definition rx :: "(world, message option, protocol_error) io" where
  "rx w = (case wd_inbox w of [] \<Rightarrow> (Ok None, w) | r # rs \<Rightarrow> (r, w\<lparr>wd_inbox := rs\<rparr>))"

definition emit :: "transfer_event \<Rightarrow> (world, unit, protocol_error) io" where
  "emit ev w = (Ok (), w\<lparr>wd_events := wd_events w @ [ev]\<rparr>)"

text \<open>The progress event that both flows send after a chunk.\<close>

definition emit_progress :: "transfer_manifest \<Rightarrow> u32 \<Rightarrow> u64 \<Rightarrow> (world, unit, protocol_error) io" where
  "emit_progress m file_index done w =
     (let elapsed = max (as_secs_f64 (wd_elapsed w (length (wd_events w)))) (f64 (1 / 1000));
          speed_bps = f64_as_u64 (f64 (as_f64 done / elapsed));
          remaining = saturating_sub (mf_total_size m) done;
          eta = checked_div remaining speed_bps
      in emit (EvProgress \<lparr>tp_transfer_id = mf_transfer_id m, tp_state = Transferring,
           tp_bytes_transferred = done, tp_total_bytes = mf_total_size m,
           tp_current_file_index = file_index, tp_total_files = as_u32 (length (mf_files m)),
           tp_speed_bps = speed_bps, tp_eta_secs = eta\<rparr>) w)"

section \<open>Helper functions\<close>

fun chunk_base :: "file_entry list \<Rightarrow> u32 \<Rightarrow> u32 \<Rightarrow> u64 \<Rightarrow> (u64, 'e) result" where
  "chunk_base [] cs file_index acc = Ok acc"
| "chunk_base (f # fs) cs file_index acc =
     (if fe_index f = file_index then Ok acc
      else bind_res (chunk_count f cs) (\<lambda>n. chunk_base fs cs file_index (add64 acc n)))"

definition global_chunk_offset :: "transfer_manifest \<Rightarrow> u32 \<Rightarrow> u64 \<Rightarrow> (u64, 'e) result" where
  "global_chunk_offset m file_index chunk_offset =
     bind_res (chunk_base (mf_files m) (mf_chunk_size m) file_index 0) (\<lambda>g. Ok (add64 g chunk_offset))"

definition compute_manifest_hash :: "lib \<Rightarrow> transfer_manifest \<Rightarrow> sha256_hash" where
  "compute_manifest_hash lb m =
     lb_sha256 lb (case lb_serialize_manifest lb m of Some d \<Rightarrow> d | None \<Rightarrow> [])"

definition to_lower :: "char \<Rightarrow> char" where
  "to_lower c = (if 65 \<le> (of_char c :: nat) \<and> (of_char c :: nat) \<le> 90 then char_of (of_char c + 32 :: nat) else c)"

definition mime_from_path :: "path \<Rightarrow> string" where
  "mime_from_path p =
     (let ext = map to_lower (case extension p of Some e \<Rightarrow> e | None \<Rightarrow> [])
      in if ext = ''txt'' then ''text/plain''
         else if ext = ''html'' \<or> ext = ''htm'' then ''text/html''
         else if ext = ''pdf'' then ''application/pdf''
         else if ext = ''zip'' then ''application/zip''
         else if ext = ''png'' then ''image/png''
         else if ext = ''jpg'' \<or> ext = ''jpeg'' then ''image/jpeg''
         else if ext = ''gif'' then ''image/gif''
         else if ext = ''mp4'' then ''video/mp4''
         else if ext = ''mov'' then ''video/quicktime''
         else if ext = ''mp3'' then ''audio/mpeg''
         else if ext = ''json'' then ''application/json''
         else if ext = ''apk'' then ''application/vnd.android.package-archive''
         else if ext = ''dmg'' then ''application/x-apple-diskimage''
         else ''application/octet-stream'')"

end
