(* ===== verification/Send.thy ===== *)
theory Send
  imports File_Transfer
begin

text \<open>
  The sender of \<open>crates/justdrop-protocol/src/transfer.rs\<close>, \<open>SendTransfer::send_files\<close>: the manifest,
  the negotiation, the chunks one by one with an acknowledgement each, the completion.
\<close>

section \<open>The flow\<close>

definition ser_io :: "string \<Rightarrow> ('s, 'a, storage_error) io \<Rightarrow> ('s, 'a, protocol_error) io" where
  "ser_io what = map_err_io (\<lambda>e. Serialization (what @ storage_display e))"

fun build_entries :: "lib \<Rightarrow> nat \<Rightarrow> path list \<Rightarrow> (world, file_entry list, protocol_error) io" where
  "build_entries lb i [] = return_io []"
| "build_entries lb i (p # ps) =
     bind_io (map_err_io (\<lambda>e. Serialization (''file metadata: '' @ io_display e)) (fs_len p)) (\<lambda>len.
     bind_io (ser_io ''file hash: '' (hash_file (lb_sha256 lb) p)) (\<lambda>sha256.
     let entry = \<lparr>fe_index = as_u32 i,
                  fe_relative_path = (case file_name p of Some n \<Rightarrow> n | None \<Rightarrow> ''file''),
                  fe_size = len, fe_sha256 = sha256, fe_mime_type = mime_from_path p\<rparr>
     in bind_io (build_entries lb (Suc i) ps) (\<lambda>es. return_io (entry # es))))"

definition await_response ::
  "lib \<Rightarrow> transfer_manifest \<Rightarrow> (world, u64 list, protocol_error) io" where
  "await_response lb m =
     bind_io rx (\<lambda>response.
       case response of
         Some (TransferResponse Accept) \<Rightarrow> return_io []
       | Some (TransferResponse (ResumeAt received_chunks)) \<Rightarrow>
           bind_io (lift_io (total_chunks m)) (\<lambda>n. return_io (decode_received_bitmap received_chunks n))
       | Some (TransferResponse (Reject reason)) \<Rightarrow> fail_io (Rejected reason)
       | other \<Rightarrow> fail_io (UnexpectedMessage ''Negotiating'' (lb_debug lb other)))"

definition await_ack :: "lib \<Rightarrow> (world, unit, protocol_error) io" where
  "await_ack lb =
     bind_io rx (\<lambda>response.
       case response of
         Some (ChunkAck ack) \<Rightarrow> return_io ()
       | Some (Cancel reason) \<Rightarrow> fail_io (CancelledBy reason)
       | other \<Rightarrow> fail_io (UnexpectedMessage ''Transferring'' (lb_debug lb other)))"

fun send_chunks ::
  "lib \<Rightarrow> transfer_manifest \<Rightarrow> u64 list \<Rightarrow> nat \<Rightarrow> file_chunker \<Rightarrow> u32 \<Rightarrow> u64 list \<Rightarrow> u64
   \<Rightarrow> (world, u64, protocol_error) io" where
  "send_chunks lb m skip file_idx chunker effective_cs [] bytes_sent = return_io bytes_sent"
| "send_chunks lb m skip file_idx chunker effective_cs (off # offs) bytes_sent =
     bind_io (lift_io (global_chunk_offset m (as_u32 file_idx) off)) (\<lambda>global_offset.
     if global_offset \<in> set skip
     then send_chunks lb m skip file_idx chunker effective_cs offs (add64 bytes_sent effective_cs)
     else
       bind_io (ser_io ''read chunk: '' (read_chunk (lb_sha256 lb) chunker off)) (\<lambda>chunk.
       bind_io (tx (ChunkData \<lparr>ci_file_index = as_u32 file_idx, ci_chunk_offset = off\<rparr> (rc_data chunk))) (\<lambda>_.
       bind_io (await_ack lb) (\<lambda>_.
       let bytes_sent = add64 bytes_sent (length (rc_data chunk))
       in bind_io (emit_progress m (as_u32 file_idx) bytes_sent) (\<lambda>_.
          send_chunks lb m skip file_idx chunker effective_cs offs bytes_sent)))))"

fun send_file_loop ::
  "lib \<Rightarrow> transfer_manifest \<Rightarrow> u32 \<Rightarrow> u64 list \<Rightarrow> nat \<Rightarrow> (file_entry \<times> path) list \<Rightarrow> u64
   \<Rightarrow> (world, u64, protocol_error) io" where
  "send_file_loop lb m cs skip file_idx [] bytes_sent = return_io bytes_sent"
| "send_file_loop lb m cs skip file_idx ((entry, p) # rest) bytes_sent =
     (let effective_cs = effective_chunk_size (fe_size entry) cs
      in bind_io (ser_io ''chunker: '' (chunker_open p (as_u32 file_idx) effective_cs)) (\<lambda>chunker.
         bind_io (lift_io (chunker_chunk_count chunker)) (\<lambda>n.
         bind_io (send_chunks lb m skip file_idx chunker effective_cs [0..<n] bytes_sent) (\<lambda>sent.
         send_file_loop lb m cs skip (Suc file_idx) rest sent))))"

definition await_verification :: "lib \<Rightarrow> transfer_id \<Rightarrow> (world, unit, protocol_error) io" where
  "await_verification lb tid =
     bind_io rx (\<lambda>response.
       case response of
         Some (TransferVerified True _) \<Rightarrow> emit (EvCompleted tid Sending)
       | Some (TransferVerified False error) \<Rightarrow>
           fail_io (CancelledBy (case error of Some e \<Rightarrow> e | None \<Rightarrow> ''verification failed''))
       | other \<Rightarrow> fail_io (UnexpectedMessage ''Verifying'' (lb_debug lb other)))"

text \<open>Steps 7 and 8, and the shutdown; before them steps 5 and 6; before them steps 1 to 4.\<close>

definition send_completion :: "lib \<Rightarrow> transfer_manifest \<Rightarrow> (world, transfer_id, protocol_error) io" where
  "send_completion lb m =
     bind_io (tx (TransferComplete (compute_manifest_hash lb m))) (\<lambda>_.
     bind_io (await_verification lb (mf_transfer_id m)) (\<lambda>_.
     bind_io (\<lambda>w. (wd_shutdown w, w)) (\<lambda>_.
     return_io (mf_transfer_id m))))"

definition send_accepted ::
  "lib \<Rightarrow> u32 \<Rightarrow> path list \<Rightarrow> transfer_manifest \<Rightarrow> (world, transfer_id, protocol_error) io" where
  "send_accepted lb chunk_size file_paths m =
     bind_io (await_response lb m) (\<lambda>skip_chunks.
     bind_io (send_file_loop lb m chunk_size skip_chunks 0 (zip (mf_files m) file_paths) 0) (\<lambda>_.
     send_completion lb m))"

definition send_files :: "lib \<Rightarrow> config \<Rightarrow> path list \<Rightarrow> (world, transfer_id, protocol_error) io" where
  "send_files lb config file_paths =
     (let chunk_size = tc_chunk_size (cf_transfer config) in
      bind_io (build_entries lb 0 file_paths) (\<lambda>file_entries.
      let m = manifest_new (lb_transfer_id lb) (current_platform (lb_target_os lb)) file_entries
                (device_name (lb_host lb) config) chunk_size
      in bind_io (\<lambda>w. (map_err (\<lambda>e. Serialization (''connect: '' @ network_display e)) (wd_connect w), w)) (\<lambda>_.
         bind_io (\<lambda>w. (wd_handshake w, w)) (\<lambda>_.
         bind_io (tx (TransferRequest m)) (\<lambda>_.
         send_accepted lb chunk_size file_paths m)))))"

section \<open>What each step leaves\<close>

lemma same_env_world:
  "same_env w w' \<Longrightarrow> wd_inbox w' = wd_inbox w \<and> wd_outbox w' = wd_outbox w \<and> wd_events w' = wd_events w
     \<and> wd_tx_fault w' = wd_tx_fault w \<and> wd_connect w' = wd_connect w \<and> wd_handshake w' = wd_handshake w
     \<and> wd_shutdown w' = wd_shutdown w"
  by (auto simp: same_env_def)

lemma ser_io_env: "same_env s (snd (m s)) \<Longrightarrow> same_env s (snd (ser_io what m s))"
  by (simp add: ser_io_def map_err_io_env)

lemma content_world [simp]:
  "content (w\<lparr>wd_outbox := a\<rparr>) = content w" "content (w\<lparr>wd_inbox := b\<rparr>) = content w"
  "content (w\<lparr>wd_events := c\<rparr>) = content w"
  by (simp_all add: content_def fun_eq_iff)

lemma healthy_world [simp]:
  "healthy (w\<lparr>wd_outbox := a\<rparr>) = healthy w" "healthy (w\<lparr>wd_inbox := b\<rparr>) = healthy w"
  "healthy (w\<lparr>wd_events := c\<rparr>) = healthy w"
  by (simp_all add: healthy_def)

definition is_ack :: "(message option, protocol_error) result \<Rightarrow> bool" where
  "is_ack r \<longleftrightarrow> (\<exists>ack. r = Ok (Some (ChunkAck ack)))"

lemma await_ack_cases:
  assumes "await_ack lb w = (r, w')"
  obtains (ack) ack where "r = Ok ()" "wd_inbox w = Ok (Some (ChunkAck ack)) # wd_inbox w'"
      "w' = w\<lparr>wd_inbox := wd_inbox w'\<rparr>"
    | (stop) got where "\<not> is_ok r" "wd_inbox w = got @ wd_inbox w'" "w' = w\<lparr>wd_inbox := wd_inbox w'\<rparr>"
proof (cases "wd_inbox w")
  case Nil
  then show ?thesis using assms by (intro stop [of "[]"]) (auto simp: await_ack_def rx_def bind_io_def fail_io_def)
next
  case (Cons x xs)
  show ?thesis
  proof (cases "\<exists>ack. x = Ok (Some (ChunkAck ack))")
    case True
    then show ?thesis using assms Cons ack
      by (auto simp: await_ack_def rx_def bind_io_def return_io_def)
  next
    case False
    then have "\<not> is_ok r \<and> w' = w\<lparr>wd_inbox := xs\<rparr>" using assms Cons
      by (auto simp: await_ack_def rx_def bind_io_def fail_io_def split: result.splits option.splits message.splits)
    then show ?thesis using Cons stop [of "[x]"] by simp
  qed
qed

text \<open>The data messages of a file, and what a run of the sender may have put out and taken in.\<close>

definition chunk_msg :: "nat \<Rightarrow> u32 \<Rightarrow> bytes \<Rightarrow> nat \<Rightarrow> message" where
  "chunk_msg file_idx cs x off =
     ChunkData \<lparr>ci_file_index = as_u32 file_idx, ci_chunk_offset = off\<rparr> (slice cs x off)"

definition lockstep ::
  "message list \<Rightarrow> (message option, protocol_error) result list \<Rightarrow> ('x, 'e) result \<Rightarrow> bool" where
  "lockstep new got r \<longleftrightarrow> length new \<le> length (filter is_ack got) + 1
     \<and> (is_ok r \<longrightarrow> list_all is_ack got \<and> length new = length got)"

lemma lockstep_Nil [simp]: "lockstep [] [] r"
  by (simp add: lockstep_def)

lemma lockstep_stop: "\<not> is_ok r \<Longrightarrow> lockstep [msg] got r"
  by (simp add: lockstep_def)

lemma lockstep_append:
  "lockstep a g (Ok x) \<Longrightarrow> lockstep b h r \<Longrightarrow> lockstep (a @ b) (g @ h) r"
  by (auto simp: lockstep_def list_all_iff)

lemma lockstep_cong: "is_ok r = is_ok r' \<Longrightarrow> lockstep a g r = lockstep a g r'"
  by (simp add: lockstep_def)

text \<open>A run that appends to the outbox and takes from the inbox, leaving the files alone.\<close>

definition moves ::
  "world \<Rightarrow> message list \<Rightarrow> (message option, protocol_error) result list \<Rightarrow> world \<Rightarrow> bool" where
  "moves w new got w' \<longleftrightarrow> wd_outbox w' = wd_outbox w @ new \<and> wd_inbox w = got @ wd_inbox w'
     \<and> content w' = content w"

lemma moves_env: "same_env w w' \<Longrightarrow> moves w [] [] w'"
  by (simp add: moves_def same_env_world same_envD)

lemma moves_trans: "moves w a g w1 \<Longrightarrow> moves w1 b h w2 \<Longrightarrow> moves w (a @ b) (g @ h) w2"
  by (auto simp: moves_def)

lemma moves_emit: "emit_progress m i n w = (r, w') \<Longrightarrow> moves w [] [] w' \<and> r = Ok ()"
  by (auto simp: emit_progress_def emit_def moves_def Let_def)

lemma moves_tx: "tx msg w = (Ok (), w') \<Longrightarrow> moves w [msg] [] w'"
  by (auto simp: tx_def moves_def split: option.splits)

lemma tx_fails: "tx msg w = (r, w') \<Longrightarrow> \<not> is_ok r \<Longrightarrow> w' = w"
  by (auto simp: tx_def split: option.splits)

lemma moves_ack:
  assumes "await_ack lb w = (r, w')"
  shows "\<exists>got. moves w [] got w' \<and> (is_ok r \<longrightarrow> (\<exists>ack. got = [Ok (Some (ChunkAck ack))]))"
  using assms
proof (cases rule: await_ack_cases)
  case (ack a)
  have "content w' = content w" "wd_outbox w' = wd_outbox w" by (subst ack(3), simp)+
  then show ?thesis using ack(2) by (auto simp: moves_def)
next
  case (stop got)
  have "content w' = content w" "wd_outbox w' = wd_outbox w" by (subst stop(3), simp)+
  then show ?thesis using stop(1,2) by (auto simp: moves_def)
qed

text \<open>
  Code that leaves the files alone, takes messages from the inbox, appends to the outbox only
  messages of \<open>S\<close>, and waits for an acknowledgement after each.
\<close>

definition steps ::
  "(path \<Rightarrow> bytes option) \<Rightarrow> message set \<Rightarrow> (world, 'a, protocol_error) io \<Rightarrow> bool" where
  "steps files S f \<longleftrightarrow> (\<forall>w r w'. content w = files \<longrightarrow> f w = (r, w') \<longrightarrow>
     (\<exists>new got. moves w new got w' \<and> lockstep new got r \<and> set new \<subseteq> S))"

lemma stepsD:
  assumes "steps files S f" "content w = files" "f w = (r, w')"
  obtains new got where "moves w new got w'" "lockstep new got r" "set new \<subseteq> S"
  using assms unfolding steps_def by blast

lemma steps_bind:
  assumes "steps files S m" and "\<And>a w w1. content w = files \<Longrightarrow> m w = (Ok a, w1) \<Longrightarrow> steps files S (f a)"
  shows "steps files S (bind_io m f)"
  unfolding steps_def
proof (intro allI impI)
  fix w r w' assume w: "content w = files" and run: "bind_io m f w = (r, w')"
  obtain rm w1 where m: "m w = (rm, w1)" by fastforce
  obtain a g where ag: "moves w a g w1" "lockstep a g rm" "set a \<subseteq> S"
    using stepsD [OF assms(1) w m] by blast
  show "\<exists>new got. moves w new got w' \<and> lockstep new got r \<and> set new \<subseteq> S"
  proof (cases rm)
    case (Ok v)
    then have "f v w1 = (r, w')" "content w1 = files"
      using run m w ag(1) by (auto simp: bind_io_def moves_def)
    from stepsD [OF assms(2) [OF w m [unfolded Ok]] this(2,1)] obtain b h where
      "moves w1 b h w'" "lockstep b h r" "set b \<subseteq> S" .
    then show ?thesis using moves_trans [OF ag(1)] lockstep_append [OF ag(2) [unfolded Ok]] ag(3)
      by (intro exI [of _ "a @ b"] exI [of _ "g @ h"]) simp
  next
    case (Err e)
    then have "r = Err e" "w' = w1" using run m by (simp_all add: bind_io_def)
    then show ?thesis using ag Err lockstep_cong [of r rm] by (intro exI [of _ a] exI [of _ g]) simp
  next
    case Panic
    then have "r = Panic" "w' = w1" using run m by (simp_all add: bind_io_def)
    then show ?thesis using ag Panic lockstep_cong [of r rm] by (intro exI [of _ a] exI [of _ g]) simp
  qed
qed

lemma steps_quiet: "(\<And>w. content w = files \<Longrightarrow> moves w [] [] (snd (f w))) \<Longrightarrow> steps files S f"
  unfolding steps_def by (metis empty_subsetI list.set(1) lockstep_Nil snd_conv)

lemma steps_lift: "steps files S (lift_io r)" and steps_return: "steps files S (return_io a)"
  by (rule steps_quiet, simp add: lift_io_def return_io_def moves_def)+

lemma steps_env: "(\<And>w. same_env w (snd (f w))) \<Longrightarrow> steps files S f"
  by (rule steps_quiet) (rule moves_env)

lemma steps_progress: "steps files S (emit_progress m i n)"
  by (rule steps_quiet) (use moves_emit in \<open>metis prod.collapse\<close>)

lemma steps_exchange:
  assumes "msg \<in> S"
  shows "steps files S (bind_io (tx msg) (\<lambda>_. await_ack lb))"
  unfolding steps_def
proof (intro allI impI)
  fix w r w' assume run: "bind_io (tx msg) (\<lambda>_. await_ack lb) w = (r, w')"
  obtain rt w1 where t: "tx msg w = (rt, w1)" by fastforce
  show "\<exists>new got. moves w new got w' \<and> lockstep new got r \<and> set new \<subseteq> S"
  proof (cases "is_ok rt")
    case True
    then have rt: "tx msg w = (Ok (), w1)" using t by (cases rt) auto
    then have "await_ack lb w1 = (r, w')" using run by (simp add: bind_io_def)
    from moves_ack [OF this] obtain got where
      "moves w1 [] got w'" "is_ok r \<longrightarrow> (\<exists>ack. got = [Ok (Some (ChunkAck ack))])" by blast
    moreover have "lockstep [msg] got r" using calculation(2) by (auto simp: lockstep_def is_ack_def)
    ultimately show ?thesis using moves_trans [OF moves_tx [OF rt], of "[]" got w'] assms
      by (intro exI [of _ "[msg]"] exI [of _ got]) simp
  next
    case False
    then have "w' = w" using run t tx_fails [OF t] by (cases rt) (auto simp: bind_io_def)
    then show ?thesis by (intro exI [of _ "[]"]) (simp add: moves_def)
  qed
qed

lemma send_chunks_steps:
  assumes "\<And>w :: world. content w = files \<Longrightarrow> describes c x w" and "\<forall>off\<in>set offs. off < count_of c"
    and "\<forall>off\<in>set offs. chunk_msg fi (fc_chunk_size c) x off \<in> S"
  shows "steps files S (send_chunks lb m skip fi c ecs offs n)"
  using assms(2,3)
proof (induction offs arbitrary: n)
  case Nil
  then show ?case by (simp add: steps_return)
next
  case (Cons off offs)
  have IH: "steps files S (send_chunks lb m skip fi c ecs offs n)" for n
    using Cons by simp
  have rc: "steps files S (ser_io ''read chunk: '' (read_chunk (lb_sha256 lb) c off))"
    by (rule steps_env) (intro ser_io_env read_chunk_env)
  have data: "rc_data ch = slice (fc_chunk_size c) x off"
    if "content w = files" "ser_io ''read chunk: '' (read_chunk (lb_sha256 lb) c off) w = (Ok ch, w1)" for w w1 :: world and ch
    using read_chunk_Ok [OF _ assms(1) [OF that(1)], of "lb_sha256 lb" off ch w1] that(2) Cons.prems(1)
    by (simp add: ser_io_def chunk_at_def)
  let ?msg = "chunk_msg fi (fc_chunk_size c) x off"
  have ex: "steps files S (bind_io (tx ?msg) (\<lambda>_. bind_io (await_ack lb) (\<lambda>_. k)))"
    if "steps files S k" for k :: "(world, u64, protocol_error) io"
    unfolding bind_io_assoc [symmetric] using Cons.prems(2) that
    by (intro steps_bind [OF steps_exchange]) simp_all
  have send: "steps files S (bind_io (ser_io ''read chunk: '' (read_chunk (lb_sha256 lb) c off)) (\<lambda>chunk.
       bind_io (tx (ChunkData \<lparr>ci_file_index = as_u32 fi, ci_chunk_offset = off\<rparr> (rc_data chunk))) (\<lambda>_.
       bind_io (await_ack lb) (\<lambda>_.
       let n = add64 n (length (rc_data chunk))
       in bind_io (emit_progress m (as_u32 fi) n) (\<lambda>_. send_chunks lb m skip fi c ecs offs n)))))"
  proof (rule steps_bind [OF rc])
    fix ch and w w1 :: world assume "content w = files"
      "ser_io ''read chunk: '' (read_chunk (lb_sha256 lb) c off) w = (Ok ch, w1)"
    note d = data [OF this]
    show "steps files S (bind_io (tx (ChunkData \<lparr>ci_file_index = as_u32 fi, ci_chunk_offset = off\<rparr> (rc_data ch))) (\<lambda>_.
       bind_io (await_ack lb) (\<lambda>_.
       let n = add64 n (length (rc_data ch))
       in bind_io (emit_progress m (as_u32 fi) n) (\<lambda>_. send_chunks lb m skip fi c ecs offs n))))"
      unfolding d chunk_msg_def [symmetric] Let_def by (rule ex) (intro steps_bind steps_progress IH)
  qed
  show ?case
    unfolding send_chunks.simps
  proof (rule steps_bind [OF steps_lift])
    fix g and w w1 :: world
    show "steps files S (if g \<in> set skip then send_chunks lb m skip fi c ecs offs (add64 n ecs)
      else bind_io (ser_io ''read chunk: '' (read_chunk (lb_sha256 lb) c off)) (\<lambda>chunk.
       bind_io (tx (ChunkData \<lparr>ci_file_index = as_u32 fi, ci_chunk_offset = off\<rparr> (rc_data chunk))) (\<lambda>_.
       bind_io (await_ack lb) (\<lambda>_.
       let n = add64 n (length (rc_data chunk))
       in bind_io (emit_progress m (as_u32 fi) n) (\<lambda>_. send_chunks lb m skip fi c ecs offs n)))))"
      using IH send by (cases "g \<in> set skip") (simp_all only: if_True if_False)
  qed
qed

lemma send_file_loop_steps:
  assumes "\<forall>(e, p)\<in>set rest. \<exists>x. files p = Some x \<and> length x < 2 ^ 64
      \<and> 0 < effective_chunk_size (fe_size e) cs"
    and "\<forall>i<length rest. \<forall>x off. files (snd (rest ! i)) = Some x \<longrightarrow>
      chunk_msg (fi + i) (effective_chunk_size (fe_size (fst (rest ! i))) cs) x off \<in> S"
  shows "steps files S (send_file_loop lb m cs skip fi rest n)"
  using assms
proof (induction rest arbitrary: fi n)
  case Nil
  then show ?case by (simp add: steps_return)
next
  case (Cons ep rest)
  obtain e p where ep: "ep = (e, p)" by (cases ep)
  let ?ecs = "effective_chunk_size (fe_size e) cs"
  obtain x where x: "files p = Some x" "length x < 2 ^ 64" "0 < ?ecs"
    using Cons.prems(1) ep by auto
  have IH: "steps files S (send_file_loop lb m cs skip (Suc fi) rest n)" for n
  proof (rule Cons.IH)
    have "\<forall>x off. files (snd (rest ! i)) = Some x \<longrightarrow>
        chunk_msg (Suc fi + i) (effective_chunk_size (fe_size (fst (rest ! i))) cs) x off \<in> S"
      if "i < length rest" for i
      using Cons.prems(2) that by (auto dest: spec [of _ "Suc i"])
    then show "\<forall>i<length rest. \<forall>x off. files (snd (rest ! i)) = Some x \<longrightarrow>
        chunk_msg (Suc fi + i) (effective_chunk_size (fe_size (fst (rest ! i))) cs) x off \<in> S" by blast
  qed (use Cons.prems(1) in auto)
  have opened: "fc_path c = p \<and> fc_chunk_size c = ?ecs \<and> fc_file_size c = length x"
    if "content w = files" "ser_io ''chunker: '' (chunker_open p (as_u32 fi) ?ecs) w = (Ok c, w1)" for w w1 :: world and c
    using that x(1) fs_len_Ok [of p w _ _ x]
    by (auto simp: ser_io_def chunker_open_def bind_io_Ok_iff return_io_def)
  have msg: "chunk_msg fi ?ecs x off \<in> S" for off
    using Cons.prems(2) x(1) ep by (auto dest!: spec [of _ 0])
  have chunks: "steps files S (send_chunks lb m skip fi c ?ecs [0..<k] n)"
    if w: "content w = files" "ser_io ''chunker: '' (chunker_open p (as_u32 fi) ?ecs) w = (Ok c, w1)"
      and k: "chunker_chunk_count c = (Ok k :: (u64, protocol_error) result)" for w w1 :: world and c k
  proof (rule send_chunks_steps)
    note o = opened [OF w]
    show "describes c x w" if "content w = files" for w :: world
      using that o x by (simp add: describes_def)
    then have "k = count_of c" using k describes_count [of c x w, where 'b = protocol_error] w(1)
      by (metis result.inject(1))
    then show "\<forall>off\<in>set [0..<k]. off < count_of c" by simp
    show "\<forall>off\<in>set [0..<k]. chunk_msg fi (fc_chunk_size c) x off \<in> S" using msg o by simp
  qed
  have open_steps: "steps files S (ser_io ''chunker: '' (chunker_open p (as_u32 fi) ?ecs))"
    by (rule steps_env) (intro ser_io_env chunker_open_env)
  show ?case
    unfolding ep send_file_loop.simps Let_def
    by (rule steps_bind [OF open_steps], rule steps_bind [OF steps_lift], rule steps_bind [OF chunks],
        assumption, assumption, simp add: lift_io_def, rule IH)
qed

section \<open>The sender against any peer\<close>

lemma build_entries_env: "same_env w (snd (build_entries lb i ps w))"
proof (induction ps arbitrary: i w)
  case (Cons p ps)
  show ?case unfolding build_entries.simps Let_def
    by (intro bind_env map_err_io_env fs_len_env ser_io_env hash_file_env Cons.IH) (simp add: return_io_def)
qed (simp add: return_io_def)

lemma build_entries_Ok:
  assumes "build_entries lb i ps w = (Ok es, w')"
  shows "length es = length ps \<and> (\<forall>j<length ps. \<forall>x. content w (ps ! j) = Some x \<longrightarrow>
     fe_size (es ! j) = length x \<and> fe_sha256 (es ! j) = lb_sha256 lb x \<and> fe_index (es ! j) = as_u32 (i + j)
     \<and> (\<forall>n. file_name (ps ! j) = Some n \<longrightarrow> fe_relative_path (es ! j) = n))"
  using assms
proof (induction ps arbitrary: i w es)
  case Nil
  then show ?case by (simp add: return_io_def)
next
  case (Cons p ps)
  obtain len w1 h w2 es' where a: "fs_len p w = (Ok len, w1)" "hash_file (lb_sha256 lb) p w1 = (Ok h, w2)"
    and b: "build_entries lb (Suc i) ps w2 = (Ok es', w')"
    and es: "es = \<lparr>fe_index = as_u32 i, fe_relative_path = (case file_name p of Some n \<Rightarrow> n | None \<Rightarrow> ''file''),
        fe_size = len, fe_sha256 = h, fe_mime_type = mime_from_path p\<rparr> # es'"
    using Cons.prems by (auto simp: bind_io_Ok_iff ser_io_def return_io_def Let_def)
  have e: "same_env w w1" "same_env w1 w2"
    using a fs_len_env [of w p] hash_file_env [of w1 "lb_sha256 lb" p] by simp_all
  then have c: "content w2 = content w" "content w1 = content w" by (simp_all add: same_envD)
  have head: "len = length x \<and> h = lb_sha256 lb x" if x: "content w p = Some x" for x
  proof -
    obtain fed s1 s2 where "fs_open p w1 = (Ok (), s1)" "hash_loop p 0 [] s1 = (Ok fed, s2)" "h = lb_sha256 lb fed"
      using a(2) by (auto simp: hash_file_def io_at_def bind_io_Ok_iff return_io_def)
    then have "h = lb_sha256 lb x"
      using hash_loop_Ok [of p 0 "[]" s1 fed s2 x] x c(2) fs_open_Ok [of p w1 s1] by (simp add: same_envD)
    then show ?thesis using fs_len_Ok [OF a(1) x] by simp
  qed
  show ?case
  proof (intro conjI allI impI)
    show "length es = length (p # ps)" using Cons.IH [OF b] es by simp
    fix j x assume j: "j < length (p # ps)" "content w ((p # ps) ! j) = Some x"
    note IH = Cons.IH [OF b]
    show "fe_size (es ! j) = length x" "fe_sha256 (es ! j) = lb_sha256 lb x" "fe_index (es ! j) = as_u32 (i + j)"
      using j IH es head c(1) by (cases j; auto)+
    show "fe_relative_path (es ! j) = n" if "file_name ((p # ps) ! j) = Some n" for n
      using j IH es c(1) that by (cases j) auto
  qed
qed

definition accepted :: "(message option, protocol_error) result \<Rightarrow> bool" where
  "accepted r \<longleftrightarrow> r = Ok (Some (TransferResponse Accept)) \<or> (\<exists>b. r = Ok (Some (TransferResponse (ResumeAt b))))"

lemma await_response_state:
  "wd_outbox (snd (await_response lb m w)) = wd_outbox w"
  "await_response lb m w = (Ok skip, w') \<Longrightarrow>
     \<exists>r. wd_inbox w = r # wd_inbox w' \<and> accepted r \<and> content w' = content w \<and> wd_outbox w' = wd_outbox w"
  by (auto simp: await_response_def rx_def bind_io_def lift_io_def return_io_def fail_io_def accepted_def
      split: list.splits result.splits option.splits message.splits transfer_response.splits)

lemma await_verification_state: "wd_outbox (snd (await_verification lb t w)) = wd_outbox w"
  by (auto simp: await_verification_def rx_def bind_io_def emit_def fail_io_def
      split: list.splits result.splits option.splits message.splits bool.splits)

text \<open>What a sender may have put on the wire.\<close>

definition faithful ::
  "(path \<Rightarrow> bytes option) \<Rightarrow> path list \<Rightarrow> u32 \<Rightarrow> (message option, protocol_error) result list \<Rightarrow> message list \<Rightarrow> bool" where
  "faithful files paths cs inbox out \<longleftrightarrow> out = [] \<or> (\<exists>m data tl.
       out = TransferRequest m # data @ tl \<and> (tl = [] \<or> (\<exists>h. tl = [TransferComplete h]))
     \<and> (\<forall>msg\<in>set data. \<exists>i x off. i < length paths \<and> files (paths ! i) = Some x
          \<and> msg = chunk_msg i (effective_chunk_size (length x) cs) x off)
     \<and> (data \<noteq> [] \<or> tl \<noteq> [] \<longrightarrow> inbox \<noteq> [] \<and> accepted (hd inbox))
     \<and> length data \<le> length (filter is_ack inbox) + 1)"

lemma effective_pos: "0 < cs \<Longrightarrow> 0 < effective_chunk_size n cs"
  by (simp add: effective_chunk_size_def saturating_mul32_def min_def)

lemma send_completion_out:
  "\<exists>tl. wd_outbox (snd (send_completion lb m w)) = wd_outbox w @ tl \<and> (tl = [] \<or> (\<exists>h. tl = [TransferComplete h]))"
    (is "?P (snd (send_completion lb m w))")
  unfolding send_completion_def
proof (rule bind_io_state [where P = ?P])
  show "?P (snd (tx (TransferComplete (compute_manifest_hash lb m)) w))"
    by (simp add: tx_def split: option.split)
next
  fix u w1 assume "tx (TransferComplete (compute_manifest_hash lb m)) w = (Ok u, w1)"
  then have "?P w1" by (auto simp: tx_def split: option.splits)
  moreover have "wd_outbox (snd (bind_io (await_verification lb (mf_transfer_id m)) (\<lambda>_.
     bind_io (\<lambda>w. (wd_shutdown w, w)) (\<lambda>_. return_io (mf_transfer_id m))) w1)) = wd_outbox w1"
  proof (rule bind_io_state [where P = "\<lambda>w. wd_outbox w = wd_outbox w1"])
    show "wd_outbox (snd (await_verification lb (mf_transfer_id m) w1)) = wd_outbox w1"
      by (rule await_verification_state)
    fix v w2 assume "await_verification lb (mf_transfer_id m) w1 = (Ok v, w2)"
    then show "wd_outbox (snd (bind_io (\<lambda>w. (wd_shutdown w, w)) (\<lambda>_. return_io (mf_transfer_id m)) w2)) = wd_outbox w1"
      using await_verification_state [of lb "mf_transfer_id m" w1]
      by (simp add: bind_io_def return_io_def split: result.split)
  qed
  ultimately show "?P (snd (bind_io (await_verification lb (mf_transfer_id m)) (\<lambda>_.
     bind_io (\<lambda>w. (wd_shutdown w, w)) (\<lambda>_. return_io (mf_transfer_id m))) w1))" by simp
qed

lemma send_accepted_out:
  assumes steps: "\<And>skip. steps (content w) S (send_file_loop lb m cs skip 0 (zip (mf_files m) paths) 0)"
  shows "\<exists>data tl. wd_outbox (snd (send_accepted lb cs paths m w)) = wd_outbox w @ data @ tl
     \<and> (tl = [] \<or> (\<exists>h. tl = [TransferComplete h])) \<and> set data \<subseteq> S
     \<and> (data \<noteq> [] \<or> tl \<noteq> [] \<longrightarrow> wd_inbox w \<noteq> [] \<and> accepted (hd (wd_inbox w)))
     \<and> length data \<le> length (filter is_ack (wd_inbox w)) + 1"
    (is "?P (snd (send_accepted lb cs paths m w))")
  unfolding send_accepted_def
proof (rule bind_io_state [where P = ?P])
  show "?P (snd (await_response lb m w))"
    by (intro exI [of _ "[]"]) (simp add: await_response_state)
next
  fix skip w1 assume aw: "await_response lb m w = (Ok skip, w1)"
  let ?loop = "send_file_loop lb m cs skip 0 (zip (mf_files m) paths) 0"
  obtain r where r: "wd_inbox w = r # wd_inbox w1" "accepted r" "content w1 = content w" "wd_outbox w1 = wd_outbox w"
    using await_response_state(2) [OF aw] by blast
  obtain rl w2 where l: "?loop w1 = (rl, w2)" by fastforce
  obtain data got where d: "moves w1 data got w2" "lockstep data got rl" "set data \<subseteq> S"
    using stepsD [OF steps r(3) l] by blast
  have n: "length data \<le> length (filter is_ack (wd_inbox w)) + 1"
    using d(1,2) r(1) by (auto simp: moves_def lockstep_def)
  have *: "?P w'" if "wd_outbox w' = wd_outbox w2 @ tl" "tl = [] \<or> (\<exists>h. tl = [TransferComplete h])" for w' tl
    using that d n r by (intro exI [of _ data] exI [of _ tl]) (auto simp: moves_def)
  show "?P (snd (bind_io ?loop (\<lambda>_. send_completion lb m) w1))"
  proof (rule bind_io_state [where P = ?P])
    show "?P (snd (?loop w1))" using * [of w2 "[]"] l by simp
    fix v w3 assume "?loop w1 = (Ok v, w3)"
    then have "w3 = w2" using l by simp
    then show "?P (snd (send_completion lb m w3))"
      using send_completion_out [of lb m w2] * by blast
  qed
qed

text \<open>Once the manifest has been sent: whatever the peer answers, what follows comes from the files.\<close>

lemma accepted_faithful:
  assumes files: "\<forall>p\<in>set paths. \<exists>x. content w p = Some x \<and> length x < 2 ^ 64" and cs: "0 < cs"
    and es: "build_entries lb 0 paths w0 = (Ok es, w0')" "content w0 = content w" "mf_files m = es"
    and out: "wd_outbox w = [TransferRequest m]"
  shows "faithful (content w) paths cs (wd_inbox w) (wd_outbox (snd (send_accepted lb cs paths m w)))"
proof -
  note B = build_entries_Ok [OF es(1), unfolded es(2)]
  let ?S = "{chunk_msg i (effective_chunk_size (length x) cs) x off | i x off.
               i < length paths \<and> content w (paths ! i) = Some x}"
  have loop: "steps (content w) ?S (send_file_loop lb m cs skip 0 (zip (mf_files m) paths) 0)" for skip
    unfolding es(3)
  proof (rule send_file_loop_steps)
    show "\<forall>(e, p)\<in>set (zip es paths). \<exists>x. content w p = Some x \<and> length x < 2 ^ 64
        \<and> 0 < effective_chunk_size (fe_size e) cs"
      using files effective_pos [OF cs] by (auto dest: set_zip_rightD)
    have "chunk_msg (0 + i) (effective_chunk_size (fe_size (fst (zip es paths ! i))) cs) x off \<in> ?S"
      if "i < length (zip es paths)" "content w (snd (zip es paths ! i)) = Some x" for i x off
      using that B by auto
    then show "\<forall>i<length (zip es paths). \<forall>x off. content w (snd (zip es paths ! i)) = Some x \<longrightarrow>
        chunk_msg (0 + i) (effective_chunk_size (fe_size (fst (zip es paths ! i))) cs) x off \<in> ?S" by blast
  qed
  from send_accepted_out [OF loop] obtain data tl where
    result: "wd_outbox (snd (send_accepted lb cs paths m w)) = TransferRequest m # data @ tl"
    "tl = [] \<or> (\<exists>h. tl = [TransferComplete h])" "set data \<subseteq> ?S"
    "data \<noteq> [] \<or> tl \<noteq> [] \<longrightarrow> wd_inbox w \<noteq> [] \<and> accepted (hd (wd_inbox w))"
    "length data \<le> length (filter is_ack (wd_inbox w)) + 1"
    unfolding out by auto
  have "\<forall>msg\<in>set data. \<exists>i x off. i < length paths \<and> content w (paths ! i) = Some x
      \<and> msg = chunk_msg i (effective_chunk_size (length x) cs) x off" using result(3) by blast
  then show ?thesis using result(1,2,4,5) unfolding faithful_def by metis
qed

lemma send_files_faithful:
  assumes files: "\<forall>p\<in>set paths. \<exists>x. content w p = Some x \<and> length x < 2 ^ 64"
    and cs: "0 < tc_chunk_size (cf_transfer config)" and "wd_outbox w = []"
  shows "faithful (content w) paths (tc_chunk_size (cf_transfer config)) (wd_inbox w)
           (wd_outbox (snd (send_files lb config paths w)))"
proof (cases "build_entries lb 0 paths w")
  case (Pair rb w1)
  let ?cs = "tc_chunk_size (cf_transfer config)"
  have "same_env w w1" using build_entries_env [of w lb 0 paths] Pair by simp
  then have w1: "wd_outbox w1 = []" "wd_inbox w1 = wd_inbox w" "content w1 = content w"
    using assms(3) by (simp_all add: same_env_world same_envD)
  have start: "faithful (content w) paths ?cs (wd_inbox w) (wd_outbox w1)"
    using w1 by (simp add: faithful_def)
  show ?thesis
  proof (cases "\<exists>es u v. rb = Ok es \<and> wd_connect w1 = Ok u \<and> wd_handshake w1 = Ok v")
    case False
    then show ?thesis using Pair start
      by (auto simp: send_files_def bind_io_def Let_def split: result.split)
  next
    case True
    then obtain es u v where es: "rb = Ok es" and ok: "wd_connect w1 = Ok u" "wd_handshake w1 = Ok v" by blast
    let ?m = "manifest_new (lb_transfer_id lb) (current_platform (lb_target_os lb)) es (device_name (lb_host lb) config) ?cs"
    have run: "snd (send_files lb config paths w)
        = snd (bind_io (tx (TransferRequest ?m)) (\<lambda>_. send_accepted lb ?cs paths ?m) w1)"
      using Pair es ok by (simp add: send_files_def bind_io_def Let_def)
    obtain rt w2 where t: "tx (TransferRequest ?m) w1 = (rt, w2)" by fastforce
    show ?thesis
    proof (cases "is_ok rt")
      case True
      then have t2: "tx (TransferRequest ?m) w1 = (Ok (), w2)" using t by (cases rt) auto
      then have w2: "wd_outbox w2 = [TransferRequest ?m]" "wd_inbox w2 = wd_inbox w" "content w2 = content w"
        using moves_tx [OF t2] w1 by (simp_all add: moves_def)
      from accepted_faithful [OF _ cs Pair [unfolded es] w2(3) [symmetric] _ w2(1)] files
      show ?thesis using run t2 by (simp add: w2 manifest_new_def bind_io_def)
    next
      case False
      then show ?thesis using run t tx_fails [OF t] start by (cases rt) (simp_all add: bind_io_def)
    qed
  qed
qed

section \<open>A run without failures\<close>

definition ready :: "world \<Rightarrow> bool" where
  "ready w \<longleftrightarrow> healthy w \<and> (\<forall>n. wd_tx_fault w n = None) \<and> wd_shutdown w = Ok ()"

definition runs ::
  "(world, 'a, protocol_error) io \<Rightarrow> world \<Rightarrow> message list \<Rightarrow> (message option, protocol_error) result list
   \<Rightarrow> 'a \<Rightarrow> bool" where
  "runs f w new got a \<longleftrightarrow> (\<exists>w'. f w = (Ok a, w') \<and> moves w new got w' \<and> ready w')"

lemma ready_env: "same_env w w1 \<Longrightarrow> ready w \<Longrightarrow> ready w1"
  by (simp add: ready_def same_env_world same_envD)

lemma tx_ready: "ready w \<Longrightarrow> tx msg w = (Ok (), w\<lparr>wd_outbox := wd_outbox w @ [msg]\<rparr>)"
  and ready_fields: "ready w \<Longrightarrow> ready (w\<lparr>wd_outbox := o'\<rparr>)" "ready w \<Longrightarrow> ready (w\<lparr>wd_inbox := i'\<rparr>)"
    "ready w \<Longrightarrow> ready (w\<lparr>wd_events := e'\<rparr>)"
  by (auto simp: tx_def ready_def)

lemma global_chunk_offset_Ok:
  assumes "0 < mf_chunk_size m"
  shows "\<exists>g. global_chunk_offset m i off = (Ok g :: (u64, 'e) result)"
proof -
  have "\<exists>g. chunk_base fs (mf_chunk_size m) i acc = (Ok g :: (u64, 'e) result)" for fs acc
    using assms by (induction fs arbitrary: acc) (auto simp: chunk_count_eq)
  then show ?thesis unfolding global_chunk_offset_def by (metis bind_res.simps(1))
qed

lemma send_chunks_runs:
  assumes "ready w" "describes c x w" "0 < mf_chunk_size m" "\<forall>off\<in>set offs. off < count_of c"
    and "list_all is_ack acks" "length acks = length offs" "wd_inbox w = acks @ rest"
  shows "\<exists>n'. runs (send_chunks lb m [] fi c ecs offs n) w (map (chunk_msg fi (fc_chunk_size c) x) offs) acks n'"
  using assms
proof (induction offs arbitrary: n w acks)
  case Nil
  then show ?case by (auto simp: runs_def return_io_def moves_def)
next
  case (Cons off offs)
  obtain k acks' where acks: "acks = Ok (Some (ChunkAck k)) # acks'" "list_all is_ack acks'" "length acks' = length offs"
  proof -
    obtain a acks' where "acks = a # acks'" "is_ack a" "list_all is_ack acks'" "length acks' = length offs"
      using Cons.prems(5,6) by (cases acks) auto
    then show ?thesis using that unfolding is_ack_def by blast
  qed
  obtain g where g: "global_chunk_offset m (as_u32 fi) off = (Ok g :: (u64, protocol_error) result)"
    using global_chunk_offset_Ok [OF Cons.prems(3)] by blast
  have h: "healthy w" "off < count_of c" using Cons.prems(1,4) by (simp_all add: ready_def)
  obtain w1 where rc: "read_chunk (lb_sha256 lb) c off w = (Ok (chunk_at (lb_sha256 lb) c x off), w1)"
    using read_chunk_healthy [OF h(1) Cons.prems(2) h(2)] by blast
  have e: "same_env w w1" using read_chunk_env [of w "lb_sha256 lb" c off] rc by simp
  let ?msg = "chunk_msg fi (fc_chunk_size c) x off"
  let ?w2 = "w1\<lparr>wd_outbox := wd_outbox w1 @ [?msg]\<rparr>"
  let ?w3 = "?w2\<lparr>wd_inbox := acks' @ rest\<rparr>"
  have r1: "ready w1" using ready_env [OF e] Cons.prems(1) .
  have i1: "wd_inbox w1 = acks @ rest" using e Cons.prems(7) by (simp add: same_env_world)
  have tx1: "tx ?msg w1 = (Ok (), ?w2)" by (rule tx_ready [OF r1])
  have ack1: "await_ack lb ?w2 = (Ok (), ?w3)"
    using i1 acks by (simp add: await_ack_def rx_def bind_io_def return_io_def)
  obtain w4 where p: "emit_progress m (as_u32 fi) (add64 n (length (slice (fc_chunk_size c) x off))) ?w3 = (Ok (), w4)"
    and w4: "w4 = ?w3\<lparr>wd_events := wd_events w4\<rparr>"
    by (auto simp: emit_progress_def emit_def Let_def)
  have r4: "ready w4" by (subst w4) (intro ready_fields r1)
  have c4: "content w4 = content w" "wd_inbox w4 = acks' @ rest" "wd_outbox w4 = wd_outbox w @ [?msg]"
    using e by (subst w4, simp add: same_envD same_env_world)+
  then have m4: "moves w [?msg] [Ok (Some (ChunkAck k))] w4"
    using Cons.prems(7) acks by (simp add: moves_def)
  have d4: "describes c x w4" using Cons.prems(2) c4(1) by (simp add: describes_def)
  from Cons.IH [OF r4 d4 Cons.prems(3) _ acks(2,3) c4(2)] Cons.prems(4) obtain n' where
    "runs (send_chunks lb m [] fi c ecs offs (add64 n (length (slice (fc_chunk_size c) x off)))) w4
       (map (chunk_msg fi (fc_chunk_size c) x) offs) acks' n'" by auto
  moreover have "send_chunks lb m [] fi c ecs (off # offs) n w
      = send_chunks lb m [] fi c ecs offs (add64 n (length (slice (fc_chunk_size c) x off))) w4"
    using g rc tx1 ack1 p
    by (simp add: bind_io_def lift_io_def ser_io_def map_err_io_def chunk_at_def chunk_msg_def Let_def)
  ultimately show ?case using moves_trans [OF m4] acks(1)
    by (fastforce simp: runs_def)
qed

definition file_chunks :: "nat \<Rightarrow> u32 \<Rightarrow> bytes \<Rightarrow> message list" where
  "file_chunks i cs x = map (chunk_msg i (effective_chunk_size (length x) cs) x)
     [0..<nchunks (length x) (effective_chunk_size (length x) cs)]"

fun all_chunks :: "nat \<Rightarrow> u32 \<Rightarrow> bytes list \<Rightarrow> message list" where
  "all_chunks i cs [] = []"
| "all_chunks i cs (x # xs) = file_chunks i cs x @ all_chunks (Suc i) cs xs"

lemma send_file_loop_runs:
  assumes "ready w" "0 < cs" "mf_chunk_size m = cs" "map (content w) ps = map Some xs"
    and "\<forall>x\<in>set xs. length x < 2 ^ 64" "length es = length ps" "map fe_size es = map length xs"
    and "list_all is_ack acks" "length acks = length (all_chunks fi cs xs)" "wd_inbox w = acks @ rest"
  shows "\<exists>n'. runs (send_file_loop lb m cs [] fi (zip es ps) n) w (all_chunks fi cs xs) acks n'"
  using assms
proof (induction xs arbitrary: es ps fi n w acks)
  case Nil
  then show ?case by (auto simp: runs_def return_io_def moves_def)
next
  case (Cons x xs)
  obtain p ps' where ps: "ps = p # ps'" "content w p = Some x" using Cons.prems(4) by (cases ps) auto
  obtain e es' where es: "es = e # es'" "fe_size e = length x" using Cons.prems(7) by (cases es) auto
  let ?ecs = "effective_chunk_size (length x) cs"
  let ?c = "\<lparr>fc_path = p, fc_file_index = as_u32 fi, fc_chunk_size = ?ecs, fc_file_size = length x\<rparr>"
  have h: "healthy w" using Cons.prems(1) by (simp add: ready_def)
  have op: "chunker_open p (as_u32 fi) ?ecs w = (Ok ?c, w\<lparr>ticks := Suc (ticks w)\<rparr>)" (is "_ = (_, ?w1)")
    using h ps(2) by (simp add: chunker_open_def fs_len_def bind_io_def map_err_io_def fs_simps return_io_def content_Some)
  have r1: "ready ?w1" using Cons.prems(1) by (simp add: ready_env [of w])
  have d1: "describes ?c x ?w1" using ps(2) Cons.prems(5) effective_pos [OF Cons.prems(2)]
    by (simp add: describes_def)
  let ?k = "length (file_chunks fi cs x)"
  have acks: "list_all is_ack (take ?k acks)" "list_all is_ack (drop ?k acks)"
    "length (take ?k acks) = ?k" "length (drop ?k acks) = length (all_chunks (Suc fi) cs xs)"
    using Cons.prems(8,9) by (auto simp: list_all_iff dest: in_set_takeD in_set_dropD)
  have in1: "wd_inbox ?w1 = take ?k acks @ drop ?k acks @ rest" using Cons.prems(10) by simp
  obtain n1 w2 where w2: "send_chunks lb m [] fi ?c ?ecs [0..<count_of ?c] n ?w1 = (Ok n1, w2)"
    "moves ?w1 (file_chunks fi cs x) (take ?k acks) w2" "ready w2"
  proof -
    have "0 < mf_chunk_size m" "\<forall>off\<in>set [0..<count_of ?c]. off < count_of ?c"
      "length (take ?k acks) = length [0..<count_of ?c]"
      using Cons.prems(2,3) acks(3) by (simp_all add: file_chunks_def)
    from send_chunks_runs [OF r1 d1 this(1,2) acks(1) this(3) in1, of lb fi ?ecs n] that show ?thesis
      unfolding runs_def file_chunks_def by auto
  qed
  have w2c: "content w2 = content w" "wd_inbox w2 = drop ?k acks @ rest"
    using w2(2) in1 by (auto simp: moves_def)
  have "map (content w2) ps' = map Some xs" "map fe_size es' = map length xs" "length es' = length ps'"
    using Cons.prems(4,6,7) ps es w2c(1) by auto
  then obtain n' where n': "runs (send_file_loop lb m cs [] (Suc fi) (zip es' ps') n1) w2
      (all_chunks (Suc fi) cs xs) (drop ?k acks) n'"
    using Cons.IH [OF w2(3) Cons.prems(2,3) _ _ _ _ acks(2,4) w2c(2), of ps' es' n1] Cons.prems(5) by auto
  have "send_file_loop lb m cs [] fi (zip es ps) n w = send_file_loop lb m cs [] (Suc fi) (zip es' ps') n1 w2"
    using op w2(1) describes_count [OF d1, where 'b = protocol_error] es ps
    by (simp add: bind_io_def ser_io_def map_err_io_def lift_io_def Let_def)
  moreover have "moves w (file_chunks fi cs x) (take ?k acks) w2"
    using moves_trans [OF moves_env [of w ?w1] w2(2)] by simp
  ultimately show ?case using n' moves_trans [of w "file_chunks fi cs x" "take ?k acks" w2]
    by (fastforce simp: runs_def)
qed

lemma build_entries_ready:
  assumes "healthy w" "map (content w) ps = map Some xs"
  shows "\<exists>es w'. build_entries lb i ps w = (Ok es, w')"
  using assms
proof (induction ps arbitrary: i w xs)
  case Nil
  then show ?case by (simp add: return_io_def)
next
  case (Cons p ps)
  obtain x xs' where xs: "xs = x # xs'" "content w p = Some x" "map (content w) ps = map Some xs'"
    using Cons.prems(2) by (cases xs) auto
  let ?w1 = "w\<lparr>ticks := Suc (ticks w)\<rparr>"
  have len: "fs_len p w = (Ok (length x), ?w1)"
    using Cons.prems(1) xs(2) by (simp add: fs_len_def bind_io_def fs_simps content_Some)
  obtain w2 where h: "hash_file (lb_sha256 lb) p ?w1 = (Ok (lb_sha256 lb x), w2)"
    using hash_file_healthy [of ?w1 p x] Cons.prems(1) xs(2) by auto
  have "same_env ?w1 w2" using hash_file_env [of ?w1 "lb_sha256 lb" p] h by simp
  then have "healthy w2" "map (content w2) ps = map Some xs'"
    using Cons.prems(1) xs(3) by (simp_all add: same_envD)
  from Cons.IH [OF this, of "Suc i"] obtain es w' where "build_entries lb (Suc i) ps w2 = (Ok es, w')" by blast
  with len h show ?case
    by (simp add: bind_io_def ser_io_def map_err_io_def return_io_def Let_def)
qed

lemma send_files_run:
  assumes "ready w" "wd_connect w = Ok ()" "wd_handshake w = Ok ()"
    and cs: "0 < tc_chunk_size (cf_transfer config)"
    and files: "map (content w) paths = map Some xs" "\<forall>x\<in>set xs. length x < 2 ^ 64"
    and inbox: "wd_inbox w = Ok (Some (TransferResponse Accept)) # acks @ [Ok (Some (TransferVerified True err))]"
    and acks: "list_all is_ack acks" "length acks = length (all_chunks 0 (tc_chunk_size (cf_transfer config)) xs)"
    and es: "build_entries lb 0 paths w = (Ok es, w1)"
    and m: "m = manifest_new (lb_transfer_id lb) (current_platform (lb_target_os lb)) es (device_name (lb_host lb) config)
        (tc_chunk_size (cf_transfer config))"
  shows "\<exists>w'. send_files lb config paths w = (Ok (lb_transfer_id lb), w') \<and> content w' = content w
     \<and> wd_outbox w' = wd_outbox w @ TransferRequest m # all_chunks 0 (tc_chunk_size (cf_transfer config)) xs
         @ [TransferComplete (compute_manifest_hash lb m)]"
proof -
  let ?cs = "tc_chunk_size (cf_transfer config)"
  have e1: "same_env w w1" using build_entries_env [of w lb 0 paths] es by simp
  note B = build_entries_Ok [OF es]
  have len: "length paths = length xs" using files(1) by (metis length_map)
  have at: "content w (paths ! j) = Some (xs ! j)" if "j < length xs" for j
    using files(1) that len by (metis nth_map)
  have sizes: "map fe_size es = map length xs"
    using B len at by (auto simp: list_eq_iff_nth_eq)
  have mf: "mf_files m = es" "mf_chunk_size m = ?cs" "mf_transfer_id m = lb_transfer_id lb"
    by (simp_all add: m manifest_new_def)
  let ?w2 = "w1\<lparr>wd_outbox := wd_outbox w1 @ [TransferRequest m]\<rparr>"
  let ?w3 = "?w2\<lparr>wd_inbox := acks @ [Ok (Some (TransferVerified True err))]\<rparr>"
  have r1: "ready w1" using ready_env [OF e1 assms(1)] .
  have w1: "wd_connect w1 = Ok ()" "wd_handshake w1 = Ok ()" "wd_inbox w1 = wd_inbox w"
    "content w1 = content w" "wd_outbox w1 = wd_outbox w"
    using e1 assms(2,3) by (simp_all add: same_env_world same_envD)
  have req: "tx (TransferRequest m) w1 = (Ok (), ?w2)" using r1 by (rule tx_ready)
  have resp: "await_response lb m ?w2 = (Ok [], ?w3)"
    using w1(3) inbox by (simp add: await_response_def rx_def bind_io_def return_io_def)
  have r3: "ready ?w3" by (intro ready_fields r1)
  have "map (content ?w3) paths = map Some xs" using files(1) w1(4) by simp
  from send_file_loop_runs [OF r3 cs mf(2) this files(2) _ sizes acks, of "[Ok (Some (TransferVerified True err))]" lb 0]
  obtain n' w4 where loop: "send_file_loop lb m ?cs [] 0 (zip es paths) 0 ?w3 = (Ok n', w4)"
    and m4: "moves ?w3 (all_chunks 0 ?cs xs) acks w4" and r4: "ready w4"
    using B by (auto simp: runs_def)
  let ?h = "compute_manifest_hash lb m"
  let ?w5 = "w4\<lparr>wd_outbox := wd_outbox w4 @ [TransferComplete ?h]\<rparr>"
  let ?w6 = "?w5\<lparr>wd_inbox := [], wd_events := wd_events w4 @ [EvCompleted (lb_transfer_id lb) Sending]\<rparr>"
  have w4: "wd_inbox w4 = [Ok (Some (TransferVerified True err))]" "content w4 = content w"
    "wd_outbox w4 = wd_outbox w @ TransferRequest m # all_chunks 0 ?cs xs"
    using m4 w1 by (simp_all add: moves_def)
  have fin: "send_completion lb m w4 = (Ok (lb_transfer_id lb), ?w6)"
    using w4(1) tx_ready [OF r4] r4 mf(3)
    by (simp add: send_completion_def await_verification_def rx_def emit_def bind_io_def return_io_def ready_def)
  have "send_files lb config paths w = send_accepted lb ?cs paths m ?w2"
    using es w1(1,2) req by (simp add: send_files_def Let_def bind_io_def m)
  also have "\<dots> = (Ok (lb_transfer_id lb), ?w6)"
    using resp loop fin mf(1) by (simp add: send_accepted_def bind_io_def)
  finally show ?thesis using w4(2,3) by simp
qed

section \<open>Properties\<close>

text \<open>
  C4. The sender keeps its files to itself until the peer has agreed, and sends nothing else than
  their chunks: whatever the peer answers and whichever call fails, every data message carries
  the bytes of one chunk of one of the chosen files, under its own index and offset, and there is
  none unless the first answer was an acceptance.
\<close>

theorem sender_sends_only_its_files:
  assumes "\<forall>p\<in>set paths. \<exists>x. content w p = Some x \<and> length x < 2 ^ 64"
    and "0 < tc_chunk_size (cf_transfer config)" and "wd_outbox w = []"
    and "send_files lb config paths w = (r, w')" and "ChunkData cid d \<in> set (wd_outbox w')"
  shows "wd_inbox w \<noteq> [] \<and> accepted (hd (wd_inbox w))
    \<and> (\<exists>i x. i < length paths \<and> content w (paths ! i) = Some x \<and> ci_file_index cid = as_u32 i
         \<and> d = slice (effective_chunk_size (length x) (tc_chunk_size (cf_transfer config))) x (ci_chunk_offset cid))"
proof -
  from send_files_faithful [OF assms(1-3), of lb] assms(4,5)
  obtain m data tl where o: "wd_outbox w' = TransferRequest m # data @ tl" "tl = [] \<or> (\<exists>h. tl = [TransferComplete h])"
    and data: "\<forall>msg\<in>set data. \<exists>i x off. i < length paths \<and> content w (paths ! i) = Some x
          \<and> msg = chunk_msg i (effective_chunk_size (length x) (tc_chunk_size (cf_transfer config))) x off"
    and acc: "data \<noteq> [] \<or> tl \<noteq> [] \<longrightarrow> wd_inbox w \<noteq> [] \<and> accepted (hd (wd_inbox w))"
    by (auto simp: faithful_def)
  have "ChunkData cid d \<in> set data" using assms(5) o by auto
  with data acc show ?thesis by (fastforce simp: chunk_msg_def)
qed

text \<open>
  C21. The sender waits for each chunk to be acknowledged: in every run the number of data messages
  exceeds the number of acknowledgements received by at most one, and the manifest goes first.
\<close>

theorem sender_stop_and_wait:
  assumes "\<forall>p\<in>set paths. \<exists>x. content w p = Some x \<and> length x < 2 ^ 64"
    and "0 < tc_chunk_size (cf_transfer config)" and "wd_outbox w = []"
    and "send_files lb config paths w = (r, w')"
  shows "length (filter is_data (wd_outbox w')) \<le> length (filter is_ack (wd_inbox w)) + 1
    \<and> (wd_outbox w' \<noteq> [] \<longrightarrow> (\<exists>m. hd (wd_outbox w') = TransferRequest m))"
proof -
  from send_files_faithful [OF assms(1-3), of lb] assms(4)
  consider "wd_outbox w' = []" | m data tl where "wd_outbox w' = TransferRequest m # data @ tl"
    "tl = [] \<or> (\<exists>h. tl = [TransferComplete h])" "length data \<le> length (filter is_ack (wd_inbox w)) + 1"
    by (auto simp: faithful_def)
  then show ?thesis
  proof cases
    case (2 m data tl)
    then have "length (filter is_data (wd_outbox w')) = length (filter is_data data)" by auto
    also have "\<dots> \<le> length data" by (rule length_filter_le)
    finally show ?thesis using 2 by auto
  qed simp
qed

text \<open>A world for the witnesses: one file of three bytes, a peer that accepts and acknowledges.\<close>

definition demo_lib :: lib where
  "demo_lib = \<lparr>lb_sha256 = rev, lb_serialize_manifest = (\<lambda>_. None), lb_debug = (\<lambda>_. []),
     lb_to_json = demo_to_json, lb_from_json = demo_from_json, lb_home = None,
     lb_data_base = Some (path_of ''/s''),
     lb_host = \<lparr>he_hostname_cmd = None, he_HOSTNAME = None, he_COMPUTERNAME = None\<rparr>,
     lb_target_os = ''linux'', lb_transfer_id = ''a'', lb_fresh_uuid = (\<lambda>_. ''u''), lb_now = 0\<rparr>"

definition demo_config :: config where
  "demo_config = default_config\<lparr>cf_transfer := default_transfer\<lparr>tc_chunk_size := 2\<rparr>,
     cf_general := default_general\<lparr>gc_download_dir := ''/d''\<rparr>\<rparr>"

definition demo_ack :: "(message option, protocol_error) result" where
  "demo_ack = Ok (Some (ChunkAck \<lparr>ack_id = \<lparr>ci_file_index = 0, ci_chunk_offset = 0\<rparr>, ack_sha256 = []\<rparr>))"

definition demo_world :: "(message option, protocol_error) result list \<Rightarrow> world" where
  "demo_world i = \<lparr>nodes = [path_of ''/f'' \<mapsto> FileN [1, 2, 3], path_of ''/d'' \<mapsto> DirN],
     fault = (\<lambda>_ _ _. None), cap = (\<lambda>_. 1), ticks = 0, wd_connect = Ok (), wd_handshake = Ok (),
     wd_inbox = i, wd_outbox = [], wd_tx_fault = (\<lambda>_. None), wd_shutdown = Ok (), wd_events = [],
     wd_decision = Some DecideAccept, wd_elapsed = (\<lambda>_. (0, 0))\<rparr>"

abbreviation demo_inbox :: "(message option, protocol_error) result list" where
  "demo_inbox \<equiv> Ok (Some (TransferResponse Accept)) # [demo_ack, demo_ack] @ [Ok (Some (TransferVerified True None))]"

lemma demo_world_facts:
  "content (demo_world i) (path_of ''/f'') = Some [1, 2, 3]" "ready (demo_world i)"
  "wd_outbox (demo_world i) = []" "wd_inbox (demo_world i) = i" "0 < tc_chunk_size (cf_transfer demo_config)"
  "wd_connect (demo_world i) = Ok ()" "wd_handshake (demo_world i) = Ok ()"
  by (auto simp: demo_world_def content_def ready_def healthy_def demo_config_def path_eval)

lemma demo_chunks: "all_chunks 0 2 [[1, 2, 3]] = [chunk_msg 0 2 [1, 2, 3] 0, chunk_msg 0 2 [1, 2, 3] 1]"
proof -
  have "nchunks (length [1, 2, 3 :: byte]) 2 = 2" by (simp add: nchunks_def ceil_div_def)
  moreover have "[0..<2] = [0, 1 :: nat]" by (simp add: upt_rec)
  moreover have "effective_chunk_size (length [1, 2, 3 :: byte]) 2 = 2"
    by (simp add: effective_chunk_size_def LARGE_FILE_THRESHOLD_def)
  ultimately show ?thesis unfolding all_chunks.simps file_chunks_def by simp
qed

lemma demo_send:
  "\<exists>m w'. send_files demo_lib demo_config [path_of ''/f''] (demo_world demo_inbox) = (Ok ''a'', w')
     \<and> wd_outbox w' = [TransferRequest m, chunk_msg 0 2 [1, 2, 3] 0, chunk_msg 0 2 [1, 2, 3] 1,
          TransferComplete (compute_manifest_hash demo_lib m)]"
proof -
  let ?w = "demo_world demo_inbox"
  have h: "healthy ?w" using demo_world_facts(2) by (simp add: ready_def)
  have c: "map (content ?w) [path_of ''/f''] = map Some [[1, 2, 3]]" by (simp add: demo_world_facts)
  obtain es w1 where es: "build_entries demo_lib 0 [path_of ''/f''] ?w = (Ok es, w1)"
    using build_entries_ready [OF h c] by blast
  have cs: "tc_chunk_size (cf_transfer demo_config) = 2" by (simp add: demo_config_def)
  have a: "list_all is_ack [demo_ack, demo_ack]" by (simp add: is_ack_def demo_ack_def)
  show ?thesis
    using send_files_run [OF demo_world_facts(2,6,7,5) c _ demo_world_facts(4) a _ es refl]
    unfolding cs demo_chunks by (auto simp: demo_world_facts demo_lib_def)
qed

theorem sender_sends_only_its_files_witness:
  "\<exists>w' x. ChunkData \<lparr>ci_file_index = 0, ci_chunk_offset = 1\<rparr> [3] \<in> set (wd_outbox w')
     \<and> send_files demo_lib demo_config [path_of ''/f''] (demo_world demo_inbox) = (Ok ''a'', w')
     \<and> content (demo_world demo_inbox) ([path_of ''/f''] ! 0) = Some x \<and> [3] = slice (effective_chunk_size (length x) 2) x 1"
proof -
  obtain m w' where w': "send_files demo_lib demo_config [path_of ''/f''] (demo_world demo_inbox) = (Ok ''a'', w')"
    "wd_outbox w' = [TransferRequest m, chunk_msg 0 2 [1, 2, 3] 0, chunk_msg 0 2 [1, 2, 3] 1,
          TransferComplete (compute_manifest_hash demo_lib m)]" using demo_send by blast
  have c: "ChunkData \<lparr>ci_file_index = 0, ci_chunk_offset = 1\<rparr> [3] \<in> set (wd_outbox w')"
    by (simp add: w'(2) chunk_msg_def slice_def as_u32_def)
  have f: "\<forall>p\<in>set [path_of ''/f'']. \<exists>x. content (demo_world demo_inbox) p = Some x \<and> length x < 2 ^ 64"
    by (simp add: demo_world_facts)
  show ?thesis using sender_sends_only_its_files [OF f demo_world_facts(5,3) w'(1) c] c w'(1)
    by (auto simp: demo_config_def)
qed

theorem sender_stop_and_wait_witness:
  "\<exists>w'. send_files demo_lib demo_config [path_of ''/f''] (demo_world demo_inbox) = (Ok ''a'', w')
     \<and> length (filter is_data (wd_outbox w')) \<le> length (filter is_ack demo_inbox) + 1"
proof -
  obtain w' where w': "send_files demo_lib demo_config [path_of ''/f''] (demo_world demo_inbox) = (Ok ''a'', w')"
    using demo_send by blast
  have f: "\<forall>p\<in>set [path_of ''/f'']. \<exists>x. content (demo_world demo_inbox) p = Some x \<and> length x < 2 ^ 64"
    by (simp add: demo_world_facts)
  show ?thesis using sender_stop_and_wait [OF f demo_world_facts(5,3) w'] w' demo_world_facts(4) by auto
qed

end
