(* ===== verification/Receive.thy ===== *)
theory Receive
  imports Send
begin

text \<open>
  The receiver of \<open>crates/justdrop-protocol/src/transfer.rs\<close>, \<open>RecvTransfer::handle_incoming\<close>: the
  decision, the writers, the loop over incoming messages, finalization and the resume state.
\<close>

record recv_transfer =
  rt_config :: config
  rt_resume_manager :: resume_manager

definition recv_transfer_new :: "lib \<Rightarrow> config \<Rightarrow> recv_transfer" where
  "recv_transfer_new lb config =
     \<lparr>rt_config = config,
      rt_resume_manager = rm_new (join (data_dir (lb_data_base lb)) (path_of ''resume''))\<rparr>"

section \<open>Negotiation\<close>

text \<open>\<open>load(..).await.ok().flatten()\<close>\<close>

definition load_state :: "lib \<Rightarrow> recv_transfer \<Rightarrow> transfer_id
   \<Rightarrow> (world, transfer_resume_state option, protocol_error) io" where
  "load_state lb rt tid w =
     (case rm_load (lb_from_json lb) (rt_resume_manager rt) tid w of
        (Ok r, w') \<Rightarrow> (Ok r, w') | (Err e, w') \<Rightarrow> (Ok None, w') | (Panic, w') \<Rightarrow> (Panic, w'))"

definition decide :: "recv_transfer \<Rightarrow> world \<Rightarrow> decision" where
  "decide rt w =
     (if sc_auto_accept_all (cf_security (rt_config rt)) then DecideAccept
      else case wd_decision w of Some d \<Rightarrow> d | None \<Rightarrow> DecideReject ''no response'')"

fun global_offsets :: "transfer_manifest \<Rightarrow> (u32 \<times> u64) list \<Rightarrow> u64 list \<Rightarrow> (u64 list, 'e) result" where
  "global_offsets m [] acc = Ok acc"
| "global_offsets m ((idx, chunk) # cs) acc =
     bind_res (global_chunk_offset m idx chunk) (\<lambda>g. global_offsets m cs (List.insert g acc))"

definition resume_bitmap :: "transfer_manifest \<Rightarrow> transfer_resume_state \<Rightarrow> (bytes, 'e) result" where
  "resume_bitmap m st =
     bind_res (total_chunks m) (\<lambda>n.
     bind_res (global_offsets m
        (concat (map (\<lambda>f. map (\<lambda>c. (fr_file_index f, c)) (fr_completed_chunks f)) (tr_files st))) [])
       (\<lambda>all_completed. Ok (encode_received_bitmap all_completed n)))"

definition negotiate ::
  "recv_transfer \<Rightarrow> transfer_manifest \<Rightarrow> transfer_resume_state option \<Rightarrow> (world, unit, protocol_error) io" where
  "negotiate rt m resume_state w =
     (case decide rt w of
        DecideReject reason \<Rightarrow>
          bind_io (tx (TransferResponse (Reject reason))) (\<lambda>_. fail_io (Rejected reason)) w
      | DecideAccept \<Rightarrow>
          (case resume_state of
             Some st \<Rightarrow> bind_io (lift_io (resume_bitmap m st)) (\<lambda>bitmap.
                          tx (TransferResponse (ResumeAt bitmap))) w
           | None \<Rightarrow> tx (TransferResponse Accept) w))"

section \<open>Receiving\<close>

definition ser_err :: "string \<Rightarrow> ('s, 'a, storage_error) io \<Rightarrow> ('s, 'a, protocol_error) io" where
  "ser_err what = map_err_io (\<lambda>e. Serialization (what @ storage_display e))"

fun open_writers ::
  "path \<Rightarrow> transfer_manifest \<Rightarrow> file_entry list \<Rightarrow> (world, chunk_writer option list, protocol_error) io" where
  "open_writers dir m [] = return_io []"
| "open_writers dir m (f # fs) =
     bind_io (ser_err ''writer init: '' (writer_new (mf_transfer_id m) (fe_index f)
                (join dir (path_of (fe_relative_path f))) (mf_chunk_size m) (fe_size f))) (\<lambda>wr.
     bind_io (open_writers dir m fs) (\<lambda>wrs. return_io (Some wr # wrs)))"

definition receive_chunk ::
  "lib \<Rightarrow> transfer_manifest \<Rightarrow> chunk_writer option list \<Rightarrow> u64 \<Rightarrow> chunk_id \<Rightarrow> bytes
   \<Rightarrow> (world, chunk_writer option list \<times> u64, protocol_error) io" where
  "receive_chunk lb m writers bytes_received cid data =
     (let i = ci_file_index cid in
      bind_io (lift_io (ok_or (if i < length writers then writers ! i else None)
                         (Serialization ''invalid file index''))) (\<lambda>wr.
      bind_io (ser_err ''write: '' (write_chunk (lb_sha256 lb) wr (ci_chunk_offset cid) data)) (\<lambda>(sha256, wr').
      bind_io (tx (ChunkAck \<lparr>ack_id = cid, ack_sha256 = sha256\<rparr>)) (\<lambda>_.
      let bytes_received = add64 bytes_received (length data)
      in bind_io (emit_progress m i bytes_received) (\<lambda>_.
         return_io (writers[i := Some wr'], bytes_received))))))"

text \<open>The loop over the files at the end: \<open>take\<close> each writer, finalize it if it is complete.\<close>

fun finalize_all :: "lib \<Rightarrow> nat \<Rightarrow> chunk_writer option list \<Rightarrow> bool \<Rightarrow> (world, bool, protocol_error) io" where
  "finalize_all lb i [] all_ok = return_io all_ok"
| "finalize_all lb i (None # wrs) all_ok = finalize_all lb (Suc i) wrs all_ok"
| "finalize_all lb i (Some wr # wrs) all_ok =
     (if \<not> is_complete wr then finalize_all lb (Suc i) wrs False
      else bind_io (ser_err ''finalize: '' (finalize (lb_fresh_uuid lb i) wr)) (\<lambda>_.
           finalize_all lb (Suc i) wrs all_ok))"

definition receive_complete ::
  "lib \<Rightarrow> recv_transfer \<Rightarrow> transfer_manifest \<Rightarrow> chunk_writer option list \<Rightarrow> (world, unit, protocol_error) io" where
  "receive_complete lb rt m writers =
     bind_io (finalize_all lb 0 writers True) (\<lambda>all_ok.
     bind_io (tx (TransferVerified all_ok (if all_ok then None else Some ''some files incomplete''))) (\<lambda>_.
     if all_ok
     then bind_io (\<lambda>w. (Ok (), snd (rm_remove (rt_resume_manager rt) (mf_transfer_id m) w))) (\<lambda>_.
          emit (EvCompleted (mf_transfer_id m) Receiving))
     else return_io ()))"

definition file_states :: "transfer_manifest \<Rightarrow> chunk_writer option list \<Rightarrow> file_resume_state list" where
  "file_states m writers = List.map_filter
     (\<lambda>(i, w). map_option (\<lambda>wr. \<lparr>fr_file_index = as_u32 i,
          fr_dest_path = fe_relative_path (mf_files m ! i), fr_temp_path = [],
          fr_file_size = fe_size (mf_files m ! i), fr_chunk_size = mf_chunk_size m,
          fr_completed_chunks = cw_completed wr\<rparr>) w)
     (enumerate 0 writers)"

definition save_resume_state ::
  "lib \<Rightarrow> recv_transfer \<Rightarrow> transfer_manifest \<Rightarrow> chunk_writer option list \<Rightarrow> u64 \<Rightarrow> world \<Rightarrow> world" where
  "save_resume_state lb rt m writers bytes_transferred w =
     (let w1 = snd (rm_init (rt_resume_manager rt) w);
          st = \<lparr>tr_transfer_id = mf_transfer_id m, tr_last_updated = lb_now lb,
                tr_files = file_states m writers, tr_bytes_transferred = bytes_transferred,
                tr_total_bytes = mf_total_size m\<rparr>
      in snd (rm_save (lb_to_json lb) (rt_resume_manager rt) st w1))"

text \<open>The loop on \<open>codec.recv\<close>: its messages are those the codec still has to deliver.\<close>

fun recv_loop ::
  "lib \<Rightarrow> recv_transfer \<Rightarrow> transfer_manifest \<Rightarrow> chunk_writer option list \<Rightarrow> u64
   \<Rightarrow> (message option, protocol_error) result list \<Rightarrow> (world, unit, protocol_error) io" where
  "recv_loop lb rt m writers bytes (Ok (Some (ChunkData cid data)) # msgs) =
     bind_io (receive_chunk lb m writers bytes cid data) (\<lambda>(writers', bytes').
     recv_loop lb rt m writers' bytes' msgs)"
| "recv_loop lb rt m writers bytes (Ok (Some (TransferComplete manifest_hash)) # msgs) =
     receive_complete lb rt m writers"
| "recv_loop lb rt m writers bytes (Ok (Some (Cancel reason)) # msgs) =
     bind_io (\<lambda>w. (Ok (), save_resume_state lb rt m writers bytes w)) (\<lambda>_.
     bind_io (emit (EvCancelled (mf_transfer_id m))) (\<lambda>_.
     fail_io (CancelledBy reason)))"
| "recv_loop lb rt m writers bytes (Ok None # msgs) =
     bind_io (\<lambda>w. (Ok (), save_resume_state lb rt m writers bytes w)) (\<lambda>_.
     fail_io (CancelledBy ''connection closed''))"
| "recv_loop lb rt m writers bytes [] =
     bind_io (\<lambda>w. (Ok (), save_resume_state lb rt m writers bytes w)) (\<lambda>_.
     fail_io (CancelledBy ''connection closed''))"
| "recv_loop lb rt m writers bytes (Ok other # msgs) =
     fail_io (UnexpectedMessage ''Transferring'' (lb_debug lb other))"
| "recv_loop lb rt m writers bytes (Err e # msgs) = fail_io e"
| "recv_loop lb rt m writers bytes (Panic # msgs) = lift_io Panic"

definition handle_incoming :: "lib \<Rightarrow> recv_transfer \<Rightarrow> (world, unit, protocol_error) io" where
  "handle_incoming lb rt =
     bind_io (\<lambda>w. (wd_handshake w, w)) (\<lambda>_.
     bind_io rx (\<lambda>request.
     case request of
       Some (TransferRequest m) \<Rightarrow>
         bind_io (emit (EvIncomingRequest (mf_transfer_id m) m (mf_sender_name m))) (\<lambda>_.
         bind_io (load_state lb rt (mf_transfer_id m)) (\<lambda>resume_state.
         bind_io (negotiate rt m resume_state) (\<lambda>_.
         bind_io (open_writers (download_dir (lb_home lb) (rt_config rt)) m (mf_files m)) (\<lambda>writers.
         bind_io (\<lambda>w. recv_loop lb rt m writers
                        (case resume_state of Some st \<Rightarrow> tr_bytes_transferred st | None \<Rightarrow> 0)
                        (wd_inbox w) (w\<lparr>wd_inbox := []\<rparr>)) (\<lambda>_.
         (\<lambda>w. (wd_shutdown w, w)))))))
     | other \<Rightarrow> fail_io (UnexpectedMessage ''Negotiating'' (lb_debug lb other))))"

section \<open>Incomplete files are not verified\<close>

lemma emit_Ok: "\<exists>w'. emit ev w = (Ok (), w') \<and> wd_outbox w' = wd_outbox w \<and> nodes w' = nodes w"
  by (simp add: emit_def)

lemma receive_chunk_Ok:
  assumes "receive_chunk lb m writers n cid data w = (Ok (writers', n'), w')"
  obtains wr wr' h s1 where "ci_file_index cid < length writers" "writers ! ci_file_index cid = Some wr"
    "write_chunk (lb_sha256 lb) wr (ci_chunk_offset cid) data w = (Ok (h, wr'), s1)"
    "writers' = writers[ci_file_index cid := Some wr']"
  using assms
  by (auto simp: receive_chunk_def bind_io_Ok_iff lift_io_def ser_err_def return_io_def Let_def split: if_splits)

lemma write_chunk_completed:
  assumes "write_chunk sha256 wr off data s = (Ok (h, wr'), s')"
  shows "cw_completed wr' = List.insert off (cw_completed wr) \<and> cw_total_chunks wr' = cw_total_chunks wr
     \<and> off < cw_total_chunks wr"
  using assms by (auto simp: write_chunk_def bind_io_Ok_iff return_io_def fail_io_def Let_def split: if_splits)

definition data_msg :: "chunk_id \<times> bytes \<Rightarrow> (message option, protocol_error) result" where
  "data_msg cd = Ok (Some (ChunkData (fst cd) (snd cd)))"

lemma recv_loop_data:
  "recv_loop lb rt m ws n (data_msg (cid, d) # msgs) =
     bind_io (receive_chunk lb m ws n cid d) (\<lambda>(ws', n'). recv_loop lb rt m ws' n' msgs)"
  by (simp add: data_msg_def)

text \<open>Chunk \<open>off\<close> of file \<open>i\<close> has not been written.\<close>

definition lacks :: "nat \<Rightarrow> u64 \<Rightarrow> chunk_writer option list \<Rightarrow> bool" where
  "lacks i off writers \<longleftrightarrow> (\<exists>wr. i < length writers \<and> writers ! i = Some wr \<and> off \<notin> set (cw_completed wr)
     \<and> off < cw_total_chunks wr \<and> distinct (cw_completed wr)
     \<and> set (cw_completed wr) \<subseteq> {..<cw_total_chunks wr})"

lemma lacks_step:
  assumes "receive_chunk lb m writers n cid data w = (Ok (writers', n'), w')" "lacks i off writers"
    and "\<not> (ci_file_index cid = i \<and> ci_chunk_offset cid = off)"
  shows "lacks i off writers'"
  using assms(1)
proof (rule receive_chunk_Ok)
  fix wr wr' h s1 assume j: "ci_file_index cid < length writers" "writers ! ci_file_index cid = Some wr"
    and wc: "write_chunk (lb_sha256 lb) wr (ci_chunk_offset cid) data w = (Ok (h, wr'), s1)"
    and ws: "writers' = writers[ci_file_index cid := Some wr']"
  show ?thesis
  proof (cases "ci_file_index cid = i")
    case True
    then show ?thesis using assms(2,3) j ws write_chunk_completed [OF wc] by (auto simp: lacks_def)
  next
    case False
    then show ?thesis using assms(2) ws by (simp add: lacks_def)
  qed
qed

lemma lacks_incomplete: "lacks i off writers \<Longrightarrow> writers ! i = Some wr \<Longrightarrow> \<not> is_complete wr"
proof
  assume l: "lacks i off writers" "writers ! i = Some wr" and "is_complete wr"
  then have "card (set (cw_completed wr)) = card {..<cw_total_chunks wr}"
    by (auto simp: lacks_def is_complete_def distinct_card)
  then have "set (cw_completed wr) = {..<cw_total_chunks wr}"
    using l by (intro card_subset_eq) (auto simp: lacks_def)
  then show False using l by (auto simp: lacks_def)
qed

lemma finalize_all_False: "finalize_all lb i wrs False w = (Ok ok, w') \<Longrightarrow> \<not> ok"
  by (induction lb i wrs "False" arbitrary: w rule: finalize_all.induct)
    (auto simp: return_io_def bind_io_Ok_iff split: if_splits)

lemma finalize_all_incomplete:
  assumes "finalize_all lb k wrs b w = (Ok ok, w')" "i < length wrs" "wrs ! i = Some wr" "\<not> is_complete wr"
  shows "\<not> ok"
  using assms
proof (induction wrs arbitrary: k b w i)
  case (Cons v wrs)
  show ?case
  proof (cases i)
    case 0
    then show ?thesis using Cons.prems finalize_all_False [of lb "Suc k" wrs w ok w'] by auto
  next
    case (Suc j)
    then show ?thesis using Cons.prems Cons.IH [of _ _ _ j]
      by (cases v) (auto simp: bind_io_Ok_iff split: if_splits)
  qed
qed simp

text \<open>
  C28. A file of which a chunk never arrived is not reported as verified: if, of the data messages
  before the end of the transfer, none carries the missing chunk, the receiver answers that
  verification failed and emits no completion, whatever else arrived. So a transfer whose sender
  skips chunks that the fresh writers of a resumed transfer lack, or cuts a file over 1 GiB into
  larger chunks than the manifest announces, is always refused at the end.
\<close>

theorem missing_chunk_fails_verification:
  assumes "lacks i off writers"
    and "\<forall>(cid, d)\<in>set data. \<not> (ci_file_index cid = i \<and> ci_chunk_offset cid = off)"
    and "recv_loop lb rt m writers n (map data_msg data @ [Ok (Some (TransferComplete h))]) w = (Ok (), w')"
  shows "last (wd_outbox w') = TransferVerified False (Some ''some files incomplete'')"
  using assms
proof (induction data arbitrary: writers n w)
  case Nil
  then obtain wr where wr: "i < length writers" "writers ! i = Some wr" "\<not> is_complete wr"
    using lacks_incomplete by (auto simp: lacks_def)
  obtain ok w1 where f: "finalize_all lb 0 writers True w = (Ok ok, w1)"
    and "bind_io (tx (TransferVerified ok (if ok then None else Some ''some files incomplete''))) (\<lambda>_.
       if ok then bind_io (\<lambda>w. (Ok (), snd (rm_remove (rt_resume_manager rt) (mf_transfer_id m) w))) (\<lambda>_.
              emit (EvCompleted (mf_transfer_id m) Receiving)) else return_io ()) w1 = (Ok (), w')"
    using Nil.prems(3) by (auto simp: receive_complete_def bind_io_Ok_iff)
  moreover have "\<not> ok" by (rule finalize_all_incomplete [OF f wr])
  ultimately show ?case
    by (auto simp: bind_io_Ok_iff return_io_def tx_def split: option.splits)
next
  case (Cons cd data)
  obtain cid d where cd: "cd = (cid, d)" by (cases cd)
  obtain writers' n' w1 where r: "receive_chunk lb m writers n cid d w = (Ok (writers', n'), w1)"
    and rest: "recv_loop lb rt m writers' n' (map data_msg data @ [Ok (Some (TransferComplete h))]) w1 = (Ok (), w')"
    using Cons.prems(3) cd by (auto simp: recv_loop_data bind_io_Ok_iff)
  have "lacks i off writers'" using lacks_step [OF r Cons.prems(1)] Cons.prems(2) cd by auto
  from Cons.IH [OF this _ rest] Cons.prems(2) show ?case by auto
qed

definition demo_lacking :: chunk_writer where
  "demo_lacking = \<lparr>cw_transfer_id = ''a'', cw_file_index = 0, cw_dest_path = path_of ''/d/f'',
     cw_temp_path = path_of ''/d/f.justdrop_partial'', cw_chunk_size = 2, cw_file_size = 3,
     cw_total_chunks = 2, cw_completed = []\<rparr>"

definition demo_recv :: recv_transfer where
  "demo_recv = \<lparr>rt_config = demo_config, rt_resume_manager = rm_new (path_of ''/r'')\<rparr>"

definition demo_manifest :: transfer_manifest where
  "demo_manifest = manifest_new ''a'' Linux [] [] 2"

theorem missing_chunk_fails_verification_witness:
  "\<exists>w'. recv_loop demo_lib demo_recv demo_manifest [Some demo_lacking] 0
      [Ok (Some (TransferComplete []))] (demo_world []) = (Ok (), w')
    \<and> last (wd_outbox w') = TransferVerified False (Some ''some files incomplete'')"
proof -
  let ?w = "demo_world []"
  let ?w' = "?w\<lparr>wd_outbox := [TransferVerified False (Some ''some files incomplete'')]\<rparr>"
  have l: "lacks 0 1 [Some demo_lacking]" by (simp add: lacks_def demo_lacking_def)
  have f: "finalize_all demo_lib 0 [Some demo_lacking] True ?w = (Ok False, ?w)"
    by (simp add: is_complete_def demo_lacking_def return_io_def)
  have r: "recv_loop demo_lib demo_recv demo_manifest [Some demo_lacking] 0
      [Ok (Some (TransferComplete []))] ?w = (Ok (), ?w')"
    using f tx_ready [of ?w] demo_world_facts(2,3)
    by (simp add: receive_complete_def bind_io_def return_io_def)
  show ?thesis
    using missing_chunk_fails_verification [OF l, of "[]", unfolded list.map append_Nil] r by auto
qed



section \<open>A run without failures\<close>

lemma fs_step_world [simp]:
  "wd_inbox (fs_step k N w) = wd_inbox w" "wd_outbox (fs_step k N w) = wd_outbox w"
  "ready (fs_step k N w) = ready w" "wd_shutdown (fs_step k N w) = wd_shutdown w"
  by (simp_all add: fs_step_def ready_def)

text \<open>One file of the transfer as the receiver sees it: its bytes, temporary file and destination.\<close>

record slot =
  sl_bytes :: bytes
  sl_temp :: path
  sl_dest :: path

definition receiving :: "u32 \<Rightarrow> slot list \<Rightarrow> chunk_writer option list \<Rightarrow> world \<Rightarrow> bool" where
  "receiving cs slots writers w \<longleftrightarrow> length writers = length slots \<and> distinct (map sl_temp slots)
     \<and> (\<forall>i<length slots. \<exists>wr d. writers ! i = Some wr \<and> writer_ok wr \<and> cw_chunk_size wr = cs
          \<and> cw_file_size wr = length (sl_bytes (slots ! i)) \<and> cw_temp_path wr = sl_temp (slots ! i)
          \<and> cw_dest_path wr = sl_dest (slots ! i) \<and> content w (sl_temp (slots ! i)) = Some d
          \<and> holds wr (sl_bytes (slots ! i)) d)"

definition got :: "chunk_writer option list \<Rightarrow> nat \<Rightarrow> nat set" where
  "got writers i = (case writers ! i of Some wr \<Rightarrow> set (cw_completed wr) | None \<Rightarrow> {})"

definition slot_msg :: "u32 \<Rightarrow> slot list \<Rightarrow> nat \<times> nat \<Rightarrow> chunk_id \<times> bytes" where
  "slot_msg cs slots io = (\<lparr>ci_file_index = fst io, ci_chunk_offset = snd io\<rparr>,
     slice cs (sl_bytes (slots ! fst io)) (snd io))"

definition ack_of :: "lib \<Rightarrow> chunk_id \<times> bytes \<Rightarrow> message" where
  "ack_of lb cd = ChunkAck \<lparr>ack_id = fst cd, ack_sha256 = lb_sha256 lb (snd cd)\<rparr>"

definition in_slots :: "u32 \<Rightarrow> slot list \<Rightarrow> nat \<times> nat \<Rightarrow> bool" where
  "in_slots cs slots io \<longleftrightarrow> fst io < length slots
     \<and> snd io < nchunks (length (sl_bytes (slots ! fst io))) cs"

definition same_nodes :: "slot list \<Rightarrow> world \<Rightarrow> world \<Rightarrow> bool" where
  "same_nodes slots w w' \<longleftrightarrow> (\<forall>p. p \<notin> sl_temp ` set slots \<longrightarrow> nodes w' p = nodes w p)"

lemma receiving_update:
  assumes r: "receiving cs slots writers w" and i: "i < length slots"
    and wr: "writer_ok wr" "cw_chunk_size wr = cs" "cw_file_size wr = length (sl_bytes (slots ! i))"
      "cw_temp_path wr = sl_temp (slots ! i)" "cw_dest_path wr = sl_dest (slots ! i)" "holds wr (sl_bytes (slots ! i)) d"
    and w': "content w' = (content w)(sl_temp (slots ! i) \<mapsto> d)"
  shows "receiving cs slots (writers[i := Some wr]) w'"
  unfolding receiving_def
proof (intro conjI allI impI)
  fix j assume j: "j < length slots"
  show "\<exists>wr' d. writers[i := Some wr] ! j = Some wr' \<and> writer_ok wr' \<and> cw_chunk_size wr' = cs
        \<and> cw_file_size wr' = length (sl_bytes (slots ! j)) \<and> cw_temp_path wr' = sl_temp (slots ! j)
        \<and> cw_dest_path wr' = sl_dest (slots ! j) \<and> content w' (sl_temp (slots ! j)) = Some d
        \<and> holds wr' (sl_bytes (slots ! j)) d"
  proof (cases "j = i")
    case True
    have "i < length writers" using r i by (simp add: receiving_def)
    then show ?thesis using True wr w' by (intro exI [of _ wr] exI [of _ d]) simp
  next
    case False
    then have "sl_temp (slots ! j) \<noteq> sl_temp (slots ! i)"
      using r i j by (auto simp: receiving_def distinct_conv_nth dest: spec [of _ j])
    then show ?thesis using False r j w' by (simp add: receiving_def)
  qed
qed (use r in \<open>simp_all add: receiving_def\<close>)

lemma receive_chunk_run:
  assumes "ready w" "receiving cs slots writers w" "in_slots cs slots (i, off)"
  shows "\<exists>writers' n' w'. receive_chunk lb m writers n (fst (slot_msg cs slots (i, off)))
        (snd (slot_msg cs slots (i, off))) w = (Ok (writers', n'), w')
     \<and> ready w' \<and> receiving cs slots writers' w' \<and> same_nodes slots w w'
     \<and> wd_outbox w' = wd_outbox w @ [ack_of lb (slot_msg cs slots (i, off))] \<and> wd_inbox w' = wd_inbox w
     \<and> (\<forall>j<length slots. got writers' j = got writers j \<union> (if j = i then {off} else {}))"
proof -
  let ?x = "sl_bytes (slots ! i)" and ?t = "sl_temp (slots ! i)"
  have i: "i < length slots" "i < length writers" "off < nchunks (length ?x) cs"
    using assms(2,3) by (simp_all add: in_slots_def receiving_def)
  obtain wr d where wr: "writers ! i = Some wr" "writer_ok wr" "cw_chunk_size wr = cs" "cw_file_size wr = length ?x"
    "cw_temp_path wr = ?t" "cw_dest_path wr = sl_dest (slots ! i)" "content w ?t = Some d" "holds wr ?x d"
    using assms(2) i(1) unfolding receiving_def by blast
  have off: "off < cw_total_chunks wr" using i(3) writer_okD(3) [OF wr(2)] wr(3,4) by simp
  let ?y = "slice cs ?x off"
  let ?wr = "wr\<lparr>cw_completed := List.insert off (cw_completed wr)\<rparr>"
  let ?d = "write_at (off * cs) ?y d"
  let ?w1 = "fs_step 4 ((nodes w)(?t \<mapsto> FileN ?d)) w"
  have "healthy w" using assms(1) by (simp add: ready_def)
  from write_chunk_run [OF this wr(2) off, of d "lb_sha256 lb" ?y]
  have wc: "write_chunk (lb_sha256 lb) wr off ?y w = (Ok (lb_sha256 lb ?y, ?wr), ?w1)"
    using wr by simp
  let ?ack = "ack_of lb (slot_msg cs slots (i, off))"
  let ?w2 = "?w1\<lparr>wd_outbox := wd_outbox w @ [?ack]\<rparr>"
  have t: "tx ?ack ?w1 = (Ok (), ?w2)" using tx_ready [of ?w1 ?ack] assms(1) by simp
  obtain w3 where p: "emit_progress m i (add64 n (length ?y)) ?w2 = (Ok (), w3)" and w3: "w3 = ?w2\<lparr>wd_events := wd_events w3\<rparr>"
    by (auto simp: emit_progress_def emit_def Let_def)
  have n3: "nodes w3 = (nodes w)(?t \<mapsto> FileN ?d)" "content w3 = (content w)(?t \<mapsto> ?d)" "ready w3"
    "wd_outbox w3 = wd_outbox w @ [?ack]" "wd_inbox w3 = wd_inbox w"
    using assms(1) by (subst w3; auto simp: content_def fun_eq_iff intro!: ready_fields)+
  have run: "receive_chunk lb m writers n (fst (slot_msg cs slots (i, off))) (snd (slot_msg cs slots (i, off))) w
      = (Ok (writers[i := Some ?wr], add64 n (length ?y)), w3)"
    using i(2) wr(1) wc t p
    by (simp add: receive_chunk_def slot_msg_def ack_of_def bind_io_def lift_io_def ser_err_def map_err_io_def
        return_io_def Let_def)
  have hold: "holds ?wr ?x ?d" using holds_write [OF wr(2,4,8) off] wr(3) by simp
  have "receiving cs slots (writers[i := Some ?wr]) w3"
    by (rule receiving_update [OF assms(2) i(1) writer_ok_insert [OF wr(2) off] _ _ _ _ hold n3(2)]) (use wr in simp_all)
  moreover have "\<forall>j<length slots. got (writers[i := Some ?wr]) j = got writers j \<union> (if j = i then {off} else {})"
    using i(2) wr(1) by (auto simp: got_def nth_list_update)
  moreover have "same_nodes slots w w3" using n3(1) i(1) by (auto simp: same_nodes_def)
  ultimately show ?thesis using run n3 by blast
qed

lemma receive_all_run:
  assumes "ready w" "receiving cs slots writers w" "\<forall>io\<in>set ios. in_slots cs slots io"
  shows "\<exists>writers' n' w'. recv_loop lb rt m writers n (map (\<lambda>io. data_msg (slot_msg cs slots io)) ios @ rest) w
        = recv_loop lb rt m writers' n' rest w'
     \<and> ready w' \<and> receiving cs slots writers' w' \<and> same_nodes slots w w' \<and> wd_inbox w' = wd_inbox w
     \<and> wd_outbox w' = wd_outbox w @ map (\<lambda>io. ack_of lb (slot_msg cs slots io)) ios
     \<and> (\<forall>j<length slots. got writers' j = got writers j \<union> {off. (j, off) \<in> set ios})"
  using assms
proof (induction ios arbitrary: writers n w)
  case Nil
  then show ?case by (intro exI [of _ writers] exI [of _ n] exI [of _ w]) (simp add: same_nodes_def)
next
  case (Cons io ios)
  obtain i off where io: "io = (i, off)" by (cases io)
  obtain writers1 n1 w1 where s: "receive_chunk lb m writers n (fst (slot_msg cs slots (i, off)))
        (snd (slot_msg cs slots (i, off))) w = (Ok (writers1, n1), w1)"
    and r: "ready w1" "receiving cs slots writers1 w1" "same_nodes slots w w1"
      "wd_outbox w1 = wd_outbox w @ [ack_of lb (slot_msg cs slots (i, off))]" "wd_inbox w1 = wd_inbox w"
      "\<forall>j<length slots. got writers1 j = got writers j \<union> (if j = i then {off} else {})"
    using receive_chunk_run [OF Cons.prems(1,2), of i off lb m n] Cons.prems(3) io by auto
  from Cons.IH [OF r(1,2), of n1] Cons.prems(3) obtain writers' n' w' where
    l: "recv_loop lb rt m writers1 n1 (map (\<lambda>io. data_msg (slot_msg cs slots io)) ios @ rest) w1 = recv_loop lb rt m writers' n' rest w'"
    and l': "ready w'" "receiving cs slots writers' w'" "same_nodes slots w1 w'" "wd_inbox w' = wd_inbox w1"
      "wd_outbox w' = wd_outbox w1 @ map (\<lambda>io. ack_of lb (slot_msg cs slots io)) ios"
      "\<forall>j<length slots. got writers' j = got writers1 j \<union> {off. (j, off) \<in> set ios}" by auto
  have "recv_loop lb rt m writers n (map (\<lambda>io. data_msg (slot_msg cs slots io)) (io # ios) @ rest) w
      = recv_loop lb rt m writers' n' rest w'"
    using s l io recv_loop_data [of lb rt m writers n "fst (slot_msg cs slots io)" "snd (slot_msg cs slots io)"]
    by (simp add: bind_io_def)
  moreover have "same_nodes slots w w'" using r(3) l'(3) by (simp add: same_nodes_def)
  moreover have "\<forall>j<length slots. got writers' j = got writers j \<union> {off. (j, off) \<in> set (io # ios)}"
    using l'(6) r(6) io by auto
  ultimately show ?case using l' r(4,5) io by (intro exI conjI) simp_all
qed

text \<open>The download directory exists; the names of the files are free and do not collide.\<close>

definition clear_target :: "path \<Rightarrow> slot list \<Rightarrow> 'a fs_scheme \<Rightarrow> bool" where
  "clear_target dir slots s \<longleftrightarrow> dirs_ok s dir \<and> distinct (map sl_temp slots @ map sl_dest slots)
     \<and> (\<forall>sl\<in>set slots. parent (sl_dest sl) = Some dir
          \<and> sl_temp sl = with_extension (sl_dest sl) ''justdrop_partial''
          \<and> nodes s (sl_dest sl) = None \<and> nodes s (sl_temp sl) \<noteq> Some DirN)"

lemma clear_targetD:
  assumes "clear_target dir slots s"
  shows "dirs_ok s dir" "distinct (map sl_temp slots @ map sl_dest slots)"
    and "sl \<in> set slots \<Longrightarrow> parent (sl_dest sl) = Some dir"
    and "sl \<in> set slots \<Longrightarrow> parent (sl_temp sl) = Some dir"
    and "sl \<in> set slots \<Longrightarrow> sl_temp sl = with_extension (sl_dest sl) ''justdrop_partial''"
    and "sl \<in> set slots \<Longrightarrow> nodes s (sl_dest sl) = None"
    and "sl \<in> set slots \<Longrightarrow> nodes s (sl_temp sl) \<noteq> Some DirN"
proof -
  note c = assms [unfolded clear_target_def]
  show "dirs_ok s dir" "distinct (map sl_temp slots @ map sl_dest slots)" using c by blast+
  show "sl \<in> set slots \<Longrightarrow> parent (sl_dest sl) = Some dir" using c by blast
  show "sl \<in> set slots \<Longrightarrow> sl_temp sl = with_extension (sl_dest sl) ''justdrop_partial''" using c by blast
  then show "sl \<in> set slots \<Longrightarrow> parent (sl_temp sl) = Some dir"
    using c parent_with_extension [of "sl_dest sl"] by auto
  show "sl \<in> set slots \<Longrightarrow> nodes s (sl_dest sl) = None" using c by blast
  show "sl \<in> set slots \<Longrightarrow> nodes s (sl_temp sl) \<noteq> Some DirN" using c by blast
qed

lemma clear_targetI:
  assumes "dirs_ok s' dir" "clear_target dir slots s"
    and "\<And>x. x \<in> set slots \<Longrightarrow> nodes s' (sl_dest x) = nodes s (sl_dest x) \<and> nodes s' (sl_temp x) = nodes s (sl_temp x)"
  shows "clear_target dir slots s'"
proof -
  have "parent (sl_dest x) = Some dir \<and> sl_temp x = with_extension (sl_dest x) ''justdrop_partial''
      \<and> nodes s' (sl_dest x) = None \<and> nodes s' (sl_temp x) \<noteq> Some DirN" if "x \<in> set slots" for x
    using assms(3) [OF that] clear_targetD(3,5-7) [OF assms(2) that] by metis
  then show ?thesis using assms(1) clear_targetD(2) [OF assms(2)] unfolding clear_target_def by blast
qed

lemma clear_target_Cons:
  assumes "clear_target dir (sl # slots) s"
  shows "clear_target dir slots s" "sl_temp sl \<noteq> sl_dest sl"
    and "x \<in> set slots \<Longrightarrow> sl_dest x \<noteq> sl_temp sl \<and> sl_dest x \<noteq> sl_dest sl
           \<and> sl_temp x \<noteq> sl_temp sl \<and> sl_temp x \<noteq> sl_dest sl"
proof -
  have d: "distinct (map sl_temp (sl # slots) @ map sl_dest (sl # slots))" by (rule clear_targetD(2) [OF assms])
  show "sl_temp sl \<noteq> sl_dest sl" using d by simp
  show "x \<in> set slots \<Longrightarrow> sl_dest x \<noteq> sl_temp sl \<and> sl_dest x \<noteq> sl_dest sl
           \<and> sl_temp x \<noteq> sl_temp sl \<and> sl_temp x \<noteq> sl_dest sl"
    using d by auto (metis imageI)+
  have "distinct (map sl_temp slots @ map sl_dest slots)" using d by simp
  then show "clear_target dir slots s"
    using assms unfolding clear_target_def by (meson list.set_intros(2))
qed

lemma clear_target_tail:
  assumes "clear_target dir (sl # slots) s"
  shows "clear_target dir slots (fs_step k ((nodes s)(sl_temp sl := n)) s)"
proof (rule clear_targetI [OF _ clear_target_Cons(1) [OF assms]])
  show "dirs_ok (fs_step k ((nodes s)(sl_temp sl := n)) s) dir"
    by (rule dirs_ok_upd [OF clear_targetD(1) [OF assms] clear_targetD(4) [OF assms]]) simp
qed (simp add: clear_target_Cons(3) [OF assms])

lemma clear_target_moved:
  assumes "clear_target dir (sl # slots) s"
  shows "clear_target dir slots (fs_step k ((nodes s)(sl_temp sl := None, sl_dest sl := n)) s)"
proof (rule clear_targetI [OF _ clear_target_Cons(1) [OF assms]])
  have p: "parent (sl_temp sl) = Some dir" "parent (sl_dest sl) = Some dir"
    by (rule clear_targetD(4) [OF assms] clear_targetD(3) [OF assms], simp)+
  have "dirs_ok (fs_step 0 ((nodes s)(sl_temp sl := None)) s) dir"
    by (rule dirs_ok_upd [OF clear_targetD(1) [OF assms] p(1)])
  from dirs_ok_upd [OF this p(2), of k n]
  show "dirs_ok (fs_step k ((nodes s)(sl_temp sl := None, sl_dest sl := n)) s) dir"
    by (simp add: dirs_ok_def)
qed (simp add: clear_target_Cons(3) [OF assms])

lemma receiving_Cons:
  assumes "receiving cs slots writers w" and "sl_temp sl \<notin> sl_temp ` set slots"
    and "writer_ok wr" "cw_chunk_size wr = cs" "cw_file_size wr = length (sl_bytes sl)"
      "cw_temp_path wr = sl_temp sl" "cw_dest_path wr = sl_dest sl" "content w (sl_temp sl) = Some d" "holds wr (sl_bytes sl) d"
  shows "receiving cs (sl # slots) (Some wr # writers) w"
  unfolding receiving_def
proof (intro conjI allI impI)
  show "distinct (map sl_temp (sl # slots))" using assms(1,2) by (auto simp: receiving_def)
  fix j assume "j < length (sl # slots)"
  then show "\<exists>wr' d. (Some wr # writers) ! j = Some wr' \<and> writer_ok wr' \<and> cw_chunk_size wr' = cs
        \<and> cw_file_size wr' = length (sl_bytes ((sl # slots) ! j)) \<and> cw_temp_path wr' = sl_temp ((sl # slots) ! j)
        \<and> cw_dest_path wr' = sl_dest ((sl # slots) ! j) \<and> content w (sl_temp ((sl # slots) ! j)) = Some d
        \<and> holds wr' (sl_bytes ((sl # slots) ! j)) d"
    using assms by (cases j) (auto simp: receiving_def)
qed (use assms(1) in \<open>simp add: receiving_def\<close>)

lemma open_writers_run:
  assumes "ready w" "clear_target dir slots w" "length fs = length slots" "0 < mf_chunk_size m"
    and "\<forall>i<length slots. join dir (path_of (fe_relative_path (fs ! i))) = sl_dest (slots ! i)
          \<and> fe_size (fs ! i) = length (sl_bytes (slots ! i)) \<and> length (sl_bytes (slots ! i)) < 2 ^ 64"
  shows "\<exists>writers w'. open_writers dir m fs w = (Ok writers, w') \<and> ready w'
     \<and> receiving (mf_chunk_size m) slots writers w' \<and> same_nodes slots w w'
     \<and> wd_inbox w' = wd_inbox w \<and> wd_outbox w' = wd_outbox w \<and> (\<forall>j<length slots. got writers j = {})"
  using assms
proof (induction slots arbitrary: fs w)
  case Nil
  then show ?case by (auto simp: return_io_def receiving_def same_nodes_def)
next
  case (Cons sl slots)
  obtain f fs' where fs: "fs = f # fs'" "length fs' = length slots" using Cons.prems(3) by (cases fs) auto
  let ?cs = "mf_chunk_size m" and ?t = "sl_temp sl"
  have f: "join dir (path_of (fe_relative_path f)) = sl_dest sl" "fe_size f = length (sl_bytes sl)"
    "length (sl_bytes sl) < 2 ^ 64" using Cons.prems(5) fs by (auto dest: spec [of _ 0])
  have c: "dirs_ok w dir" "parent (sl_dest sl) = Some dir" "?t = with_extension (sl_dest sl) ''justdrop_partial''"
    "nodes w ?t \<noteq> Some DirN" "healthy w"
    using Cons.prems(1,2) by (auto simp: clear_target_def ready_def)
  obtain wr d where new: "writer_new (mf_transfer_id m) (fe_index f) (sl_dest sl) ?cs (fe_size f) w
      = (Ok wr, fs_step 3 ((nodes w)(?t \<mapsto> FileN d)) w)" and len: "length d = length (sl_bytes sl)"
    using writer_new_run [OF c(5,1,2) Cons.prems(4) c(3,4)] f(2) by metis
  let ?w1 = "fs_step 3 ((nodes w)(?t \<mapsto> FileN d)) w"
  note W = writer_new_Ok [OF new Cons.prems(4)]
  have r1: "ready ?w1" using Cons.prems(1) by simp
  have rest: "join dir (path_of (fe_relative_path (fs' ! i))) = sl_dest (slots ! i)
      \<and> fe_size (fs' ! i) = length (sl_bytes (slots ! i)) \<and> length (sl_bytes (slots ! i)) < 2 ^ 64"
    if "i < length slots" for i
    using Cons.prems(5) [rule_format, of "Suc i"] that fs by simp
  have ct1: "clear_target dir slots ?w1" by (rule clear_target_tail [OF Cons.prems(2)])
  from Cons.IH [OF r1 ct1 fs(2) Cons.prems(4)] rest
  obtain writers w' where o: "open_writers dir m fs' ?w1 = (Ok writers, w')" "ready w'"
    "receiving ?cs slots writers w'" "same_nodes slots ?w1 w'" "wd_inbox w' = wd_inbox w"
    "wd_outbox w' = wd_outbox w" "\<forall>j<length slots. got writers j = {}" by auto
  have "?t \<notin> sl_temp ` set slots" using Cons.prems(2) by (auto simp: clear_target_def)
  then have "nodes w' ?t = Some (FileN d)" using o(4) by (simp add: same_nodes_def)
  then have t: "content w' ?t = Some d" by (simp add: content_Some)
  have "receiving ?cs (sl # slots) (Some wr # writers) w'"
  proof (rule receiving_Cons [where d = d, OF o(3)])
    show "sl_temp sl \<notin> sl_temp ` set slots" using Cons.prems(2) by (auto simp: clear_target_def)
  qed (use W(1-6) t len f(2,3) c(3) in \<open>auto simp: holds_def\<close>)
  moreover have "open_writers dir m fs w = (Ok (Some wr # writers), w')"
    using new o(1) f(1) fs(1) by (simp add: bind_io_def ser_err_def map_err_io_def return_io_def)
  moreover have "same_nodes (sl # slots) w w'" using o(4) by (auto simp: same_nodes_def)
  moreover have "\<forall>j<length (sl # slots). got (Some wr # writers) j = {}"
  proof (intro allI impI)
    fix j assume "j < length (sl # slots)"
    then show "got (Some wr # writers) j = {}"
      using o(7) W(2) f(2,3) by (cases j) (auto simp: got_def)
  qed
  ultimately show ?case using o(2,5,6) by blast
qed

lemma finalize_all_run:
  assumes "ready w" "clear_target dir slots w" "length writers = length slots"
    and "\<forall>i<length slots. \<exists>wr. writers ! i = Some wr \<and> is_complete wr \<and> cw_temp_path wr = sl_temp (slots ! i)
          \<and> cw_dest_path wr = sl_dest (slots ! i) \<and> content w (sl_temp (slots ! i)) = Some (sl_bytes (slots ! i))"
  shows "\<exists>w'. finalize_all lb k writers True w = (Ok True, w') \<and> ready w' \<and> wd_outbox w' = wd_outbox w
     \<and> wd_inbox w' = wd_inbox w
     \<and> (\<forall>sl\<in>set slots. content w' (sl_dest sl) = Some (sl_bytes sl) \<and> nodes w' (sl_temp sl) = None)
     \<and> (\<forall>p. p \<notin> sl_temp ` set slots \<and> p \<notin> sl_dest ` set slots \<longrightarrow> nodes w' p = nodes w p)"
  using assms
proof (induction slots arbitrary: writers w k)
  case Nil
  then show ?case by (simp add: return_io_def)
next
  case (Cons sl slots)
  obtain wr writers' where ws: "writers = Some wr # writers'" "length writers' = length slots"
    and wr: "is_complete wr" "cw_temp_path wr = sl_temp sl" "cw_dest_path wr = sl_dest sl"
      "content w (sl_temp sl) = Some (sl_bytes sl)"
    using Cons.prems(3,4) by (cases writers) (auto dest!: spec [of _ 0])
  have d: "nodes w (sl_dest sl) = None" "parent_ok w (sl_dest sl)" "healthy w"
    using Cons.prems(1,2) dirs_ok_is_dir [of w dir] by (auto simp: clear_target_def ready_def parent_ok_def)
  let ?w1 = "fs_step 2 ((nodes w)(sl_temp sl := None, sl_dest sl \<mapsto> FileN (sl_bytes sl))) w"
  have f: "finalize (lb_fresh_uuid lb k) wr w = (Ok (), ?w1)"
    using finalize_run [of w wr "sl_bytes sl" "lb_fresh_uuid lb k"] d wr by simp
  have c1: "clear_target dir slots ?w1" by (rule clear_target_moved [OF Cons.prems(2)])
  have keep: "content ?w1 (sl_temp (slots ! i)) = content w (sl_temp (slots ! i))" if "i < length slots" for i
  proof -
    have "sl_temp (slots ! i) \<in> sl_temp ` set slots" using that by simp
    then have "sl_temp (slots ! i) \<noteq> sl_temp sl" "sl_temp (slots ! i) \<noteq> sl_dest sl"
      using Cons.prems(2) by (auto simp: clear_target_def)
    then show ?thesis by (simp add: content_def)
  qed
  have rest: "\<exists>wr. writers' ! i = Some wr \<and> is_complete wr \<and> cw_temp_path wr = sl_temp (slots ! i)
          \<and> cw_dest_path wr = sl_dest (slots ! i) \<and> content ?w1 (sl_temp (slots ! i)) = Some (sl_bytes (slots ! i))"
    if "i < length slots" for i
    using Cons.prems(4) [rule_format, of "Suc i"] that ws(1) keep [OF that] by simp
  from Cons.IH [OF _ c1 ws(2), of "Suc k"] rest Cons.prems(1) obtain w' where
    w': "finalize_all lb (Suc k) writers' True ?w1 = (Ok True, w')" "ready w'" "wd_outbox w' = wd_outbox w"
      "wd_inbox w' = wd_inbox w"
      "\<forall>sl\<in>set slots. content w' (sl_dest sl) = Some (sl_bytes sl) \<and> nodes w' (sl_temp sl) = None"
      "\<forall>p. p \<notin> sl_temp ` set slots \<and> p \<notin> sl_dest ` set slots \<longrightarrow> nodes w' p = nodes ?w1 p" by auto
  have out: "sl_dest sl \<notin> sl_temp ` set slots \<and> sl_dest sl \<notin> sl_dest ` set slots"
    "sl_temp sl \<notin> sl_temp ` set slots \<and> sl_temp sl \<notin> sl_dest ` set slots" "sl_temp sl \<noteq> sl_dest sl"
    using Cons.prems(2) by (auto simp: clear_target_def)
  have "nodes w' (sl_dest sl) = Some (FileN (sl_bytes sl))" "nodes w' (sl_temp sl) = None"
    using w'(6) out by simp_all
  moreover have "\<forall>p. p \<notin> sl_temp ` set (sl # slots) \<and> p \<notin> sl_dest ` set (sl # slots) \<longrightarrow> nodes w' p = nodes w p"
    using w'(6) by simp
  moreover have "finalize_all lb k writers True w = (Ok True, w')"
    using ws(1) wr(1) f w'(1) by (simp add: bind_io_def ser_err_def map_err_io_def)
  ultimately show ?case using w'(2-5) by (simp add: content_Some)
qed

end
