(* ===== verification/Conversation.thy ===== *)
theory Conversation
  imports Receive
begin

text \<open>
  A transfer between the sender of \<open>Send\<close> and the receiver of \<open>Receive\<close>, both from
  \<open>crates/justdrop-protocol/src/transfer.rs\<close>: what each sends is what the other receives. The lemmas
  run the receiver on any order of the chunks; the property puts the two sides together.
\<close>

section \<open>The receiver on a complete transfer\<close>

text \<open>No saved state of the transfer exists and its files do not include the state file.\<close>

definition clean_start :: "recv_transfer \<Rightarrow> transfer_id \<Rightarrow> slot list \<Rightarrow> world \<Rightarrow> bool" where
  "clean_start rt tid slots w \<longleftrightarrow>
     (let p = state_path (rt_resume_manager rt) tid
      in nodes w p = None \<and> p \<notin> sl_temp ` set slots \<and> p \<notin> sl_dest ` set slots)"

text \<open>The manifest lists the files of the slots, relative to the download directory.\<close>

definition describes_slots :: "path \<Rightarrow> transfer_manifest \<Rightarrow> slot list \<Rightarrow> bool" where
  "describes_slots dir m slots \<longleftrightarrow> 0 < mf_chunk_size m \<and> length (mf_files m) = length slots
     \<and> (\<forall>i<length slots. join dir (path_of (fe_relative_path (mf_files m ! i))) = sl_dest (slots ! i)
          \<and> fe_size (mf_files m ! i) = length (sl_bytes (slots ! i)) \<and> length (sl_bytes (slots ! i)) < 2 ^ 64)"

text \<open>The data messages, as pairs of a file and a chunk, include every chunk.\<close>

definition covers :: "u32 \<Rightarrow> slot list \<Rightarrow> (nat \<times> nat) list \<Rightarrow> bool" where
  "covers cs slots ios \<longleftrightarrow> (\<forall>io\<in>set ios. in_slots cs slots io)
     \<and> (\<forall>i<length slots. \<forall>off<nchunks (length (sl_bytes (slots ! i))) cs. (i, off) \<in> set ios)"

lemma load_state_absent:
  assumes "ready w" "nodes w (state_path (rt_resume_manager rt) tid) = None"
  shows "\<exists>w'. load_state lb rt tid w = (Ok None, w') \<and> ready w' \<and> nodes w' = nodes w
     \<and> wd_inbox w' = wd_inbox w \<and> wd_outbox w' = wd_outbox w \<and> wd_decision w' = wd_decision w"
  using assms
  by (auto simp: load_state_def rm_load_def Let_def bind_io_def present_healthy return_io_def ready_def)

lemma remove_absent:
  assumes "ready w" "nodes w (state_path rm tid) = None"
  shows "\<exists>w'. snd (rm_remove rm tid w) = w' \<and> ready w' \<and> nodes w' = nodes w \<and> wd_outbox w' = wd_outbox w"
  using assms
  by (auto simp: rm_remove_def Let_def bind_io_def present_healthy return_io_def ready_def)

lemma receive_all_complete:
  assumes "receiving cs slots writers w" "0 < cs"
    and "\<forall>i<length slots. {..<nchunks (length (sl_bytes (slots ! i))) cs} \<subseteq> got writers i"
  shows "\<forall>i<length slots. \<exists>wr. writers ! i = Some wr \<and> is_complete wr \<and> cw_temp_path wr = sl_temp (slots ! i)
          \<and> cw_dest_path wr = sl_dest (slots ! i) \<and> content w (sl_temp (slots ! i)) = Some (sl_bytes (slots ! i))"
proof (intro allI impI)
  fix i assume i: "i < length slots"
  let ?x = "sl_bytes (slots ! i)"
  obtain wr d where wr: "writers ! i = Some wr" "writer_ok wr" "cw_chunk_size wr = cs" "cw_file_size wr = length ?x"
    "cw_temp_path wr = sl_temp (slots ! i)" "cw_dest_path wr = sl_dest (slots ! i)"
    "content w (sl_temp (slots ! i)) = Some d" "holds wr ?x d"
    using assms(1) i unfolding receiving_def by blast
  have "set (cw_completed wr) = {..<cw_total_chunks wr}"
    using assms(3) [rule_format, OF i] wr(1,3,4) writer_okD(2,3) [OF wr(2)] by (auto simp: got_def)
  then have c: "is_complete wr" using complete_iff_all [OF wr(2)] by simp
  then show "\<exists>wr. writers ! i = Some wr \<and> is_complete wr \<and> cw_temp_path wr = sl_temp (slots ! i)
          \<and> cw_dest_path wr = sl_dest (slots ! i) \<and> content w (sl_temp (slots ! i)) = Some ?x"
    using holds_complete [OF wr(2,4,8) c] wr by auto
qed

lemma receive_complete_run:
  assumes "ready w" "clear_target dir slots w" "length writers = length slots" "clean_start rt (mf_transfer_id m) slots w"
    and "\<forall>i<length slots. \<exists>wr. writers ! i = Some wr \<and> is_complete wr \<and> cw_temp_path wr = sl_temp (slots ! i)
          \<and> cw_dest_path wr = sl_dest (slots ! i) \<and> content w (sl_temp (slots ! i)) = Some (sl_bytes (slots ! i))"
  shows "\<exists>w'. receive_complete lb rt m writers w = (Ok (), w') \<and> ready w'
     \<and> wd_outbox w' = wd_outbox w @ [TransferVerified True None]
     \<and> (\<forall>sl\<in>set slots. content w' (sl_dest sl) = Some (sl_bytes sl) \<and> nodes w' (sl_temp sl) = None)
     \<and> (\<forall>p. p \<notin> sl_temp ` set slots \<and> p \<notin> sl_dest ` set slots \<longrightarrow> nodes w' p = nodes w p)"
proof -
  obtain w1 where f: "finalize_all lb 0 writers True w = (Ok True, w1)" and w1: "ready w1" "wd_outbox w1 = wd_outbox w"
     "\<forall>sl\<in>set slots. content w1 (sl_dest sl) = Some (sl_bytes sl) \<and> nodes w1 (sl_temp sl) = None"
     "\<forall>p. p \<notin> sl_temp ` set slots \<and> p \<notin> sl_dest ` set slots \<longrightarrow> nodes w1 p = nodes w p"
    using finalize_all_run [OF assms(1,2,3,5), of lb 0] by blast
  let ?msg = "TransferVerified True None"
  let ?w2 = "w1\<lparr>wd_outbox := wd_outbox w1 @ [?msg]\<rparr>"
  have r2: "ready ?w2" by (intro ready_fields w1(1))
  have "nodes ?w2 (state_path (rt_resume_manager rt) (mf_transfer_id m)) = None"
    using assms(4) w1(4) by (simp add: clean_start_def Let_def)
  from remove_absent [OF r2 this] obtain w3 where
    w3: "snd (rm_remove (rt_resume_manager rt) (mf_transfer_id m) ?w2) = w3" "ready w3" "nodes w3 = nodes w1"
      "wd_outbox w3 = wd_outbox w @ [?msg]" using w1(2) by auto
  let ?w4 = "w3\<lparr>wd_events := wd_events w3 @ [EvCompleted (mf_transfer_id m) Receiving]\<rparr>"
  have "receive_complete lb rt m writers w = (Ok (), ?w4)"
    using f tx_ready [OF w1(1), of ?msg] w3(1)
    by (simp add: receive_complete_def bind_io_def emit_def)
  moreover have "ready ?w4" by (intro ready_fields w3(2))
  ultimately show ?thesis using w3 w1(3,4) by (auto simp: content_def)
qed

lemma clear_target_same:
  assumes "clear_target dir slots w" "same_nodes slots w w'"
    and "\<And>sl. sl \<in> set slots \<Longrightarrow> nodes w' (sl_temp sl) \<noteq> Some DirN"
  shows "clear_target dir slots w'"
proof -
  have "Path (absolute dir) (take i (comps dir)) \<notin> sl_temp ` set slots" for i
    using prefix_not_child clear_targetD(4) [OF assms(1)] by fastforce
  then have d: "dirs_ok w' dir"
    using clear_targetD(1) [OF assms(1)] assms(2) by (simp add: dirs_ok_def same_nodes_def)
  have "nodes w' (sl_dest sl) = nodes w (sl_dest sl)" if "sl \<in> set slots" for sl
  proof -
    have "sl_dest sl \<notin> sl_temp ` set slots"
      using clear_targetD(2) [OF assms(1)] that by (auto simp: disjoint_iff)
    then show ?thesis using assms(2) by (simp add: same_nodes_def)
  qed
  then show ?thesis
    using assms(3) d clear_targetD(2-7) [OF assms(1)] unfolding clear_target_def by metis
qed

lemma clear_target_nodes: "nodes s = nodes s' \<Longrightarrow> clear_target dir slots s = clear_target dir slots s'"
  by (simp only: clear_target_def dirs_ok_def)

text \<open>Up to the loop: the request is accepted and every file has its writer.\<close>

lemma handle_incoming_opens:
  assumes w: "ready w" "wd_handshake w = Ok ()" "decide rt w = DecideAccept"
    and inbox: "wd_inbox w = Ok (Some (TransferRequest m)) # rest"
    and target: "clear_target (download_dir (lb_home lb) (rt_config rt)) slots w"
      "describes_slots (download_dir (lb_home lb) (rt_config rt)) m slots"
      "clean_start rt (mf_transfer_id m) slots w"
  shows "\<exists>writers w'. handle_incoming lb rt w
        = bind_io (recv_loop lb rt m writers 0 rest) (\<lambda>_ w. (wd_shutdown w, w)) w'
     \<and> ready w' \<and> receiving (mf_chunk_size m) slots writers w' \<and> same_nodes slots w w'
     \<and> wd_outbox w' = wd_outbox w @ [TransferResponse Accept] \<and> (\<forall>j<length slots. got writers j = {})"
proof -
  let ?dir = "download_dir (lb_home lb) (rt_config rt)" and ?cs = "mf_chunk_size m" and ?tid = "mf_transfer_id m"
  let ?w1 = "w\<lparr>wd_inbox := rest, wd_events := wd_events w @ [EvIncomingRequest ?tid m (mf_sender_name m)]\<rparr>"
  have r1: "ready ?w1" by (intro ready_fields w(1))
  have absent: "nodes ?w1 (state_path (rt_resume_manager rt) ?tid) = None"
    using target(3) by (simp add: clean_start_def Let_def)
  obtain w2 where l: "load_state lb rt ?tid ?w1 = (Ok None, w2)" and w2: "ready w2" "nodes w2 = nodes w"
    "wd_inbox w2 = rest" "wd_outbox w2 = wd_outbox w" "wd_decision w2 = wd_decision w"
    using load_state_absent [OF r1 absent, of lb] by auto
  let ?w3 = "w2\<lparr>wd_outbox := wd_outbox w2 @ [TransferResponse Accept]\<rparr>"
  have "decide rt w2 = decide rt w" using w2(5) by (simp add: decide_def)
  with w(3) have n: "negotiate rt m None w2 = (Ok (), ?w3)" by (simp add: negotiate_def tx_ready [OF w2(1)])
  have r3: "ready ?w3" by (intro ready_fields w2(1))
  have c3: "clear_target ?dir slots ?w3"
    using clear_target_nodes [of ?w3 w ?dir slots] target(1) w2(2) by simp
  have d: "0 < ?cs" "length (mf_files m) = length slots"
     "\<forall>i<length slots. join ?dir (path_of (fe_relative_path (mf_files m ! i))) = sl_dest (slots ! i)
          \<and> fe_size (mf_files m ! i) = length (sl_bytes (slots ! i)) \<and> length (sl_bytes (slots ! i)) < 2 ^ 64"
    using target(2) by (simp_all add: describes_slots_def)
  obtain writers w4 where o: "open_writers ?dir m (mf_files m) ?w3 = (Ok writers, w4)" and w4: "ready w4"
    "receiving ?cs slots writers w4" "same_nodes slots ?w3 w4" "wd_inbox w4 = rest"
    "wd_outbox w4 = wd_outbox w @ [TransferResponse Accept]" "\<forall>j<length slots. got writers j = {}"
    using open_writers_run [OF r3 c3 d(2,1,3)] w2(3,4) by auto
  let ?w5 = "w4\<lparr>wd_inbox := []\<rparr>"
  have "handle_incoming lb rt w = bind_io (recv_loop lb rt m writers 0 rest) (\<lambda>_ w. (wd_shutdown w, w)) ?w5"
    using w(2) inbox l n o w4(4) by (simp add: handle_incoming_def bind_io_def rx_def emit_def)
  moreover have "ready ?w5" by (intro ready_fields w4(1))
  moreover have "receiving ?cs slots writers ?w5" using w4(2) by (simp add: receiving_def)
  moreover have "same_nodes slots w ?w5" using w4(3) w2(2) by (simp add: same_nodes_def)
  moreover have "wd_outbox ?w5 = wd_outbox w @ [TransferResponse Accept]" using w4(5) by simp
  ultimately show ?thesis using w4(6) by blast
qed

lemma handle_incoming_run:
  assumes w: "ready w" "wd_handshake w = Ok ()" "decide rt w = DecideAccept"
    and inbox: "wd_inbox w = Ok (Some (TransferRequest m))
        # map (\<lambda>io. data_msg (slot_msg (mf_chunk_size m) slots io)) ios @ [Ok (Some (TransferComplete h))]"
    and target: "clear_target (download_dir (lb_home lb) (rt_config rt)) slots w"
      "describes_slots (download_dir (lb_home lb) (rt_config rt)) m slots"
      "clean_start rt (mf_transfer_id m) slots w" and all: "covers (mf_chunk_size m) slots ios"
  shows "\<exists>w'. handle_incoming lb rt w = (Ok (), w')
     \<and> wd_outbox w' = wd_outbox w @ TransferResponse Accept
         # map (\<lambda>io. ack_of lb (slot_msg (mf_chunk_size m) slots io)) ios @ [TransferVerified True None]
     \<and> (\<forall>sl\<in>set slots. content w' (sl_dest sl) = Some (sl_bytes sl) \<and> nodes w' (sl_temp sl) = None)
     \<and> (\<forall>p. p \<notin> sl_temp ` set slots \<and> p \<notin> sl_dest ` set slots \<longrightarrow> nodes w' p = nodes w p)"
proof -
  let ?cs = "mf_chunk_size m" and ?fin = "[Ok (Some (TransferComplete h))]"
  obtain writers w5 where o: "handle_incoming lb rt w = bind_io (recv_loop lb rt m writers 0
        (map (\<lambda>io. data_msg (slot_msg ?cs slots io)) ios @ ?fin)) (\<lambda>_ w. (wd_shutdown w, w)) w5"
    and w5: "ready w5" "receiving ?cs slots writers w5" "same_nodes slots w w5"
      "wd_outbox w5 = wd_outbox w @ [TransferResponse Accept]" "\<forall>j<length slots. got writers j = {}"
    using handle_incoming_opens [OF w inbox target] by blast
  have ios: "\<forall>io\<in>set ios. in_slots ?cs slots io" using all by (simp add: covers_def)
  obtain writers' n' w6 where r: "recv_loop lb rt m writers 0 (map (\<lambda>io. data_msg (slot_msg ?cs slots io)) ios @ ?fin) w5
        = recv_loop lb rt m writers' n' ?fin w6"
    and w6: "ready w6" "receiving ?cs slots writers' w6" "same_nodes slots w5 w6"
      "wd_outbox w6 = wd_outbox w5 @ map (\<lambda>io. ack_of lb (slot_msg ?cs slots io)) ios"
      "\<forall>j<length slots. {off. (j, off) \<in> set ios} \<subseteq> got writers' j"
    using receive_all_run [OF w5(1,2) ios, of lb rt m 0 ?fin] by auto
  have same: "same_nodes slots w w6" using w5(3) w6(3) by (simp add: same_nodes_def)
  have "0 < ?cs" using target(2) by (simp add: describes_slots_def)
  moreover have "\<forall>i<length slots. {..<nchunks (length (sl_bytes (slots ! i))) ?cs} \<subseteq> got writers' i"
    using w6(5) all by (fastforce simp: covers_def)
  ultimately have full: "\<forall>i<length slots. \<exists>wr. writers' ! i = Some wr \<and> is_complete wr
      \<and> cw_temp_path wr = sl_temp (slots ! i) \<and> cw_dest_path wr = sl_dest (slots ! i)
      \<and> content w6 (sl_temp (slots ! i)) = Some (sl_bytes (slots ! i))"
    by (rule receive_all_complete [OF w6(2)])
  have "nodes w6 (sl_temp sl) \<noteq> Some DirN" if "sl \<in> set slots" for sl
    using full that by (auto simp: in_set_conv_nth content_Some)
  note c6 = clear_target_same [OF target(1) same this]
  have s6: "clean_start rt (mf_transfer_id m) slots w6"
    using target(3) same by (auto simp: clean_start_def same_nodes_def Let_def)
  have len6: "length writers' = length slots" using w6(2) by (simp add: receiving_def)
  obtain w7 where f: "receive_complete lb rt m writers' w6 = (Ok (), w7)" and w7: "ready w7"
     "wd_outbox w7 = wd_outbox w6 @ [TransferVerified True None]"
     "\<forall>sl\<in>set slots. content w7 (sl_dest sl) = Some (sl_bytes sl) \<and> nodes w7 (sl_temp sl) = None"
     "\<forall>p. p \<notin> sl_temp ` set slots \<and> p \<notin> sl_dest ` set slots \<longrightarrow> nodes w7 p = nodes w6 p"
    using receive_complete_run [OF w6(1) c6 len6 s6 full, of lb] by blast
  have "handle_incoming lb rt w = (Ok (), w7)"
    using o r f w7(1) by (simp add: bind_io_def ready_def)
  moreover have "\<forall>p. p \<notin> sl_temp ` set slots \<and> p \<notin> sl_dest ` set slots \<longrightarrow> nodes w7 p = nodes w p"
    using w7(4) same by (simp add: same_nodes_def)
  ultimately show ?thesis using w7(2,3) w6(4) w5(4) by auto
qed

section \<open>Both sides together\<close>

text \<open>The order in which the sender goes through the chunks.\<close>

definition chunk_order :: "u32 \<Rightarrow> slot list \<Rightarrow> (nat \<times> nat) list" where
  "chunk_order cs slots = concat (map (\<lambda>i. map (Pair i) [0..<nchunks (length (sl_bytes (slots ! i))) cs])
     [0..<length slots])"

text \<open>A message as the codec of the other side delivers it.\<close>

definition delivered :: "message \<Rightarrow> (message option, protocol_error) result" where
  "delivered msg = Ok (Some msg)"

lemma covers_chunk_order: "covers cs slots (chunk_order cs slots)"
proof -
  have "(i, off) \<in> set (chunk_order cs slots)
      \<longleftrightarrow> i < length slots \<and> off < nchunks (length (sl_bytes (slots ! i))) cs" for i off
    by (auto simp: chunk_order_def intro!: bexI [of _ i])
  then show ?thesis by (auto simp: covers_def in_slots_def)
qed

lemma file_chunks_small:
  assumes "length x \<le> LARGE_FILE_THRESHOLD" "i < length slots" "i < 2 ^ 32" "sl_bytes (slots ! i) = x"
  shows "map delivered (file_chunks i cs x)
    = map (\<lambda>io. data_msg (slot_msg cs slots io)) (map (Pair i) [0..<nchunks (length x) cs])"
  using assms
  by (simp add: file_chunks_def effective_chunk_size_def delivered_def data_msg_def slot_msg_def chunk_msg_def
      as_u32_def)

lemma all_chunks_slots:
  assumes "\<forall>sl\<in>set slots. length (sl_bytes sl) \<le> LARGE_FILE_THRESHOLD" "length slots < 2 ^ 32" "k \<le> length slots"
  shows "map delivered (all_chunks k cs (map sl_bytes (drop k slots)))
    = map (\<lambda>io. data_msg (slot_msg cs slots io))
        (concat (map (\<lambda>i. map (Pair i) [0..<nchunks (length (sl_bytes (slots ! i))) cs]) [k..<length slots]))"
  using assms(3)
proof (induction "length slots - k" arbitrary: k)
  case 0
  then show ?case by simp
next
  case (Suc n)
  then have k: "k < length slots" by simp
  then have d: "drop k slots = slots ! k # drop (Suc k) slots" by (rule Cons_nth_drop_Suc [symmetric])
  have u: "[k..<length slots] = k # [Suc k..<length slots]" using k by (rule upt_conv_Cons)
  have "length (sl_bytes (slots ! k)) \<le> LARGE_FILE_THRESHOLD" using assms(1) k by simp
  from file_chunks_small [OF this k _ refl] assms(2) k
  have "map delivered (file_chunks k cs (sl_bytes (slots ! k)))
    = map (\<lambda>io. data_msg (slot_msg cs slots io)) (map (Pair k) [0..<nchunks (length (sl_bytes (slots ! k))) cs])"
    by simp
  then show ?case using Suc.hyps(1) [of "Suc k"] Suc.hyps(2) k d u by (simp del: list.map_comp map_map)
qed

definition slot_for :: "path \<Rightarrow> string \<times> bytes \<Rightarrow> slot" where
  "slot_for dir nx = (let dest = join dir (path_of (fst nx))
     in \<lparr>sl_bytes = snd nx, sl_temp = with_extension dest ''justdrop_partial'', sl_dest = dest\<rparr>)"

lemma manifest_describes:
  assumes es: "build_entries lb 0 paths w = (Ok es, w1)" and cs: "0 < cs"
    and files: "map (content w) paths = map Some xs" "map file_name paths = map Some names" "\<forall>x\<in>set xs. length x < 2 ^ 64"
  shows "describes_slots dir (manifest_new tid pf es name cs) (map (slot_for dir) (zip names xs))"
proof -
  note B = build_entries_Ok [OF es]
  have len: "length names = length paths" "length xs = length paths"
    using files(1,2) by (auto dest!: arg_cong [of _ _ length])
  have "content w (paths ! i) = Some (xs ! i)" "file_name (paths ! i) = Some (names ! i)" if "i < length paths" for i
    using arg_cong [OF files(1), of "\<lambda>l. l ! i"] arg_cong [OF files(2), of "\<lambda>l. l ! i"] that len by simp_all
  then show ?thesis using B cs files(3) len by (auto simp: describes_slots_def manifest_new_def slot_for_def Let_def)
qed

text \<open>The sender alone, when acceptance, the acknowledgements and the verification arrive.\<close>

lemma sender_half:
  assumes s: "ready ws" "wd_connect ws = Ok ()" "wd_handshake ws = Ok ()"
    and cs: "cs = tc_chunk_size (cf_transfer config)" "0 < cs"
    and files: "map (content ws) paths = map Some xs" "map file_name paths = map Some names" "\<forall>x\<in>set xs. length x < 2 ^ 64"
    and acks: "list_all is_ack (map delivered acks)" "length acks = length (all_chunks 0 cs xs)"
  shows "\<exists>m h ws'. send_files ls config paths
        (ws\<lparr>wd_inbox := map delivered (TransferResponse Accept # acks @ [TransferVerified True None])\<rparr>)
          = (Ok (lb_transfer_id ls), ws')
    \<and> wd_outbox ws' = wd_outbox ws @ TransferRequest m # all_chunks 0 cs xs @ [TransferComplete h]
    \<and> describes_slots dir m (map (slot_for dir) (zip names xs)) \<and> mf_chunk_size m = cs \<and> mf_transfer_id m = lb_transfer_id ls"
proof -
  let ?ws = "ws\<lparr>wd_inbox := map delivered (TransferResponse Accept # acks @ [TransferVerified True None])\<rparr>"
  have c: "map (content ?ws) paths = map Some xs" using files(1) by simp
  have h: "healthy ?ws" using s(1) by (simp add: ready_def)
  obtain es w1 where es: "build_entries ls 0 paths ?ws = (Ok es, w1)" using build_entries_ready [OF h c] by blast
  define m where "m = manifest_new (lb_transfer_id ls) (current_platform (lb_target_os ls)) es (device_name (lb_host ls) config) cs"
  have inbox: "wd_inbox ?ws = Ok (Some (TransferResponse Accept)) # map delivered acks @ [Ok (Some (TransferVerified True None))]"
    by (simp add: delivered_def)
  have "ready ?ws" by (intro ready_fields s(1))
  from send_files_run [OF this _ _ _ c files(3) inbox acks(1) _ es m_def [unfolded cs(1)]] s(2,3) cs acks(2)
  obtain ws' where "send_files ls config paths ?ws = (Ok (lb_transfer_id ls), ws')"
    "wd_outbox ws' = wd_outbox ws @ TransferRequest m # all_chunks 0 cs xs @ [TransferComplete (compute_manifest_hash ls m)]"
    by auto
  moreover have "describes_slots dir m (map (slot_for dir) (zip names xs))"
    unfolding m_def by (rule manifest_describes [OF es cs(2) c files(2,3)])
  ultimately show ?thesis using m_def by (intro exI [of _ m] exI) (auto simp: manifest_new_def)
qed

text \<open>The receiver alone, when the manifest, every chunk and the end arrive.\<close>

lemma receiver_half:
  assumes r: "ready wr" "wd_handshake wr = Ok ()" "decide rt wr = DecideAccept"
    and inbox: "map delivered sent = Ok (Some (TransferRequest m))
        # map (\<lambda>io. data_msg (slot_msg (mf_chunk_size m) slots io)) ios @ [Ok (Some (TransferComplete h))]"
    and target: "dir = download_dir (lb_home lr) (rt_config rt)" "describes_slots dir m slots"
      "clear_target dir slots wr" "clean_start rt (mf_transfer_id m) slots wr" and all: "covers (mf_chunk_size m) slots ios"
  shows "\<exists>wr'. handle_incoming lr rt (wr\<lparr>wd_inbox := map delivered sent\<rparr>) = (Ok (), wr')
    \<and> wd_outbox wr' = wd_outbox wr @ TransferResponse Accept
        # map (\<lambda>io. ack_of lr (slot_msg (mf_chunk_size m) slots io)) ios @ [TransferVerified True None]
    \<and> (\<forall>sl\<in>set slots. content wr' (sl_dest sl) = Some (sl_bytes sl))"
proof -
  let ?wr = "wr\<lparr>wd_inbox := map delivered sent\<rparr>"
  have "wd_inbox ?wr = Ok (Some (TransferRequest m))
      # map (\<lambda>io. data_msg (slot_msg (mf_chunk_size m) slots io)) ios @ [Ok (Some (TransferComplete h))]"
    using inbox by simp
  moreover have "ready ?wr" by (intro ready_fields r(1))
  moreover have "decide rt ?wr = decide rt wr" by (simp add: decide_def)
  then have "decide rt ?wr = DecideAccept" using r(3) by simp
  moreover have "clear_target dir slots ?wr" using clear_target_nodes [of ?wr wr dir slots] target(3) by simp
  moreover have "clean_start rt (mf_transfer_id m) slots ?wr" using target(4) by (simp add: clean_start_def)
  ultimately show ?thesis
    using handle_incoming_run [of ?wr rt m slots ios h lr] r(2) target(1,2) all by auto
qed

lemma transfer_run:
  assumes s: "ready ws" "wd_connect ws = Ok ()" "wd_handshake ws = Ok ()"
    and cs: "0 < tc_chunk_size (cf_transfer config)"
    and files: "map (content ws) paths = map Some xs" "map file_name paths = map Some names"
      "\<forall>x\<in>set xs. length x \<le> LARGE_FILE_THRESHOLD" "length paths < 2 ^ 32"
    and r: "ready wr" "wd_handshake wr = Ok ()" "decide rt wr = DecideAccept"
    and target: "dir = download_dir (lb_home lr) (rt_config rt)" "slots = map (slot_for dir) (zip names xs)"
      "clear_target dir slots wr" "clean_start rt (lb_transfer_id ls) slots wr"
  shows "\<exists>sent replies ws' wr'.
      send_files ls config paths (ws\<lparr>wd_inbox := map delivered replies\<rparr>) = (Ok (lb_transfer_id ls), ws')
    \<and> wd_outbox ws' = wd_outbox ws @ sent
    \<and> handle_incoming lr rt (wr\<lparr>wd_inbox := map delivered sent\<rparr>) = (Ok (), wr')
    \<and> wd_outbox wr' = wd_outbox wr @ replies
    \<and> (\<forall>i<length paths. content wr' (join dir (path_of (names ! i))) = content ws (paths ! i))"
proof -
  let ?cs = "tc_chunk_size (cf_transfer config)" and ?ios = "chunk_order (tc_chunk_size (cf_transfer config)) slots"
  let ?acks = "map (\<lambda>io. ack_of lr (slot_msg ?cs slots io)) ?ios"
  define replies where "replies = TransferResponse Accept # ?acks @ [TransferVerified True None]"
  have len: "length names = length paths" "length xs = length paths" "length slots = length paths"
    using files(1,2) target(2) by (auto dest!: arg_cong [of _ _ length])
  have bytes: "map sl_bytes slots = xs" using len target(2) by (simp add: slot_for_def Let_def comp_def)
  have data: "map delivered (all_chunks 0 ?cs xs) = map (\<lambda>io. data_msg (slot_msg ?cs slots io)) ?ios"
    using all_chunks_slots [of slots 0 ?cs] files(3,4) bytes len(3) by (auto simp: chunk_order_def)
  have small: "\<forall>x\<in>set xs. length x < 2 ^ 64" using files(3) by (auto simp: LARGE_FILE_THRESHOLD_def)
  have "list_all is_ack (map delivered ?acks)" by (simp add: list_all_iff delivered_def ack_of_def is_ack_def)
  moreover have "length ?acks = length (all_chunks 0 ?cs xs)" using data by (metis length_map)
  ultimately obtain m h ws' where sender: "send_files ls config paths (ws\<lparr>wd_inbox := map delivered replies\<rparr>) = (Ok (lb_transfer_id ls), ws')"
      "wd_outbox ws' = wd_outbox ws @ TransferRequest m # all_chunks 0 ?cs xs @ [TransferComplete h]"
    and m: "describes_slots dir m slots" "mf_chunk_size m = ?cs" "mf_transfer_id m = lb_transfer_id ls"
    using sender_half [OF s refl cs files(1,2) small] unfolding replies_def target(2) by blast
  define sent where "sent = TransferRequest m # all_chunks 0 ?cs xs @ [TransferComplete h]"
  have "map delivered sent = Ok (Some (TransferRequest m))
      # map (\<lambda>io. data_msg (slot_msg (mf_chunk_size m) slots io)) ?ios @ [Ok (Some (TransferComplete h))]"
    using data m(2) by (simp add: sent_def delivered_def)
  from receiver_half [OF r this target(1) m(1) target(3)] target(4) m(2,3) covers_chunk_order [of ?cs slots]
  obtain wr' where receiver: "handle_incoming lr rt (wr\<lparr>wd_inbox := map delivered sent\<rparr>) = (Ok (), wr')"
      "wd_outbox wr' = wd_outbox wr @ replies" "\<forall>sl\<in>set slots. content wr' (sl_dest sl) = Some (sl_bytes sl)"
    by (auto simp: replies_def)
  have "content wr' (join dir (path_of (names ! i))) = content ws (paths ! i)" if "i < length paths" for i
  proof -
    have "slot_for dir (names ! i, xs ! i) \<in> set slots" using that len target(2) by (auto simp: set_zip)
    from receiver(3) [rule_format, OF this] arg_cong [OF files(1), of "\<lambda>l. l ! i"] that len
    show ?thesis by (simp add: slot_for_def Let_def)
  qed
  with sender receiver(1,2) show ?thesis unfolding sent_def by blast
qed


lemma demo_decide: "decide demo_recv (demo_world i) = DecideAccept"
  by (simp add: decide_def demo_recv_def demo_config_def default_security_def demo_world_def default_config_def)

lemma demo_names:
  "join (path_of ''/d'') (path_of ''f'') = path_of ''/d/f''" "file_name (path_of ''/f'') = Some ''f''"
  "download_dir None demo_config = path_of ''/d''"
  "with_extension (path_of ''/d/f'') ''justdrop_partial'' = path_of ''/d/f.justdrop_partial''"
  by (simp_all add: path_eval join_def demo_config_def download_dir_def)

definition demo_slots :: "slot list" where
  "demo_slots = [\<lparr>sl_bytes = [1, 2, 3], sl_temp = path_of ''/d/f.justdrop_partial'', sl_dest = path_of ''/d/f''\<rparr>]"

lemma demo_target:
  "clear_target (path_of ''/d'') demo_slots (demo_world i)" "clean_start demo_recv ''a'' demo_slots (demo_world i)"
  by (auto simp: clear_target_def clean_start_def demo_slots_def demo_world_def demo_recv_def dirs_ok_def demo_names
      state_path_def rm_new_def path_eval join_def parent_def Let_def less_Suc_eq le_Suc_eq numeral_2_eq_2)


end
