(* ===== verification/Resumption.thy ===== *)
theory Resumption
  imports Conversation
begin

text \<open>
  Transfers that do not complete (\<open>crates/justdrop-protocol/src/transfer.rs\<close>): interruption and the
  saved state, what a resumed transfer skips, rejection, and where files are stored.
\<close>

section \<open>Interruption\<close>

text \<open>
  The state directory is ready, apart from the files of the transfer; states can be written as JSON
  and read back.
\<close>

definition resumable :: "lib \<Rightarrow> recv_transfer \<Rightarrow> slot list \<Rightarrow> world \<Rightarrow> bool" where
  "resumable lb rt slots w \<longleftrightarrow>
     (let rm = rt_resume_manager rt
      in store_ready rm w \<and> dirs_ok w (rm_state_dir rm)
         \<and> (\<forall>sl\<in>set slots. nodes w (sl_temp sl) \<noteq> Some DirN \<and> parent (sl_temp sl) \<noteq> Some (rm_state_dir rm))
         \<and> (\<forall>st. json_ok (lb_to_json lb) (lb_from_json lb) st))"

lemma save_resume_state_run:
  assumes "resumable lb rt slots w" "valid_id (mf_transfer_id m)"
  shows "\<exists>st. tr_files st = file_states m writers \<and> (\<forall>e. fst (load_state lb rt (mf_transfer_id m)
       ((save_resume_state lb rt m writers n w)\<lparr>wd_events := e\<rparr>)) = Ok (Some st))"
proof -
  let ?rm = "rt_resume_manager rt" and ?tid = "mf_transfer_id m"
  let ?w1 = "w\<lparr>ticks := Suc (ticks w)\<rparr>"
  define st where "st = \<lparr>tr_transfer_id = ?tid, tr_last_updated = lb_now lb, tr_files = file_states m writers,
      tr_bytes_transferred = n, tr_total_bytes = mf_total_size m\<rparr>"
  have r: "store_ready ?rm w" "dirs_ok w (rm_state_dir ?rm)" "json_ok (lb_to_json lb) (lb_from_json lb) st"
    using assms(1) by (simp_all add: resumable_def Let_def)
  then obtain c where c: "lb_to_json lb st = Ok c" "utf8_valid c" "lb_from_json lb c = Ok st"
    unfolding json_ok_def by blast
  have h: "healthy w" using r(1) by (simp add: store_ready_def)
  have i: "rm_init ?rm w = (Ok (), ?w1)"
    using create_dir_all_ok [OF h r(2)] by (simp add: rm_init_def io_at_def map_err_io_def)
  have r1: "store_ready ?rm ?w1" using r(1) by (simp add: store_ready_def is_dir_def)
  have tid: "valid_id (tr_transfer_id st)" using assms(2) by (simp add: st_def)
  obtain w2 where s: "rm_save (lb_to_json lb) ?rm st ?w1 = (Ok (), w2)" and w2: "healthy w2"
    "nodes w2 = (nodes w)(state_path ?rm ?tid \<mapsto> FileN c)"
    using rm_save_ready [of ?rm ?w1 st "lb_to_json lb" c, OF r1 tid c(1)] by (auto simp: st_def)
  have "store_ready ?rm (w2\<lparr>wd_events := e\<rparr>)" for e
    using w2 by (intro store_ready_set [OF r(1) assms(2), where n = "Some (FileN c)"]) simp_all
  from rm_load_ready [OF this assms(2), of "lb_from_json lb"]
  have "fst (rm_load (lb_from_json lb) ?rm ?tid (w2\<lparr>wd_events := e\<rparr>)) = Ok (Some st)" for e
    using w2(2) c(2,3) by simp
  then have "fst (load_state lb rt ?tid (w2\<lparr>wd_events := e\<rparr>)) = Ok (Some st)" for e
    unfolding load_state_def by (auto split: prod.split result.split dest: arg_cong [of _ _ fst])
  moreover have "save_resume_state lb rt m writers n w = w2"
    using i s by (simp add: save_resume_state_def Let_def st_def)
  ultimately show ?thesis by (auto simp: st_def)
qed

lemma file_states_all:
  fixes writers :: "chunk_writer option list" and m :: transfer_manifest
  assumes "\<forall>i<length writers. writers ! i \<noteq> None"
  shows "length (file_states m writers) = length writers"
    and "i < length writers \<Longrightarrow> fr_file_index (file_states m writers ! i) = as_u32 i
           \<and> set (fr_completed_chunks (file_states m writers ! i)) = got writers i"
proof -
  define g where "g = (\<lambda>(i, wr :: chunk_writer option). \<lparr>fr_file_index = as_u32 i,
          fr_dest_path = fe_relative_path (mf_files m ! i), fr_temp_path = [],
          fr_file_size = fe_size (mf_files m ! i), fr_chunk_size = mf_chunk_size m,
          fr_completed_chunks = cw_completed (the wr)\<rparr>)"
  have "List.map_filter (\<lambda>(i, w). map_option (\<lambda>wr. \<lparr>fr_file_index = as_u32 i,
          fr_dest_path = fe_relative_path (mf_files m ! i), fr_temp_path = [],
          fr_file_size = fe_size (mf_files m ! i), fr_chunk_size = mf_chunk_size m,
          fr_completed_chunks = cw_completed wr\<rparr>) w) xs = map g xs"
    if "\<forall>x\<in>set xs. snd x \<noteq> None" for xs
    using that by (induction xs) (auto simp: List.map_filter_simps g_def)
  moreover have "\<forall>x\<in>set (enumerate 0 writers). snd x \<noteq> None"
    using assms by (auto simp: in_set_enumerate_eq)
  ultimately have e: "file_states m writers = map g (enumerate 0 writers)" by (simp add: file_states_def)
  then show "length (file_states m writers) = length writers" by simp
  assume i: "i < length writers"
  then obtain wr where "writers ! i = Some wr" using assms by blast
  then show "fr_file_index (file_states m writers ! i) = as_u32 i
           \<and> set (fr_completed_chunks (file_states m writers ! i)) = got writers i"
    using i e by (simp add: nth_enumerate_eq g_def got_def)
qed

lemma resumable_same:
  assumes "resumable lb rt slots w" "same_nodes slots w w'" "ready w'"
    and "\<forall>sl\<in>set slots. nodes w' (sl_temp sl) \<noteq> Some DirN"
  shows "resumable lb rt slots w'"
proof -
  let ?rm = "rt_resume_manager rt"
  note r = assms(1) [unfolded resumable_def Let_def]
  have "nodes w' p = nodes w p" if "nodes w p = Some DirN" for p
  proof -
    have "p \<notin> sl_temp ` set slots" using r that by auto
    then show ?thesis using assms(2) by (simp add: same_nodes_def)
  qed
  then have "dirs_ok w' (rm_state_dir ?rm)" "is_dir w' (rm_state_dir ?rm)"
    using r by (auto simp: dirs_ok_def is_dir_def store_ready_def)
  moreover have "nodes w' (state_path ?rm t) = nodes w (state_path ?rm t)" if "valid_id t" for t
  proof -
    have "state_path ?rm t \<notin> sl_temp ` set slots" using r state_path_parent [OF that, of ?rm] by auto
    then show ?thesis using assms(2) by (simp add: same_nodes_def)
  qed
  ultimately show ?thesis
    using assms(3,4) r by (simp add: resumable_def Let_def store_ready_def ready_def)
qed

text \<open>
  C6. An interrupted transfer can be resumed: when the connection closes or the sender cancels after
  any sequence of chunks, the receiver stops with that error and leaves a state that loads again and
  lists, for each file, exactly the chunks received.
\<close>

theorem interrupted_transfer_saves_progress:
  assumes w: "ready w" "wd_handshake w = Ok ()" "decide rt w = DecideAccept"
    and inbox: "wd_inbox w = Ok (Some (TransferRequest m))
        # map (\<lambda>io. data_msg (slot_msg (mf_chunk_size m) slots io)) ios @ rest"
      "rest = [] \<and> reason = ''connection closed'' \<or> rest = [Ok (Some (Cancel reason))]"
    and target: "clear_target (download_dir (lb_home lb) (rt_config rt)) slots w"
      "describes_slots (download_dir (lb_home lb) (rt_config rt)) m slots"
      "clean_start rt (mf_transfer_id m) slots w"
    and ios: "\<forall>io\<in>set ios. in_slots (mf_chunk_size m) slots io"
    and store: "resumable lb rt slots w" "valid_id (mf_transfer_id m)"
  shows "\<exists>w' st. handle_incoming lb rt w = (Err (CancelledBy reason), w')
     \<and> fst (load_state lb rt (mf_transfer_id m) w') = Ok (Some st) \<and> length (tr_files st) = length slots
     \<and> (\<forall>i<length slots. fr_file_index (tr_files st ! i) = as_u32 i
          \<and> set (fr_completed_chunks (tr_files st ! i)) = {off. (i, off) \<in> set ios})"
proof -
  let ?cs = "mf_chunk_size m"
  obtain writers w5 where o: "handle_incoming lb rt w = bind_io (recv_loop lb rt m writers 0
        (map (\<lambda>io. data_msg (slot_msg ?cs slots io)) ios @ rest)) (\<lambda>_ w. (wd_shutdown w, w)) w5"
    and w5: "ready w5" "receiving ?cs slots writers w5" "same_nodes slots w w5" "\<forall>j<length slots. got writers j = {}"
    using handle_incoming_opens [OF w inbox(1) target] by blast
  obtain writers' n' w6 where r: "recv_loop lb rt m writers 0 (map (\<lambda>io. data_msg (slot_msg ?cs slots io)) ios @ rest) w5
        = recv_loop lb rt m writers' n' rest w6"
    and w6: "ready w6" "receiving ?cs slots writers' w6" "same_nodes slots w5 w6"
      "\<forall>j<length slots. got writers' j = {off. (j, off) \<in> set ios}"
    using receive_all_run [OF w5(1,2) ios, of lb rt m 0 rest] w5(4) by auto
  have same: "same_nodes slots w w6" using w5(3) w6(3) by (simp add: same_nodes_def)
  have some: "\<forall>i<length writers'. writers' ! i \<noteq> None" "length writers' = length slots"
    and "\<forall>sl\<in>set slots. nodes w6 (sl_temp sl) \<noteq> Some DirN"
    using w6(2) unfolding receiving_def by (force simp: in_set_conv_nth content_Some)+
  from resumable_same [OF store(1) same w6(1) this(3)] have "resumable lb rt slots w6" .
  note saved = save_resume_state_run [OF this store(2), of writers' n']
  let ?w7 = "save_resume_state lb rt m writers' n' w6"
  have "\<exists>evs. recv_loop lb rt m writers' n' rest w6 = (Err (CancelledBy reason), ?w7\<lparr>wd_events := evs\<rparr>)"
    using inbox(2) by (auto simp: bind_io_def fail_io_def emit_def intro: exI [of _ "wd_events ?w7"])
  then obtain evs where e: "handle_incoming lb rt w = (Err (CancelledBy reason), ?w7\<lparr>wd_events := evs\<rparr>)"
    using o r by (auto simp: bind_io_def)
  obtain st where st: "tr_files st = file_states m writers'"
    "fst (load_state lb rt (mf_transfer_id m) (?w7\<lparr>wd_events := evs\<rparr>)) = Ok (Some st)"
    using saved by blast
  show ?thesis using e st file_states_all [OF some(1), where m = m] some(2) w6(4) by (intro exI conjI) auto
qed

text \<open>A self-delimiting text form of resume states, for the witness: numbers in unary.\<close>

definition put_list :: "nat list \<Rightarrow> nat list" where
  "put_list ns = length ns # ns"

fun get_list :: "nat list \<Rightarrow> nat list \<times> nat list" where
  "get_list [] = ([], [])"
| "get_list (n # ns) = (take n ns, drop n ns)"

fun put_file :: "file_resume_state \<Rightarrow> nat list" where
  "put_file f = [fr_file_index f, fr_file_size f, fr_chunk_size f] @ put_list (map of_char (fr_dest_path f))
     @ put_list (map of_char (fr_temp_path f)) @ put_list (fr_completed_chunks f)"

definition get_file :: "nat list \<Rightarrow> file_resume_state \<times> nat list" where
  "get_file ns = (case get_list (drop 3 ns) of (d, r1) \<Rightarrow> case get_list r1 of (t, r2) \<Rightarrow> case get_list r2 of (c, r3) \<Rightarrow>
     (\<lparr>fr_file_index = ns ! 0, fr_dest_path = map char_of d, fr_temp_path = map char_of t,
       fr_file_size = ns ! 1, fr_chunk_size = ns ! 2, fr_completed_chunks = c\<rparr>, r3))"

fun get_files :: "nat \<Rightarrow> nat list \<Rightarrow> file_resume_state list" where
  "get_files 0 ns = []"
| "get_files (Suc k) ns = (case get_file ns of (f, r) \<Rightarrow> f # get_files k r)"

definition put_state :: "transfer_resume_state \<Rightarrow> nat list" where
  "put_state st = [if tr_last_updated st < 0 then 1 else 0, nat \<bar>tr_last_updated st\<bar>, tr_bytes_transferred st,
     tr_total_bytes st, length (tr_files st)] @ put_list (map of_char (tr_transfer_id st))
     @ concat (map put_file (tr_files st))"

definition get_state :: "nat list \<Rightarrow> transfer_resume_state" where
  "get_state ns = (case get_list (drop 5 ns) of (t, r) \<Rightarrow>
     \<lparr>tr_transfer_id = map char_of t, tr_last_updated = (if ns ! 0 = 1 then - int (ns ! 1) else int (ns ! 1)),
      tr_files = get_files (ns ! 4) r, tr_bytes_transferred = ns ! 2, tr_total_bytes = ns ! 3\<rparr>)"

definition unary :: "nat list \<Rightarrow> bytes" where
  "unary ns = concat (map (\<lambda>n. replicate n 65 @ [66]) ns)"

fun of_unary :: "nat \<Rightarrow> bytes \<Rightarrow> nat list" where
  "of_unary k [] = []"
| "of_unary k (b # bs) = (if b = 65 then of_unary (Suc k) bs else k # of_unary 0 bs)"

lemma of_unary_replicate: "of_unary k (replicate n 65 @ 66 # bs) = (k + n) # of_unary 0 bs"
  by (induction n arbitrary: k) simp_all

lemma of_unary: "of_unary 0 (unary ns) = ns"
  by (induction ns) (simp_all add: unary_def of_unary_replicate)

lemma get_put_list [simp]: "get_list (put_list ns @ r) = (ns, r)"
  by (simp add: put_list_def)

lemma map_char_of [simp]: "map char_of (map of_char s :: nat list) = s"
  by (simp add: comp_def)

lemma get_put_file: "get_file (put_file f @ r) = (f, r)"
  by (simp add: get_file_def numeral_3_eq_3 del: map_map)

lemma get_put_files: "get_files (length fs) (concat (map put_file fs)) = fs"
  by (induction fs) (simp_all add: get_put_file del: put_file.simps)

lemma get_put_state: "get_state (put_state st) = st"
  by (simp add: get_state_def put_state_def get_put_files numeral_eq_Suc del: map_map)

lemma utf8_unary: "utf8_valid (unary ns)"
proof -
  have "utf8_valid (replicate n 65 @ bs) = utf8_valid bs" for n bs
    by (induction n) (simp_all add: utf8_valid.simps)
  then show ?thesis by (induction ns) (simp_all add: unary_def utf8_valid.simps)
qed

definition unary_lib :: lib where
  "unary_lib = demo_lib\<lparr>lb_to_json := \<lambda>st. Ok (unary (put_state st)),
     lb_from_json := \<lambda>c. Ok (get_state (of_unary 0 c))\<rparr>"

lemma unary_json: "json_ok (lb_to_json unary_lib) (lb_from_json unary_lib) st"
  by (simp add: json_ok_def unary_lib_def of_unary get_put_state utf8_unary)

definition demo_file :: file_entry where
  "demo_file = \<lparr>fe_index = 0, fe_relative_path = ''f'', fe_size = 3, fe_sha256 = [], fe_mime_type = []\<rparr>"

definition demo_request :: transfer_manifest where
  "demo_request = manifest_new ''a'' Linux [demo_file] [] 2"

definition demo_room :: "(message option, protocol_error) result list \<Rightarrow> world" where
  "demo_room i = (demo_world i)\<lparr>nodes := [path_of ''/f'' \<mapsto> FileN [1, 2, 3], path_of ''/d'' \<mapsto> DirN, path_of ''/r'' \<mapsto> DirN]\<rparr>"

theorem interrupted_transfer_saves_progress_witness:
  "\<exists>w' st. handle_incoming unary_lib demo_recv (demo_room [Ok (Some (TransferRequest demo_request)),
        data_msg (slot_msg 2 demo_slots (0, 1))]) = (Err (CancelledBy ''connection closed''), w')
     \<and> fst (load_state unary_lib demo_recv ''a'' w') = Ok (Some st)
     \<and> set (fr_completed_chunks (tr_files st ! 0)) = {1}"
proof -
  let ?w = "demo_room [Ok (Some (TransferRequest demo_request)), data_msg (slot_msg 2 demo_slots (0, 1))]"
  have m: "mf_transfer_id demo_request = ''a''" "mf_chunk_size demo_request = 2" "mf_files demo_request = [demo_file]"
    by (simp_all add: demo_request_def manifest_new_def)
  have d: "download_dir (lb_home unary_lib) (rt_config demo_recv) = path_of ''/d''"
    by (simp add: unary_lib_def demo_lib_def demo_recv_def demo_names)
  have w: "ready ?w" "wd_handshake ?w = Ok ()" "decide demo_recv ?w = DecideAccept"
    by (simp_all add: demo_room_def demo_world_def ready_def healthy_def decide_def demo_recv_def demo_config_def
        default_security_def default_config_def)
  have i: "wd_inbox ?w = Ok (Some (TransferRequest demo_request)) # map (\<lambda>io. data_msg (slot_msg
      (mf_chunk_size demo_request) demo_slots io)) [(0, 1)] @ []" by (simp add: demo_room_def demo_world_def m)
  have t: "clear_target (path_of ''/d'') demo_slots ?w" "clean_start demo_recv ''a'' demo_slots ?w"
    by (auto simp: clear_target_def clean_start_def demo_slots_def demo_room_def demo_recv_def dirs_ok_def demo_names
      state_path_def rm_new_def path_eval join_def parent_def Let_def less_Suc_eq le_Suc_eq numeral_2_eq_2)
  have s: "describes_slots (path_of ''/d'') demo_request demo_slots"
    by (simp add: describes_slots_def m demo_slots_def demo_file_def demo_names)
  have io: "\<forall>io\<in>set [(0, 1)]. in_slots (mf_chunk_size demo_request) demo_slots io"
    by (simp add: in_slots_def demo_slots_def m nchunks_def ceil_div_def)
  have rm: "rm_state_dir (rt_resume_manager demo_recv) = path_of ''/r''"
    by (simp add: demo_recv_def rm_new_def)
  have r: "resumable unary_lib demo_recv demo_slots ?w"
    using unary_json w(1)
    by (auto simp: resumable_def Let_def store_ready_def rm state_path_eq demo_room_def ready_def is_dir_def dirs_ok_def
        demo_slots_def path_eval parent_def less_Suc_eq le_Suc_eq)
  show ?thesis
    using interrupted_transfer_saves_progress [of ?w demo_recv demo_request demo_slots "[(0, 1)]" "[]"
        "''connection closed''" unary_lib, OF w i _ _ _ _ io r] t s m d
    by (simp add: valid_id_def demo_slots_def) blast
qed

section \<open>What a resumed transfer skips\<close>

text \<open>The chunks of one file, and of the files before it.\<close>

definition chunks_at :: "transfer_manifest \<Rightarrow> nat \<Rightarrow> nat" where
  "chunks_at m i = nchunks (fe_size (mf_files m ! i)) (mf_chunk_size m)"

definition chunks_before :: "transfer_manifest \<Rightarrow> nat \<Rightarrow> nat" where
  "chunks_before m i = (\<Sum>f\<leftarrow>take i (mf_files m). nchunks (fe_size f) (mf_chunk_size m))"

text \<open>The manifest as the sender builds it, with no more chunks than fit a \<open>u64\<close>.\<close>

definition well_indexed :: "transfer_manifest \<Rightarrow> bool" where
  "well_indexed m \<longleftrightarrow> 0 < mf_chunk_size m \<and> (\<forall>i<length (mf_files m). fe_index (mf_files m ! i) = i)
     \<and> chunks_before m (length (mf_files m)) < 2 ^ 64"

lemma chunks_before_Suc: "i < length (mf_files m) \<Longrightarrow> chunks_before m (Suc i) = chunks_before m i + chunks_at m i"
  by (simp add: chunks_before_def chunks_at_def take_Suc_conv_app_nth)

lemma chunks_before_mono: "i \<le> j \<Longrightarrow> j \<le> length (mf_files m) \<Longrightarrow> chunks_before m i \<le> chunks_before m j"
  by (induction j) (auto simp: chunks_before_Suc le_Suc_eq)

lemma global_in_range:
  assumes "i < length (mf_files m)" "off < chunks_at m i"
  shows "chunks_before m i + off < chunks_before m (length (mf_files m))"
  using chunks_before_mono [of "Suc i" "length (mf_files m)" m] assms by (simp add: chunks_before_Suc)

lemma global_inj:
  assumes "i < length (mf_files m)" "off < chunks_at m i" "j < length (mf_files m)" "off' < chunks_at m j"
    and "chunks_before m i + off = chunks_before m j + off'"
  shows "i = j \<and> off = off'"
proof -
  have "\<not> i < j" "\<not> j < i"
    using chunks_before_mono [of "Suc i" j m] chunks_before_mono [of "Suc j" i m] assms
    by (auto simp: chunks_before_Suc)
  then show ?thesis using assms(5) by simp
qed

lemma chunk_base_eq:
  assumes "0 < cs" "\<forall>j<length fs. fe_index (fs ! j) = k + j" "i < length fs"
    and "acc + (\<Sum>f\<leftarrow>take i fs. nchunks (fe_size f) cs) < 2 ^ 64"
  shows "chunk_base fs cs (k + i) acc = Ok (acc + (\<Sum>f\<leftarrow>take i fs. nchunks (fe_size f) cs))"
  using assms(2-4)
proof (induction fs arbitrary: k i acc)
  case (Cons f fs)
  have idx: "fe_index f = k" "\<forall>j<length fs. fe_index (fs ! j) = Suc k + j"
    using Cons.prems(1) [rule_format, of 0] Cons.prems(1) [rule_format, of "Suc _"] by auto
  show ?case
  proof (cases i)
    case 0
    then show ?thesis using idx(1) by simp
  next
    case (Suc i')
    then show ?thesis using Cons.IH [OF idx(2), of i' "acc + nchunks (fe_size f) cs"] Cons.prems(2,3) idx(1)
      by (simp add: chunk_count_eq [OF assms(1)])
  qed
qed simp

lemma global_chunk_offset_eq:
  assumes "well_indexed m" "i < length (mf_files m)" "off < chunks_at m i"
  shows "(global_chunk_offset m i off :: (u64, 'e) result) = Ok (chunks_before m i + off)"
proof -
  have lt: "chunks_before m i + off < 2 ^ 64"
    using global_in_range [OF assms(2,3)] assms(1) by (simp add: well_indexed_def)
  then have "0 + (\<Sum>f\<leftarrow>take i (mf_files m). nchunks (fe_size f) (mf_chunk_size m)) < 2 ^ 64"
    by (simp add: chunks_before_def)
  from chunk_base_eq [OF _ _ assms(2) this, of 0] assms(1)
  have "(chunk_base (mf_files m) (mf_chunk_size m) i 0 :: (u64, 'e) result) = Ok (chunks_before m i)"
    by (simp add: well_indexed_def chunks_before_def)
  then show ?thesis using lt by (simp add: global_chunk_offset_def)
qed

lemma global_offsets_eq:
  assumes "well_indexed m" "\<forall>(i, off)\<in>set ps. i < length (mf_files m) \<and> off < chunks_at m i"
  shows "\<exists>gs. global_offsets m ps acc = (Ok gs :: (u64 list, 'e) result) \<and> set gs = set acc \<union> (\<lambda>(i, off). chunks_before m i + off) ` set ps"
  using assms(2)
proof (induction ps arbitrary: acc)
  case (Cons p ps)
  obtain i off where p: "p = (i, off)" by (cases p)
  have "(global_chunk_offset m i off :: (u64, 'e) result) = Ok (chunks_before m i + off)"
    using global_chunk_offset_eq [OF assms(1)] Cons.prems p by auto
  moreover have "\<forall>(i, off)\<in>set ps. i < length (mf_files m) \<and> off < chunks_at m i" using Cons.prems by simp
  from Cons.IH [OF this] obtain gs where "global_offsets m ps (List.insert (chunks_before m i + off) acc) = (Ok gs :: (u64 list, 'e) result)"
    "set gs = set (List.insert (chunks_before m i + off) acc) \<union> (\<lambda>(i, off). chunks_before m i + off) ` set ps"
    by blast
  ultimately show ?case using p by auto
qed simp

lemma total_chunks_eq:
  "well_indexed m \<Longrightarrow> total_chunks m = (Ok (chunks_before m (length (mf_files m))) :: (u64, 'e) result)"
  using sum_chunks_eq [of "mf_chunk_size m" 0 "mf_files m"]
  by (simp add: well_indexed_def total_chunks_def chunks_before_def)

text \<open>
  C7. The resume bitmap speaks of the same chunks on both sides: the receiver turns its saved state
  into global chunk numbers and a bitmap; decoding it, the sender finds the number of chunk \<open>off\<close>
  of file \<open>i\<close> there exactly when the saved state lists that chunk. So it skips no other chunk.
\<close>

theorem resume_skips_exactly:
  assumes "well_indexed m"
    and "\<forall>f\<in>set (tr_files st). fr_file_index f < length (mf_files m)
           \<and> (\<forall>c\<in>set (fr_completed_chunks f). c < chunks_at m (fr_file_index f))"
    and "i < length (mf_files m)" and "off < chunks_at m i"
  shows "\<exists>bitmap n g. resume_bitmap m st = (Ok bitmap :: (bytes, protocol_error) result)
     \<and> total_chunks m = (Ok n :: (u64, protocol_error) result)
     \<and> global_chunk_offset m i off = (Ok g :: (u64, protocol_error) result)
     \<and> (g \<in> set (decode_received_bitmap bitmap n)
          \<longleftrightarrow> (\<exists>f\<in>set (tr_files st). fr_file_index f = i \<and> off \<in> set (fr_completed_chunks f)))"
proof -
  let ?n = "chunks_before m (length (mf_files m))" and ?g = "\<lambda>(i, off). chunks_before m i + off"
  let ?ps = "concat (map (\<lambda>f. map (\<lambda>c. (fr_file_index f, c)) (fr_completed_chunks f)) (tr_files st))"
  have ps: "\<forall>(i, off)\<in>set ?ps. i < length (mf_files m) \<and> off < chunks_at m i" using assms(2) by auto
  obtain gs where gs: "global_offsets m ?ps [] = (Ok gs :: (u64 list, protocol_error) result)" "set gs = ?g ` set ?ps"
    using global_offsets_eq [OF assms(1) ps, of "[]"] by auto
  let ?bm = "encode_received_bitmap gs ?n"
  have "resume_bitmap m st = (Ok ?bm :: (bytes, protocol_error) result)"
    unfolding resume_bitmap_def gs(1) total_chunks_eq [OF assms(1)] by simp
  moreover have "?g (i, off) \<in> set gs \<longleftrightarrow> (i, off) \<in> set ?ps"
    using global_inj [OF assms(3,4)] ps gs(2) by (fastforce simp del: set_concat)
  moreover have "(i, off) \<in> set ?ps
      \<longleftrightarrow> (\<exists>f\<in>set (tr_files st). fr_file_index f = i \<and> off \<in> set (fr_completed_chunks f))" by auto
  moreover have "?g (i, off) \<in> set (decode_received_bitmap ?bm ?n) \<longleftrightarrow> ?g (i, off) \<in> set gs"
    using global_in_range [OF assms(3,4)] by (simp add: decode_encoded_bitmap)
  ultimately show ?thesis
    using total_chunks_eq [OF assms(1)] global_chunk_offset_eq [OF assms(1,3,4)] by auto
qed

theorem resume_skips_exactly_witness:
  "\<exists>bitmap n g. resume_bitmap demo_request \<lparr>tr_transfer_id = ''a'', tr_last_updated = 0,
        tr_files = [\<lparr>fr_file_index = 0, fr_dest_path = ''f'', fr_temp_path = [], fr_file_size = 3,
          fr_chunk_size = 2, fr_completed_chunks = [1]\<rparr>],
        tr_bytes_transferred = 1, tr_total_bytes = 3\<rparr> = (Ok bitmap :: (bytes, protocol_error) result)
     \<and> total_chunks demo_request = (Ok n :: (u64, protocol_error) result)
     \<and> global_chunk_offset demo_request 0 1 = (Ok g :: (u64, protocol_error) result)
     \<and> g \<in> set (decode_received_bitmap bitmap n)"
proof -
  let ?st = "\<lparr>tr_transfer_id = ''a'', tr_last_updated = 0,
        tr_files = [\<lparr>fr_file_index = 0, fr_dest_path = ''f'', fr_temp_path = [], fr_file_size = 3,
          fr_chunk_size = 2, fr_completed_chunks = [1]\<rparr>],
        tr_bytes_transferred = 1, tr_total_bytes = 3\<rparr>"
  have m: "mf_files demo_request = [demo_file]" "mf_chunk_size demo_request = 2"
    by (simp_all add: demo_request_def manifest_new_def)
  have c: "chunks_at demo_request 0 = 2"
    by (simp add: chunks_at_def m demo_file_def nchunks_def ceil_div_def)
  have "well_indexed demo_request"
    by (simp add: well_indexed_def chunks_before_def m demo_file_def nchunks_def ceil_div_def)
  then show ?thesis
    using resume_skips_exactly [of demo_request ?st 0 1] c by (simp add: m)
qed

section \<open>Rejection and destinations\<close>

lemma rm_load_env: "same_env s (snd (rm_load from_json m t s))"
proof -
  have e: "same_env s (snd (present p s))" for p and s :: "'a fs_scheme"
    using bind_gate_env [of s "\<lambda>_ s. (Ok (nodes s p \<noteq> None), s)" OpExists p]
    by (auto simp: present_def fs_exists_def split: prod.split result.split)
  have r: "same_env s (snd (io_at p (fs_read_to_string p) s))" for p and s :: "'a fs_scheme"
    by (auto simp: io_at_def map_err_io_def fs_read_to_string_def fs_read_file_def split: prod.splits
        intro!: bind_env bind_gate_env split: option.splits node.splits dest!: arg_cong [of _ _ snd])
  show ?thesis unfolding rm_load_def Let_def
    by (auto intro!: bind_env e r simp: return_io_def lift_io_def)
qed

lemma rejected_run:
  assumes "decide rt w = DecideReject reason" and "handle_incoming lb rt w = (r, w')"
  shows "r \<noteq> Ok () \<and> nodes w' = nodes w
     \<and> (wd_outbox w' = wd_outbox w \<or> wd_outbox w' = wd_outbox w @ [TransferResponse (Reject reason)])"
proof -
  have neg: "fst (negotiate rt m st w2) \<noteq> Ok () \<and> nodes (snd (negotiate rt m st w2)) = nodes w2
     \<and> (wd_outbox (snd (negotiate rt m st w2)) = wd_outbox w2
        \<or> wd_outbox (snd (negotiate rt m st w2)) = wd_outbox w2 @ [TransferResponse (Reject reason)])"
    if "wd_decision w2 = wd_decision w" for m st w2
  proof -
    have "decide rt w2 = decide rt w" using that by (simp add: decide_def)
    then show ?thesis using assms(1)
      by (auto simp: negotiate_def bind_io_def tx_def fail_io_def split: option.splits)
  qed
  have load: "nodes (snd (load_state lb rt t w1)) = nodes w1 \<and> wd_outbox (snd (load_state lb rt t w1)) = wd_outbox w1
      \<and> wd_decision (snd (load_state lb rt t w1)) = wd_decision w1" for t w1
  proof -
    have "snd (load_state lb rt t w1) = snd (rm_load (lb_from_json lb) (rt_resume_manager rt) t w1)"
      by (auto simp: load_state_def split: prod.split result.split)
    then show ?thesis using rm_load_env [of w1 "lb_from_json lb" "rt_resume_manager rt" t]
      by (auto simp: same_env_def)
  qed
  show ?thesis
  proof (cases "wd_handshake w = Ok () \<and> (\<exists>m rest. wd_inbox w = Ok (Some (TransferRequest m)) # rest)")
    case False
    then show ?thesis using assms(2)
      by (auto simp: handle_incoming_def bind_io_def rx_def fail_io_def
          split: list.splits result.splits option.splits message.splits)
  next
    case True
    then obtain m rest where i: "wd_inbox w = Ok (Some (TransferRequest m)) # rest" by blast
    let ?w1 = "w\<lparr>wd_inbox := rest, wd_events := wd_events w @ [EvIncomingRequest (mf_transfer_id m) m (mf_sender_name m)]\<rparr>"
    obtain lr w2 where l: "load_state lb rt (mf_transfer_id m) ?w1 = (lr, w2)" by fastforce
    have w2: "nodes w2 = nodes w" "wd_outbox w2 = wd_outbox w" "wd_decision w2 = wd_decision w"
      using load [of "mf_transfer_id m" ?w1] l by simp_all
    show ?thesis
    proof (cases lr)
      case (Ok st)
      obtain nr w3 where n: "negotiate rt m st w2 = (nr, w3)" by fastforce
      show ?thesis using assms(2) True i l n w2 neg [OF w2(3), of m st] Ok
        by (cases nr) (auto simp: handle_incoming_def bind_io_def rx_def emit_def)
    qed (use assms(2) True i l w2 in \<open>auto simp: handle_incoming_def bind_io_def rx_def emit_def\<close>)
  qed
qed

text \<open>
  C3. Without consent nothing is stored: when the decision is a rejection, or none arrives, every run
  of the receiver ends without success and without touching a file, and sends at most the rejection.
\<close>

theorem rejection_writes_nothing:
  assumes "decide rt w = DecideReject reason" and "handle_incoming lb rt w = (r, w')"
  shows "r \<noteq> Ok () \<and> nodes w' = nodes w
     \<and> (wd_outbox w' = wd_outbox w \<or> wd_outbox w' = wd_outbox w @ [TransferResponse (Reject reason)])"
  using rejected_run [OF assms] .

theorem rejection_writes_nothing_witness:
  "\<exists>w'. handle_incoming demo_lib demo_recv ((demo_world [Ok (Some (TransferRequest demo_request))])\<lparr>wd_decision := None\<rparr>)
       = (Err (Rejected ''no response''), w')
     \<and> nodes w' = nodes (demo_world []) \<and> wd_outbox w' = [TransferResponse (Reject ''no response'')]"
proof -
  let ?w = "(demo_world [Ok (Some (TransferRequest demo_request))])\<lparr>wd_decision := None\<rparr>"
  have d: "decide demo_recv ?w = DecideReject ''no response''"
    by (simp add: decide_def demo_recv_def demo_config_def default_security_def default_config_def)
  have m: "mf_transfer_id demo_request = ''a''" "wd_events (demo_world i) = []" for i
    by (simp_all add: demo_request_def manifest_new_def demo_world_def)
  let ?w1 = "?w\<lparr>wd_inbox := [], wd_events := [EvIncomingRequest ''a'' demo_request (mf_sender_name demo_request)]\<rparr>"
  have r: "ready ?w1" by (simp add: demo_world_def ready_def healthy_def)
  have "nodes ?w1 (state_path (rt_resume_manager demo_recv) ''a'') = None"
    by (simp add: demo_world_def demo_recv_def state_path_def rm_new_def path_eval join_def)
  from load_state_absent [OF r this, of demo_lib] obtain w2 where
    l: "load_state demo_lib demo_recv ''a'' ?w1 = (Ok None, w2)" and w2: "ready w2" "nodes w2 = nodes (demo_world [])"
      "wd_outbox w2 = []" "wd_decision w2 = wd_decision ?w" by (auto simp: demo_world_def)
  have "decide demo_recv w2 = DecideReject ''no response''"
    using w2(4) by (simp add: decide_def demo_recv_def demo_config_def default_security_def default_config_def)
  then have run: "handle_incoming demo_lib demo_recv ?w = (Err (Rejected ''no response''),
      w2\<lparr>wd_outbox := [TransferResponse (Reject ''no response'')]\<rparr>)"
    using l w2(3) tx_ready [OF w2(1)] demo_world_facts
    by (simp add: handle_incoming_def bind_io_def rx_def emit_def negotiate_def fail_io_def m)
  then show ?thesis using rejection_writes_nothing [OF d run] w2(2) by (auto simp: demo_world_def)
qed

lemma writer_new_dest: "writer_new t i dest cs sz w = (Ok wr, w') \<Longrightarrow> cw_dest_path wr = dest"
  by (auto simp: writer_new_def bind_io_Ok_iff return_io_def Let_def split: if_splits option.splits)



end
