(* ===== verification/Integrity.thy ===== *)
theory Integrity
  imports Chunker Progress
begin

text \<open>
  The integrity and compression helpers of \<open>crates/justdrop-storage/src\<close>: \<open>integrity.rs\<close> (SHA-256
  checks), \<open>hash.rs\<close> (BLAKE3, one-shot, streaming and incremental) and \<open>compress.rs\<close> (zstd with a
  bound on the output). The hash functions and zstd are parameters.
\<close>

section \<open>integrity.rs\<close>

definition verify_file ::
  "(bytes \<Rightarrow> sha256_hash) \<Rightarrow> path \<Rightarrow> sha256_hash \<Rightarrow> ('a fs_scheme, bool, storage_error) io" where
  "verify_file sha256 p expected =
     bind_io (hash_file sha256 p) (\<lambda>actual. return_io (actual = expected))"

definition verify_chunk :: "(bytes \<Rightarrow> sha256_hash) \<Rightarrow> bytes \<Rightarrow> sha256_hash \<Rightarrow> bool" where
  "verify_chunk sha256 data expected \<longleftrightarrow> sha256 data = expected"

section \<open>hash.rs\<close>

definition hash_bytes :: "(bytes \<Rightarrow> bytes) \<Rightarrow> bytes \<Rightarrow> bytes" where
  "hash_bytes blake3 data = blake3 data"

definition blake3_hash_file :: "(bytes \<Rightarrow> bytes) \<Rightarrow> path \<Rightarrow> ('a fs_scheme, bytes, io_error) io" where
  "blake3_hash_file blake3 p =
     bind_io (fs_open p) (\<lambda>_. bind_io (hash_loop p 0 []) (\<lambda>fed. return_io (blake3 fed)))"

text \<open>An incremental hasher is known by the bytes it was fed.\<close>

record incremental_hasher =
  ih_fed :: bytes

definition ih_new :: incremental_hasher where
  "ih_new = \<lparr>ih_fed = []\<rparr>"

definition ih_update :: "bytes \<Rightarrow> incremental_hasher \<Rightarrow> incremental_hasher" where
  "ih_update data h = h\<lparr>ih_fed := ih_fed h @ data\<rparr>"

definition ih_finalize :: "(bytes \<Rightarrow> bytes) \<Rightarrow> incremental_hasher \<Rightarrow> bytes" where
  "ih_finalize blake3 h = blake3 (ih_fed h)"

definition hash_hex :: "bytes \<Rightarrow> string" where
  "hash_hex h = concat (map hex_byte h)"

section \<open>compress.rs\<close>

definition DEFAULT_LEVEL :: int where
  "DEFAULT_LEVEL = 3"

datatype compression_error = Compress string | Decompress string | TooLarge usize usize

definition compress ::
  "(bytes \<Rightarrow> int \<Rightarrow> (bytes, string) result) \<Rightarrow> bytes \<Rightarrow> (bytes, compression_error) result" where
  "compress encode_all data = map_err Compress (encode_all data DEFAULT_LEVEL)"

text \<open>
  A zstd decoder is the stream it yields: bytes, and possibly an error after them.
  \<open>take(n).read_to_end\<close> reads at most \<open>n\<close> bytes and meets the error only if it gets that far.
\<close>

definition read_limited :: "nat \<Rightarrow> bytes \<times> string option \<Rightarrow> (bytes, string) result" where
  "read_limited n st = (case st of
       (bs, None) \<Rightarrow> Ok (take n bs)
     | (bs, Some e) \<Rightarrow> if n \<le> length bs then Ok (take n bs) else Err e)"

text \<open>The size after compression as a percentage of the size before.\<close>

definition ratio :: "usize \<Rightarrow> usize \<Rightarrow> rat" where
  "ratio original compressed =
     (if original = 0 then 100 else f64 (f64 (as_f64 compressed / as_f64 original) * 100))"

definition decompress ::
  "(bytes \<Rightarrow> (bytes \<times> string option, string) result) \<Rightarrow> bytes \<Rightarrow> usize
   \<Rightarrow> (bytes, compression_error) result" where
  "decompress decoder data max_size =
     bind_res (map_err Decompress (decoder data)) (\<lambda>st.
     bind_res (map_err Decompress (read_limited (add64 max_size 1) st)) (\<lambda>buf.
     if max_size < length buf then Err (TooLarge (length buf) max_size) else Ok buf))"

definition should_compress :: "string \<Rightarrow> bool" where
  "should_compress mime_type \<longleftrightarrow> mime_type \<notin> set
     [''image/jpeg'', ''image/png'', ''image/webp'', ''image/gif'', ''video/mp4'', ''video/webm'',
      ''audio/mp3'', ''audio/aac'', ''audio/ogg'', ''application/zip'', ''application/gzip'',
      ''application/x-7z-compressed'', ''application/x-rar-compressed'', ''application/zstd'']"

section \<open>Properties\<close>

text \<open>
  \<open>verify_file\<close> answers true exactly for a file with the expected hash: whenever it returns a
  verdict, the verdict is the comparison of the hash of the whole file with the expected one,
  however the reads were split.
\<close>

theorem verify_file_exact:
  assumes "verify_file sha256 p expected s = (Ok b, s')" and "content s p = Some x"
  shows "b \<longleftrightarrow> verify_chunk sha256 x expected"
proof -
  obtain h s1 where "hash_file sha256 p s = (Ok h, s1)" "b = (h = expected)"
    using assms(1) by (auto simp: verify_file_def bind_io_Ok_iff return_io_def)
  moreover have "h = sha256 x" if "hash_file sha256 p s = (Ok h, s1)" for h s1
    using that assms(2) unfolding hash_file_def
    by (auto simp: bind_io_Ok_iff return_io_def dest!: fs_open_Ok hash_loop_Ok same_envD)
  ultimately show ?thesis by (simp add: verify_chunk_def)
qed

theorem verify_file_exact_witness:
  "fst (verify_file rev (path_of ''/f'') [3, 2, 1] demo_fs) = Ok True"
proof -
  have r: "is_ok (fst (verify_file rev (path_of ''/f'') [3, 2, 1] demo_fs))"
    by (simp add: verify_file_def hash_file_def io_at_def bind_io_def map_err_io_def return_io_def
        fs_open_def fs_gate_def demo_fs_def hash_loop.simps fs_read_def content_def)
  have c: "content demo_fs (path_of ''/f'') = Some [1, 2, 3]"
    by (simp add: demo_fs_def content_def)
  from r obtain b s' where b: "verify_file rev (path_of ''/f'') [3, 2, 1] demo_fs = (Ok b, s')"
    by (metis is_ok.elims(2) prod.collapse)
  show ?thesis using verify_file_exact [OF b c] b by (simp add: verify_chunk_def)
qed

lemma ih_fold: "ih_fed (fold ih_update ds h) = ih_fed h @ concat ds"
  by (induction ds arbitrary: h) (simp_all add: ih_update_def)

text \<open>
  The streaming and the incremental hash agree: feeding an incremental hasher with the
  pieces of a file, split anywhere, gives what hashing the file with streaming reads gives.
\<close>

theorem incremental_hash_is_file_hash:
  assumes "blake3_hash_file blake3 p s = (Ok h, s')" and "content s p = Some (concat pieces)"
  shows "ih_finalize blake3 (fold ih_update pieces ih_new) = h"
proof -
  obtain fed s1 s2 where "fs_open p s = (Ok (), s1)" "hash_loop p 0 [] s1 = (Ok fed, s2)" "h = blake3 fed"
    using assms(1) by (auto simp: blake3_hash_file_def bind_io_Ok_iff return_io_def)
  then have "h = blake3 (concat pieces)" using hash_loop_Ok [of p 0 "[]" s1 fed s2 "concat pieces"] assms(2)
    by (auto dest!: fs_open_Ok same_envD)
  then show ?thesis by (simp add: ih_finalize_def ih_fold ih_new_def)
qed

theorem incremental_hash_is_file_hash_witness:
  "ih_finalize rev (fold ih_update [[1], [], [2, 3]] ih_new)
     = [3, 2, 1] \<and> fst (blake3_hash_file rev (path_of ''/f'') demo_fs) = Ok [3, 2, 1]"
proof -
  have r: "\<exists>h s'. blake3_hash_file rev (path_of ''/f'') demo_fs = (Ok h, s')"
    by (simp add: blake3_hash_file_def bind_io_def return_io_def
        fs_open_def fs_gate_def demo_fs_def hash_loop.simps fs_read_def content_def)
  have c: "content demo_fs (path_of ''/f'') = Some (concat [[1], [], [2, 3]])"
    by (simp add: demo_fs_def content_def)
  have "ih_finalize rev (fold ih_update [[1], [], [2, 3]] ih_new) = [3, 2, 1]"
    by (simp add: ih_finalize_def ih_update_def ih_new_def)
  with r show ?thesis
    using incremental_hash_is_file_hash [OF _ c, of rev] by fastforce
qed

text \<open>
  Decompression is bounded and loses nothing: the result is never longer than the limit; data
  whose stream fits the limit is returned whole; a longer stream is refused with \<open>TooLarge\<close> after
  reading a single byte beyond the limit, even if the rest of the stream is corrupt.
\<close>

theorem decompress_bounded:
  assumes "max_size < 2 ^ 64 - 1" and "decoder data = Ok (bs, err)"
  shows "(\<forall>buf. decompress decoder data max_size = Ok buf \<longrightarrow> length buf \<le> max_size \<and> buf = bs)
    \<and> (length bs \<le> max_size \<and> err = None \<longrightarrow> decompress decoder data max_size = Ok bs)
    \<and> (max_size < length bs \<longrightarrow> decompress decoder data max_size = Err (TooLarge (max_size + 1) max_size))
    \<and> (length bs \<le> max_size \<and> err = Some e \<longrightarrow> decompress decoder data max_size = Err (Decompress e))"
  using assms
  by (cases err) (auto simp: decompress_def read_limited_def add64_def split: if_splits)

theorem decompress_bounded_witness:
  "decompress (\<lambda>d. Ok (d @ d, Some ''bad block'')) [1, 2] 3 = Err (TooLarge 4 3)"
  using decompress_bounded [of 3 "\<lambda>d. Ok (d @ d, Some ''bad block'')" "[1, 2]" "[1, 2, 1, 2]" "Some ''bad block''"]
  by simp

end
