(* ===== verification/State_Machine.thy ===== *)
theory State_Machine
  imports Core_Types "HOL-Library.Sublist"
begin

text \<open>
  \<open>crates/justdrop-protocol/src/state.rs\<close>: the state machine of one transfer. The contract of a
  life cycle whose final states are final is a locale; the machine provides it.
\<close>

section \<open>Life cycles\<close>

locale lifecycle =
  fixes step :: "'s \<Rightarrow> 's \<Rightarrow> bool"
    and final :: "'s \<Rightarrow> bool"
  assumes final_stuck: "final s \<Longrightarrow> \<not> step s t"
begin

lemma final_absorbs: "step\<^sup>*\<^sup>* s t \<Longrightarrow> final s \<Longrightarrow> t = s"
  by (induction rule: converse_rtranclp_induct) (auto dest: final_stuck)

text \<open>Two runs from the same state meet at most one final state each; along one run, one.\<close>

lemma one_final_state: "step\<^sup>*\<^sup>* s t \<Longrightarrow> step\<^sup>*\<^sup>* t u \<Longrightarrow> final t \<Longrightarrow> final u \<Longrightarrow> t = u"
  using final_absorbs by blast

end

section \<open>The machine\<close>

record transfer_state_machine =
  sm_state :: transfer_state

definition sm_new :: transfer_state_machine where
  "sm_new = \<lparr>sm_state = Handshaking\<rparr>"

definition sm_from_state :: "transfer_state \<Rightarrow> transfer_state_machine" where
  "sm_from_state st = \<lparr>sm_state = st\<rparr>"

definition is_valid_transition :: "transfer_state_machine \<Rightarrow> transfer_state \<Rightarrow> bool" where
  "is_valid_transition sm to_st \<longleftrightarrow> (sm_state sm, to_st) \<in> set
     [(Handshaking, Negotiating), (Negotiating, Transferring), (Transferring, Verifying),
      (Verifying, Completed),
      (Negotiating, Cancelled),
      (Handshaking, Cancelled), (Transferring, Cancelled), (Verifying, Cancelled),
      (Handshaking, Failed), (Negotiating, Failed), (Transferring, Failed), (Verifying, Failed),
      (Transferring, Paused), (Paused, Transferring), (Paused, Cancelled), (Paused, Failed),
      (Negotiating, Negotiating)]"

definition transition ::
  "transfer_state_machine \<Rightarrow> transfer_state \<Rightarrow> (unit, protocol_error) result \<times> transfer_state_machine" where
  "transition sm to_st =
     (if is_valid_transition sm to_st then (Ok (), sm\<lparr>sm_state := to_st\<rparr>)
      else (Err (UnexpectedMessage (transfer_state_display (sm_state sm))
                                   (transfer_state_display to_st)), sm))"

definition is_terminal :: "transfer_state_machine \<Rightarrow> bool" where
  "is_terminal sm \<longleftrightarrow> sm_state sm \<in> {Completed, Failed, Cancelled}"

definition is_active :: "transfer_state_machine \<Rightarrow> bool" where
  "is_active sm \<longleftrightarrow> \<not> is_terminal sm"

text \<open>The steps the machine takes, and the states a sequence of requests leads through.\<close>

inductive sm_step :: "transfer_state_machine \<Rightarrow> transfer_state_machine \<Rightarrow> bool" where
  sm_step: "transition sm to_st = (Ok (), sm') \<Longrightarrow> sm_step sm sm'"

inductive_cases sm_stepE: "sm_step sm sm'"

fun requests :: "transfer_state list \<Rightarrow> transfer_state_machine \<Rightarrow> transfer_state_machine" where
  "requests [] sm = sm"
| "requests (t # ts) sm = requests ts (snd (transition sm t))"

fun visited :: "transfer_state list \<Rightarrow> transfer_state_machine \<Rightarrow> transfer_state list" where
  "visited [] sm = [sm_state sm]"
| "visited (t # ts) sm = sm_state sm # visited ts (snd (transition sm t))"

lemma transition_iff:
  "sm_step sm sm' \<longleftrightarrow> (\<exists>t. is_valid_transition sm t \<and> sm' = sm\<lparr>sm_state := t\<rparr>)"
  by (auto simp: sm_step.simps transition_def)

interpretation transfer_cycle: lifecycle sm_step is_terminal
proof
  fix sm sm' assume "is_terminal sm"
  then show "\<not> sm_step sm sm'"
    by (cases "sm_state sm") (auto simp: is_terminal_def transition_iff is_valid_transition_def)
qed

lemma requests_steps: "sm_step\<^sup>*\<^sup>* sm (requests ts sm)"
proof (induction ts arbitrary: sm)
  case (Cons t ts)
  have "snd (transition sm t) = sm \<or> sm_step sm (snd (transition sm t))"
    by (auto simp: transition_def transition_iff)
  then show ?case using Cons [of "snd (transition sm t)"]
    by (auto intro: converse_rtranclp_into_rtranclp)
qed simp

section \<open>Properties\<close>

text \<open>
  A finished transfer stays finished: once the machine is in \<open>Completed\<close>, \<open>Failed\<close> or
  \<open>Cancelled\<close>, no sequence of requests changes its state, and each single request is answered with
  \<open>UnexpectedMessage\<close> naming the final state.
\<close>

theorem terminal_is_final:
  assumes "is_terminal (requests ts sm)"
  shows "requests (ts @ us) sm = requests ts sm
    \<and> fst (transition (requests ts sm) u)
        = Err (UnexpectedMessage (transfer_state_display (sm_state (requests ts sm))) (transfer_state_display u))"
proof -
  have "requests (ts @ us) sm = requests us (requests ts sm)"
    by (induction ts arbitrary: sm) simp_all
  also have "\<dots> = requests ts sm"
    by (rule transfer_cycle.final_absorbs [OF requests_steps assms])
  finally show ?thesis
    using assms transfer_cycle.final_stuck [OF assms] by (auto simp: transition_def transition_iff)
qed

theorem terminal_is_final_witness:
  "sm_state (requests ([Cancelled] @ [Failed, Negotiating]) sm_new) = Cancelled"
  using terminal_is_final [of "[Cancelled]" sm_new "[Failed, Negotiating]"]
  by (simp add: transition_def is_valid_transition_def sm_new_def is_terminal_def)

text \<open>What must lie behind the machine in each state.\<close>

fun path_to :: "transfer_state \<Rightarrow> transfer_state list" where
  "path_to Negotiating = [Handshaking, Negotiating]"
| "path_to Transferring = [Handshaking, Negotiating, Transferring]"
| "path_to Paused = [Handshaking, Negotiating, Transferring, Paused]"
| "path_to Verifying = [Handshaking, Negotiating, Transferring, Verifying]"
| "path_to Completed = [Handshaking, Negotiating, Transferring, Verifying, Completed]"
| "path_to st = [st]"

lemma path_to_step:
  assumes "is_valid_transition sm t" "subseq (path_to (sm_state sm)) hist"
  shows "subseq (path_to t) (hist @ [t])"
proof -
  have "path_to t = [t] \<or> (\<exists>xs. path_to t = xs @ [t] \<and> subseq xs (path_to (sm_state sm)))"
    using assms(1) by (cases t; cases "sm_state sm") (auto simp: is_valid_transition_def)
  then show ?thesis
    using assms(2) by (auto intro: list_emb_append_mono subseq_order.trans)
qed

lemma path_to_visited:
  assumes "subseq (path_to (sm_state sm)) (hist @ [sm_state sm])"
  shows "subseq (path_to (sm_state (requests ts sm))) (hist @ visited ts sm)"
  using assms
proof (induction ts arbitrary: sm hist)
  case (Cons t ts)
  let ?h = "hist @ [sm_state sm]"
  have "subseq (path_to (sm_state (snd (transition sm t)))) (?h @ [sm_state (snd (transition sm t))])"
    using Cons.prems path_to_step [of sm t ?h]
    by (auto simp: transition_def intro: list_emb_append2 [of _ _ "[]", simplified] subseq_order.trans)
  from Cons.IH [OF this] show ?case by simp
qed simp

text \<open>
  C38. A transfer completes only after verification: if any sequence of requests drives a new
  machine to \<open>Completed\<close>, then it went through \<open>Negotiating\<close>, \<open>Transferring\<close> and \<open>Verifying\<close>, in
  that order, whatever else was requested, refused, paused or resumed in between.
\<close>

theorem completed_after_verifying:
  assumes "sm_state (requests ts sm_new) = Completed"
  shows "subseq [Handshaking, Negotiating, Transferring, Verifying, Completed] (visited ts sm_new)"
  using path_to_visited [of sm_new "[]" ts] assms by (simp add: sm_new_def)

theorem completed_after_verifying_witness:
  "subseq [Handshaking, Negotiating, Transferring, Verifying, Completed]
     (visited [Negotiating, Completed, Transferring, Paused, Transferring, Verifying, Completed] sm_new)"
  by (rule completed_after_verifying)
    (simp add: transition_def is_valid_transition_def sm_new_def)

text \<open>
  An unfinished transfer can always be aborted: \<open>Failed\<close> and \<open>Cancelled\<close> are accepted in every
  active state and in no other, and lead to a terminal state.
\<close>

theorem abort_iff_active:
  assumes "t = Failed \<or> t = Cancelled"
  shows "(transition sm t = (Ok (), sm\<lparr>sm_state := t\<rparr>) \<longleftrightarrow> is_active sm)
    \<and> is_terminal (snd (transition sm t))"
  using assms
  by (cases "sm_state sm") (auto simp: transition_def is_valid_transition_def is_active_def is_terminal_def)

theorem abort_iff_active_witness:
  "transition \<lparr>sm_state = Paused\<rparr> Failed = (Ok (), \<lparr>sm_state = Failed\<rparr>)"
  using abort_iff_active [of Failed "\<lparr>sm_state = Paused\<rparr>"]
  by (simp add: is_active_def is_terminal_def)

end
