(* ===== verification/Crypto.thy ===== *)
theory Crypto
  imports Core_Types
begin

text \<open>
  \<open>crates/justdrop-security/src/crypto.rs\<close>: session keys from an ephemeral key exchange, and the cipher
  with its nonce counter. The ring library is a parameter; the random source is a number per call.
\<close>

section \<open>The library\<close>

text \<open>
  \<open>rg_expand salt secret info n\<close> is HKDF-SHA256 (extract, expand to \<open>n\<close> bytes, fill); \<open>rg_seal\<close> appends
  the tag, \<open>rg_open\<close> removes and checks it; both use an empty additional data.
\<close>

record 'k ring =
  rg_generate :: "nat \<Rightarrow> 'k option"
  rg_public :: "'k \<Rightarrow> bytes option"
  rg_agree :: "'k \<Rightarrow> bytes \<Rightarrow> bytes option"
  rg_expand :: "bytes \<Rightarrow> bytes \<Rightarrow> bytes \<Rightarrow> nat \<Rightarrow> bytes option"
  rg_valid_key :: "bytes \<Rightarrow> bool"
  rg_seal :: "bytes \<Rightarrow> bytes \<Rightarrow> bytes \<Rightarrow> bytes option"
  rg_open :: "bytes \<Rightarrow> bytes \<Rightarrow> bytes \<Rightarrow> bytes option"
  rg_verify :: "bytes \<Rightarrow> bytes \<Rightarrow> bytes \<Rightarrow> bool"

datatype crypto_error = KeyGeneration | KeyExchange | VerificationFailed | EncryptionFailed
  | DecryptionFailed | InvalidKey

fun crypto_display :: "crypto_error \<Rightarrow> string" where
  "crypto_display KeyGeneration = ''key generation failed''"
| "crypto_display KeyExchange = ''key exchange failed''"
| "crypto_display VerificationFailed = ''signature verification failed''"
| "crypto_display EncryptionFailed = ''encryption failed''"
| "crypto_display DecryptionFailed = ''decryption failed''"
| "crypto_display InvalidKey = ''invalid key material''"

definition ascii :: "string \<Rightarrow> bytes" where
  "ascii s = map of_char s"

section \<open>Session keys\<close>

record session_keys =
  sk_encrypt_key :: bytes
  sk_decrypt_key :: bytes

definition HkdfLen :: "usize \<Rightarrow> usize" where
  "HkdfLen n = n"

definition derive ::
  "'k ring \<Rightarrow> bytes \<Rightarrow> bool \<Rightarrow> (session_keys, crypto_error) result" where
  "derive rg shared_secret is_initiator =
     (let expand = rg_expand rg (ascii ''justdrop-session-v1'') shared_secret
      in bind_res (ok_or (expand (ascii ''initiator-key'') (HkdfLen 32)) KeyExchange) (\<lambda>initiator_key.
         bind_res (ok_or (expand (ascii ''responder-key'') (HkdfLen 32)) KeyExchange) (\<lambda>responder_key.
         let (encrypt_key, decrypt_key) =
           (if is_initiator then (initiator_key, responder_key) else (responder_key, initiator_key))
         in Ok \<lparr>sk_encrypt_key = encrypt_key, sk_decrypt_key = decrypt_key\<rparr>)))"

record 'k key_exchange =
  ke_private_key :: 'k
  ke_public_key_bytes :: bytes

definition key_exchange_new :: "'k ring \<Rightarrow> nat \<Rightarrow> ('k key_exchange, crypto_error) result" where
  "key_exchange_new rg rng =
     bind_res (ok_or (rg_generate rg rng) KeyGeneration) (\<lambda>private_key.
     bind_res (ok_or (rg_public rg private_key) KeyGeneration) (\<lambda>public_key_bytes.
     Ok \<lparr>ke_private_key = private_key, ke_public_key_bytes = public_key_bytes\<rparr>))"

definition key_exchange_complete ::
  "'k ring \<Rightarrow> 'k key_exchange \<Rightarrow> bytes \<Rightarrow> bool \<Rightarrow> (session_keys, crypto_error) result" where
  "key_exchange_complete rg ke peer_public_key is_initiator =
     bind_res (ok_or (rg_agree rg (ke_private_key ke) peer_public_key) KeyExchange) (\<lambda>shared_secret.
     derive rg shared_secret is_initiator)"

section \<open>The cipher\<close>

definition NONCE_LEN :: usize where
  "NONCE_LEN = 12"

record session_cipher =
  ci_key :: bytes
  ci_nonce_counter :: u64

definition cipher_new :: "'k ring \<Rightarrow> bytes \<Rightarrow> (session_cipher, crypto_error) result" where
  "cipher_new rg key_bytes =
     (if rg_valid_key rg key_bytes then Ok \<lparr>ci_key = key_bytes, ci_nonce_counter = 0\<rparr> else Err InvalidKey)"

definition encryptor :: "'k ring \<Rightarrow> session_keys \<Rightarrow> (session_cipher, crypto_error) result" where
  "encryptor rg ks = cipher_new rg (sk_encrypt_key ks)"

definition decryptor :: "'k ring \<Rightarrow> session_keys \<Rightarrow> (session_cipher, crypto_error) result" where
  "decryptor rg ks = cipher_new rg (sk_decrypt_key ks)"

definition next_nonce :: "session_cipher \<Rightarrow> bytes \<times> session_cipher" where
  "next_nonce c =
     (let counter = ci_nonce_counter c;
          c' = c\<lparr>ci_nonce_counter := add64 counter 1\<rparr>;
          nonce = replicate NONCE_LEN 0
      in (le_bytes 8 counter @ drop 8 nonce, c'))"

text \<open>\<open>encrypt\<close> returns the nonce and leaves the sealed text in place of the plaintext.\<close>

definition cipher_encrypt ::
  "'k ring \<Rightarrow> session_cipher \<Rightarrow> bytes \<Rightarrow> (bytes \<times> bytes, crypto_error) result \<times> session_cipher" where
  "cipher_encrypt rg c plaintext =
     (case next_nonce c of (nonce, c') \<Rightarrow>
        (bind_res (ok_or (rg_seal rg (ci_key c) nonce plaintext) EncryptionFailed) (\<lambda>sealed. Ok (nonce, sealed)), c'))"

definition cipher_decrypt ::
  "'k ring \<Rightarrow> session_cipher \<Rightarrow> bytes \<Rightarrow> bytes \<Rightarrow> (bytes, crypto_error) result" where
  "cipher_decrypt rg c nonce ciphertext = ok_or (rg_open rg (ci_key c) nonce ciphertext) DecryptionFailed"

definition verify_signature :: "'k ring \<Rightarrow> bytes \<Rightarrow> bytes \<Rightarrow> bytes \<Rightarrow> (unit, crypto_error) result" where
  "verify_signature rg public_key msg signature_bytes =
     (if rg_verify rg public_key msg signature_bytes then Ok () else Err VerificationFailed)"

section \<open>Nonces\<close>

fun encrypt_all ::
  "'k ring \<Rightarrow> session_cipher \<Rightarrow> bytes list \<Rightarrow> (bytes \<times> bytes, crypto_error) result list \<times> session_cipher" where
  "encrypt_all rg c [] = ([], c)"
| "encrypt_all rg c (p # ps) =
     (case cipher_encrypt rg c p of (r, c1) \<Rightarrow>
      case encrypt_all rg c1 ps of (rs, c2) \<Rightarrow> (r # rs, c2))"

definition nonce_of :: "u64 \<Rightarrow> bytes" where
  "nonce_of n = le_bytes 8 n @ replicate 4 0"

lemma next_nonce_eq: "next_nonce c = (nonce_of (ci_nonce_counter c), c\<lparr>ci_nonce_counter := add64 (ci_nonce_counter c) 1\<rparr>)"
  by (simp add: next_nonce_def nonce_of_def NONCE_LEN_def Let_def)

lemma nonce_of_inj: "m < 2 ^ 64 \<Longrightarrow> n < 2 ^ 64 \<Longrightarrow> nonce_of m = nonce_of n \<longleftrightarrow> m = n"
  using le_bytes_inj [of m 8 n] by (simp add: nonce_of_def)

lemma encrypt_all_nth:
  assumes "ci_nonce_counter c < 2 ^ 64" "encrypt_all rg c ps = (rs, c')"
  shows "length rs = length ps \<and> ci_key c' = ci_key c \<and> (\<forall>i<length ps. rs ! i =
     bind_res (ok_or (rg_seal rg (ci_key c) (nonce_of ((ci_nonce_counter c + i) mod 2 ^ 64)) (ps ! i)) EncryptionFailed)
       (\<lambda>sealed. Ok (nonce_of ((ci_nonce_counter c + i) mod 2 ^ 64), sealed)))"
  using assms
proof (induction ps arbitrary: c rs)
  case (Cons p ps)
  let ?n = "ci_nonce_counter c"
  let ?c = "c\<lparr>ci_nonce_counter := (?n + 1) mod 2 ^ 64\<rparr>"
  obtain rs' where rs: "encrypt_all rg ?c ps = (rs', c')" and r: "rs = bind_res (ok_or (rg_seal rg (ci_key c)
        (nonce_of ?n) p) EncryptionFailed) (\<lambda>sealed. Ok (nonce_of ?n, sealed)) # rs'"
    using Cons.prems(2) by (auto simp: cipher_encrypt_def next_nonce_eq add64_def split: prod.splits)
  have "((?n + 1) mod 2 ^ 64 + i) mod 2 ^ 64 = (?n + Suc i) mod 2 ^ 64" for i
    by (simp add: mod_simps del: power_numeral)
  with Cons.IH [of ?c rs'] rs have tail: "length rs' = length ps" "ci_key c' = ci_key c"
    "rs' ! i = bind_res (ok_or (rg_seal rg (ci_key c) (nonce_of ((?n + Suc i) mod 2 ^ 64)) (ps ! i)) EncryptionFailed)
       (\<lambda>sealed. Ok (nonce_of ((?n + Suc i) mod 2 ^ 64), sealed))" if "i < length ps" for i
    using that by (simp_all del: power_numeral)
  have n: "?n mod 2 ^ 64 = ?n" using Cons.prems(1) by simp
  have len: "length rs' = length ps \<and> ci_key c' = ci_key c"
    using Cons.IH [of ?c rs'] rs by simp
  have "(r # rs') ! i = bind_res (ok_or (rg_seal rg (ci_key c) (nonce_of ((?n + i) mod 2 ^ 64)) ((p # ps) ! i)) EncryptionFailed)
       (\<lambda>sealed. Ok (nonce_of ((?n + i) mod 2 ^ 64), sealed))"
    if "i < length (p # ps)" "r = bind_res (ok_or (rg_seal rg (ci_key c) (nonce_of ?n) p) EncryptionFailed)
        (\<lambda>sealed. Ok (nonce_of ?n, sealed))" for i r
    using that tail(3) n by (cases i) (simp_all del: power_numeral)
  with r len show ?case by (simp del: power_numeral)
qed simp

lemma encrypt_all_Ok:
  assumes "ci_nonce_counter c = 0" "encrypt_all rg c ps = (rs, c')" "length ps \<le> 2 ^ 64" "i < length ps" "rs ! i = Ok (n, x)"
  shows "n = nonce_of i \<and> rg_seal rg (ci_key c) (nonce_of i) (ps ! i) = Some x"
proof -
  have "i mod 2 ^ 64 = i" using assms(3,4) by simp
  with encrypt_all_nth [of c rg ps rs c'] assms show ?thesis
    by (cases "rg_seal rg (ci_key c) (nonce_of i) (ps ! i)") (auto simp del: power_numeral)
qed


text \<open>A library for the witnesses: the agreed secret is the sum of two bytes, sealing appends the nonce.\<close>

definition toy_ring :: "byte ring" where
  "toy_ring = \<lparr>rg_generate = (\<lambda>r. Some (of_nat r)), rg_public = (\<lambda>k. Some [k]),
     rg_agree = (\<lambda>k pk. case pk of [b] \<Rightarrow> Some [k + b] | _ \<Rightarrow> None),
     rg_expand = (\<lambda>salt secret info n. Some (secret @ take 1 info)),
     rg_valid_key = (\<lambda>k. length k = 2),
     rg_seal = (\<lambda>k n p. Some (p @ k @ n)),
     rg_open = (\<lambda>k n c. let m = length c - (length k + length n)
                 in if drop m c = k @ n then Some (take m c) else None),
     rg_verify = (\<lambda>pk m s. s = pk @ m)\<rparr>"


section \<open>Two sides of a session\<close>

fun decrypt_all :: "'k ring \<Rightarrow> session_cipher \<Rightarrow> (bytes \<times> bytes) list \<Rightarrow> (bytes list, crypto_error) result" where
  "decrypt_all rg c [] = Ok []"
| "decrypt_all rg c ((n, x) # xs) = bind_res (cipher_decrypt rg c n x) (\<lambda>p.
     bind_res (decrypt_all rg c xs) (\<lambda>ps. Ok (p # ps)))"

text \<open>What the flows rely on: the key agreement is symmetric, opening inverts sealing.\<close>

definition ring_laws :: "'k ring \<Rightarrow> bool" where
  "ring_laws rg \<longleftrightarrow>
     (\<forall>a b pa pb. rg_public rg a = Some pa \<longrightarrow> rg_public rg b = Some pb \<longrightarrow> rg_agree rg a pb = rg_agree rg b pa)
     \<and> (\<forall>k n p c. rg_valid_key rg k \<longrightarrow> rg_seal rg k n p = Some c \<longrightarrow> rg_open rg k n c = Some p)"

lemma decrypt_all_seals:
  assumes "ring_laws rg" "rg_valid_key rg (ci_key c)"
    and "encrypt_all rg c ps = (map Ok xs, c')" and "ci_key d = ci_key c"
  shows "decrypt_all rg d xs = Ok ps"
  using assms(2-4)
proof (induction ps arbitrary: c xs)
  case (Cons p ps)
  let ?n = "nonce_of (ci_nonce_counter c)" and ?c = "c\<lparr>ci_nonce_counter := add64 (ci_nonce_counter c) 1\<rparr>"
  obtain y xs' where xs: "xs = (?n, y) # xs'" "rg_seal rg (ci_key c) ?n p = Some y" "encrypt_all rg ?c ps = (map Ok xs', c')"
    using Cons.prems(2) by (cases "rg_seal rg (ci_key c) ?n p")
      (auto simp: cipher_encrypt_def next_nonce_eq split: prod.splits)
  have "rg_open rg (ci_key c) ?n y = Some p" using assms(1) Cons.prems(1) xs(2) by (simp add: ring_laws_def)
  then show ?case using Cons.IH [OF _ xs(3)] Cons.prems(1,3) xs(1) by (simp add: cipher_decrypt_def)
qed simp

text \<open>
  C11. Both sides of a key exchange get the same pair of keys with the directions swapped, and what
  one side encrypts the other decrypts in order, in each direction. The keys of the two directions
  differ whenever the derivation separates its labels, so no key and nonce pair is shared.
\<close>

theorem key_exchange_matches:
  assumes "ring_laws rg"
    and "key_exchange_new rg r1 = Ok ki" and "key_exchange_new rg r2 = Ok kr"
    and "key_exchange_complete rg ki (ke_public_key_bytes kr) True = Ok a"
  shows "\<exists>b. key_exchange_complete rg kr (ke_public_key_bytes ki) False = Ok b
    \<and> sk_encrypt_key b = sk_decrypt_key a \<and> sk_decrypt_key b = sk_encrypt_key a
    \<and> (\<forall>c ps xs c'. encryptor rg a = Ok c \<and> encrypt_all rg c ps = (map Ok xs, c')
         \<longrightarrow> (\<exists>d. decryptor rg b = Ok d \<and> decrypt_all rg d xs = Ok ps))
    \<and> (\<forall>c ps xs c'. encryptor rg b = Ok c \<and> encrypt_all rg c ps = (map Ok xs, c')
         \<longrightarrow> (\<exists>d. decryptor rg a = Ok d \<and> decrypt_all rg d xs = Ok ps))"
proof -
  have pub: "rg_public rg (ke_private_key ki) = Some (ke_public_key_bytes ki)"
    "rg_public rg (ke_private_key kr) = Some (ke_public_key_bytes kr)"
    using assms(2,3) by (auto simp: key_exchange_new_def bind_res_Ok_iff ok_or_Ok_iff)
  then have agree: "rg_agree rg (ke_private_key kr) (ke_public_key_bytes ki)
      = rg_agree rg (ke_private_key ki) (ke_public_key_bytes kr)"
    using assms(1) unfolding ring_laws_def by metis
  obtain secret where s: "rg_agree rg (ke_private_key ki) (ke_public_key_bytes kr) = Some secret"
    "derive rg secret True = Ok a"
    using assms(4) by (auto simp: key_exchange_complete_def bind_res_Ok_iff)
  have "\<exists>b. derive rg secret False = Ok b \<and> sk_encrypt_key b = sk_decrypt_key a \<and> sk_decrypt_key b = sk_encrypt_key a"
    using s(2) by (auto simp: derive_def Let_def bind_res_Ok_iff)
  then obtain b where b: "key_exchange_complete rg kr (ke_public_key_bytes ki) False = Ok b"
    "sk_encrypt_key b = sk_decrypt_key a" "sk_decrypt_key b = sk_encrypt_key a"
    using s(1) agree by (auto simp: key_exchange_complete_def)
  have dir: "\<exists>d. decryptor rg v = Ok d \<and> decrypt_all rg d xs = Ok ps"
    if "sk_decrypt_key v = sk_encrypt_key u" "encryptor rg u = Ok c" "encrypt_all rg c ps = (map Ok xs, c')"
    for u v :: session_keys and c ps xs c'
  proof -
    have k: "ci_key c = sk_encrypt_key u" "rg_valid_key rg (ci_key c)"
      using that(2) by (auto simp: encryptor_def cipher_new_def split: if_splits)
    then show ?thesis using decrypt_all_seals [OF assms(1) k(2) that(3)] that(1)
      by (simp add: decryptor_def cipher_new_def)
  qed
  show ?thesis
    by (intro exI [of _ b] conjI allI impI b; erule conjE; rule dir)
      (simp_all add: b)
qed

lemma toy_ring_laws: "ring_laws toy_ring"
  by (auto simp: ring_laws_def toy_ring_def add.commute)

theorem key_exchange_matches_witness:
  "\<exists>a b. key_exchange_complete toy_ring \<lparr>ke_private_key = 3, ke_public_key_bytes = [3]\<rparr> [4] True = Ok a
     \<and> key_exchange_complete toy_ring \<lparr>ke_private_key = 4, ke_public_key_bytes = [4]\<rparr> [3] False = Ok b
     \<and> sk_encrypt_key b = sk_decrypt_key a \<and> sk_encrypt_key a \<noteq> sk_encrypt_key b"
proof -
  have k: "key_exchange_new toy_ring 3 = Ok \<lparr>ke_private_key = 3, ke_public_key_bytes = [3]\<rparr>"
    "key_exchange_new toy_ring 4 = Ok \<lparr>ke_private_key = 4, ke_public_key_bytes = [4]\<rparr>"
    by (simp_all add: key_exchange_new_def toy_ring_def)
  have a: "key_exchange_complete toy_ring \<lparr>ke_private_key = 3, ke_public_key_bytes = [3]\<rparr>
      (ke_public_key_bytes \<lparr>ke_private_key = 4, ke_public_key_bytes = [4 :: byte]\<rparr>) True
      = Ok \<lparr>sk_encrypt_key = [7, 0x69], sk_decrypt_key = [7, 0x72]\<rparr>"
    by (simp add: key_exchange_complete_def derive_def toy_ring_def ascii_def)
  show ?thesis using key_exchange_matches [OF toy_ring_laws k a] a by auto
qed

end
