(* ===== verification/Sendfile.thy ===== *)
theory Sendfile
  imports Core_Types
begin

text \<open>
  \<open>crates/justdrop-network/src/sendfile.rs\<close>: sending a region of a file to a socket without copying
  it, on Linux, on macOS and by the fallback. The system call is a parameter of the state: its
  answer to each call, in order. The file is the one opened, read at the offsets the code asks for.
\<close>

section \<open>The system call\<close>

text \<open>
  An answer \<open>Moves n\<close> moves at most \<open>n + 1\<close> bytes, so at least one unless the end of the file or
  the wanted count is reached; \<open>Errno e n\<close> fails with the error \<open>e\<close>. On macOS a failed call may
  have moved up to \<open>n\<close> bytes and reports how many; on Linux it has moved none.
\<close>

datatype kernel_answer = Moves nat | Errno int nat

record socket_fs = fs +
  sk_sent :: bytes
  sk_calls :: nat
  sk_kernel :: "nat \<Rightarrow> kernel_answer"

definition file_data :: "socket_fs \<Rightarrow> path \<Rightarrow> bytes" where
  "file_data s p = (case content s p of Some d \<Rightarrow> d | None \<Rightarrow> [])"

definition put_socket :: "bytes \<Rightarrow> socket_fs \<Rightarrow> socket_fs" where
  "put_socket x s = s\<lparr>sk_sent := sk_sent s @ x, sk_calls := Suc (sk_calls s)\<rparr>"

definition sys_sendfile_linux :: "path \<Rightarrow> nat \<Rightarrow> nat \<Rightarrow> (socket_fs, nat, int) io" where
  "sys_sendfile_linux p off want s =
     (case sk_kernel s (sk_calls s) of
        Moves n \<Rightarrow> (let x = take (min want (Suc n)) (drop off (file_data s p)) in (Ok (length x), put_socket x s))
      | Errno e _ \<Rightarrow> (Err e, put_socket [] s))"

definition sys_sendfile_macos :: "path \<Rightarrow> nat \<Rightarrow> nat \<Rightarrow> (socket_fs, nat, int \<times> nat) io" where
  "sys_sendfile_macos p off want s =
     (case sk_kernel s (sk_calls s) of
        Moves n \<Rightarrow> (let x = take (min want (Suc n)) (drop off (file_data s p)) in (Ok (length x), put_socket x s))
      | Errno e n \<Rightarrow> (let x = take (min want n) (drop off (file_data s p)) in (Err (e, length x), put_socket x s)))"

definition os_error :: "int \<Rightarrow> io_error" where
  "os_error e = (if e = 2 then NotFound else OtherIo ''os error'')"

section \<open>The three versions\<close>

definition sub64 :: "u64 \<Rightarrow> u64 \<Rightarrow> u64" where
  "sub64 a b = (a + 2 ^ 64 - b) mod 2 ^ 64"

definition region :: "u64 \<Rightarrow> u64 \<Rightarrow> u64 \<Rightarrow> u64" where
  "region file_size offset count =
     (if count = 0 then sub64 file_size offset else min count (sub64 file_size offset))"

function linux_loop :: "path \<Rightarrow> u64 \<Rightarrow> u64 \<Rightarrow> nat \<Rightarrow> (socket_fs, u64, io_error) io" where
  "linux_loop p bytes_to_send total_sent file_offset s =
     (if total_sent < bytes_to_send
      then (case sys_sendfile_linux p file_offset (min (bytes_to_send - total_sent) (1024 * 1024)) s of
              (Ok n, s') \<Rightarrow>
                if 0 < n then linux_loop p bytes_to_send (total_sent + n) (file_offset + n) s' else (Ok total_sent, s')
            | (Err e, s') \<Rightarrow> (Err (os_error e), s')
            | (Panic, s') \<Rightarrow> (Panic, s'))
      else (Ok total_sent, s))"
  by pat_completeness auto
termination by (relation "measure (\<lambda>(p, todo, total, off, s). todo - total)") auto

declare linux_loop.simps [simp del]

definition sendfile_linux :: "path \<Rightarrow> u64 \<Rightarrow> u64 \<Rightarrow> (socket_fs, u64, io_error) io" where
  "sendfile_linux file_path offset count =
     bind_io (fs_open file_path) (\<lambda>_.
     bind_io (fs_len file_path) (\<lambda>file_size.
       linux_loop file_path (region file_size offset count) 0 offset))"

text \<open>
  The loop for macOS repeats an interrupted call without an end of its own, so its value is
  \<open>None\<close> when every call is interrupted. 4 is \<open>EINTR\<close>, 35 is \<open>EAGAIN\<close>.
\<close>

partial_function (option) macos_loop ::
  "path \<Rightarrow> u64 \<Rightarrow> u64 \<Rightarrow> nat \<Rightarrow> socket_fs \<Rightarrow> ((u64, io_error) result \<times> socket_fs) option" where
  "macos_loop p bytes_to_send total_sent current_offset s =
     (if total_sent < bytes_to_send
      then (case sys_sendfile_macos p current_offset (min (bytes_to_send - total_sent) (1024 * 1024)) s of
              (Err (e, len), s') \<Rightarrow>
                if e = 4 then macos_loop p bytes_to_send total_sent current_offset s'
                else if e = 35 \<and> 0 < len
                then macos_loop p bytes_to_send (total_sent + len) (current_offset + len) s'
                else Some (Err (os_error e), s')
            | (Ok len, s') \<Rightarrow>
                if len = 0 then Some (Ok total_sent, s')
                else macos_loop p bytes_to_send (total_sent + len) (current_offset + len) s'
            | (Panic, s') \<Rightarrow> Some (Panic, s'))
      else Some (Ok total_sent, s))"

definition sendfile_macos :: "path \<Rightarrow> u64 \<Rightarrow> u64 \<Rightarrow> socket_fs \<Rightarrow> ((u64, io_error) result \<times> socket_fs) option" where
  "sendfile_macos file_path offset count s =
     (case bind_io (fs_open file_path) (\<lambda>_. fs_len file_path) s of
        (Ok file_size, s') \<Rightarrow> macos_loop file_path (region file_size offset count) 0 offset s'
      | (Err e, s') \<Rightarrow> Some (Err e, s')
      | (Panic, s') \<Rightarrow> Some (Panic, s'))"

text \<open>The fallback reads the region and counts it; it has no access to the socket.\<close>

function fallback_loop :: "path \<Rightarrow> u64 \<Rightarrow> u64 \<Rightarrow> nat \<Rightarrow> (socket_fs, u64, io_error) io" where
  "fallback_loop p bytes_to_send total_sent pos s =
     (if total_sent < bytes_to_send
      then (case fs_read p pos (min (bytes_to_send - total_sent) (256 * 1024)) s of
              (Ok x, s') \<Rightarrow>
                if x = [] then (Ok total_sent, s')
                else fallback_loop p bytes_to_send (total_sent + length x) (pos + length x) s'
            | (Err e, s') \<Rightarrow> (Err e, s')
            | (Panic, s') \<Rightarrow> (Panic, s'))
      else (Ok total_sent, s))"
  by pat_completeness auto
termination
  by (relation "measure (\<lambda>(p, todo, total, pos, s). todo - total)") (simp, simp, metis diff_less_mono2 length_greater_0_conv less_add_same_cancel1)

declare fallback_loop.simps [simp del]

definition sendfile_fallback :: "path \<Rightarrow> u64 \<Rightarrow> u64 \<Rightarrow> (socket_fs, u64, io_error) io" where
  "sendfile_fallback file_path offset count =
     bind_io (fs_open file_path) (\<lambda>_.
     bind_io (fs_len file_path) (\<lambda>file_size.
     bind_io (if 0 < offset then fs_seek file_path else return_io ()) (\<lambda>_.
       fallback_loop file_path (region file_size offset count) 0 offset)))"

text \<open>The function of the crate: the target platform decides at compile time which of the three it is.\<close>

definition sendfile :: "platform \<Rightarrow> path \<Rightarrow> u64 \<Rightarrow> u64 \<Rightarrow> socket_fs \<Rightarrow> ((u64, io_error) result \<times> socket_fs) option" where
  "sendfile target file_path offset count s =
     (case target of
        Linux \<Rightarrow> Some (sendfile_linux file_path offset count s)
      | MacOS \<Rightarrow> sendfile_macos file_path offset count s
      | _ \<Rightarrow> Some (sendfile_fallback file_path offset count s))"

section \<open>What reaches the socket\<close>

lemma put_socket_simps [simp]:
  "sk_sent (put_socket x s) = sk_sent s @ x" "file_data (put_socket x s) p = file_data s p"
  "sk_kernel (put_socket x s) = sk_kernel s"
  by (simp_all add: put_socket_def file_data_def content_def)

lemma sent_extends:
  assumes "x = take (length x) (drop off d)" "length x \<le> length d - off" "sent + length x \<le> todo"
  shows "x @ take k (drop (off + length x) d) = take (length x + k) (drop off d)"
    and "length x + min (todo - (sent + length x)) (length d - (off + length x)) = min (todo - sent) (length d - off)"
proof -
  show "x @ take k (drop (off + length x) d) = take (length x + k) (drop off d)"
    by (metis assms(1) drop_drop take_add add.commute)
  show "length x + min (todo - (sent + length x)) (length d - (off + length x)) = min (todo - sent) (length d - off)"
    using assms(2,3) by arith
qed

text \<open>
  Whatever the kernel answers, the socket gets a prefix of the region; a normal end means all of
  the region the file has, and the reported count is its length.
\<close>

definition prefix_sent :: "path \<Rightarrow> nat \<Rightarrow> nat \<Rightarrow> nat \<Rightarrow> socket_fs \<Rightarrow> (u64, io_error) result \<Rightarrow> socket_fs \<Rightarrow> bool" where
  "prefix_sent p todo sent off s r s' \<longleftrightarrow>
     (\<exists>k. sk_sent s' = sk_sent s @ take k (drop off (file_data s p)) \<and> k \<le> min (todo - sent) (length (file_data s p) - off)
    \<and> (\<forall>m. r = Ok m \<longrightarrow> m = sent + k \<and> k = min (todo - sent) (length (file_data s p) - off))
    \<and> ((\<forall>i e n. sk_kernel s i \<noteq> Errno e n) \<longrightarrow> (\<exists>m. r = Ok m)))"

lemma prefix_sent_call:
  assumes "prefix_sent p todo (sent + length x) (off + length x) (put_socket x s) r s'"
    and "x = take (length x) (drop off (file_data s p))" "length x \<le> length (file_data s p) - off" "sent + length x \<le> todo"
  shows "prefix_sent p todo sent off s r s'"
proof -
  let ?d = "file_data s p"
  note ext = sent_extends [OF assms(2-4)]
  note eq = ext(2)
  obtain k where k: "sk_sent s' = sk_sent s @ x @ take k (drop (off + length x) ?d)"
    "k \<le> min (todo - (sent + length x)) (length ?d - (off + length x))"
    "\<forall>m. r = Ok m \<longrightarrow> m = sent + length x + k \<and> k = min (todo - (sent + length x)) (length ?d - (off + length x))"
    "(\<forall>i e n. sk_kernel s i \<noteq> Errno e n) \<longrightarrow> (\<exists>m. r = Ok m)"
    using assms(1) unfolding prefix_sent_def put_socket_simps append_assoc by blast
  have "sk_sent s' = sk_sent s @ take (length x + k) (drop off ?d)" using k(1) by (simp only: ext)
  moreover have "length x + k \<le> min (todo - sent) (length ?d - off)" using k(2) by (simp only: eq [symmetric] add_le_cancel_left)
  moreover have "\<forall>m. r = Ok m \<longrightarrow> m = sent + (length x + k) \<and> length x + k = min (todo - sent) (length ?d - off)"
    unfolding eq [symmetric] using k(3) by (metis add.assoc)
  ultimately show ?thesis using k(4) unfolding prefix_sent_def by blast
qed

lemma linux_loop_sends:
  assumes "linux_loop p todo sent off s = (r, s')" and "sent \<le> todo"
  shows "prefix_sent p todo sent off s r s'"
  using assms
proof (induction p todo sent off s arbitrary: r s' rule: linux_loop.induct)
  case (1 p todo sent off s)
  define want where "want = min (todo - sent) (1024 * 1024)"
  note unfold = linux_loop.simps [of p todo]
  show ?case
  proof (cases "sent < todo")
    case False
    then show ?thesis using 1(2,3) by (auto simp: unfold prefix_sent_def intro: exI [of _ 0])
  next
    case True
    show ?thesis
    proof (cases "sk_kernel s (sk_calls s)")
      case (Errno e n)
      then show ?thesis using 1(2) True unfolding prefix_sent_def
        by (intro exI [of _ 0]) (auto simp: unfold sys_sendfile_linux_def)
    next
      case (Moves n)
      define x where "x = take (min want (Suc n)) (drop off (file_data s p))"
      have sys: "sys_sendfile_linux p off want s = (Ok (length x), put_socket x s)"
        by (simp add: sys_sendfile_linux_def Moves x_def Let_def)
      show ?thesis
      proof (cases "x = []")
        case x: True
        have "0 < min want (Suc n)" using True by (simp add: want_def)
        then have "length (file_data s p) - off = 0" using x by (auto simp: x_def min_def split: if_splits)
        then show ?thesis using 1(2) True sys x unfolding prefix_sent_def
          by (intro exI [of _ 0]) (auto simp: unfold want_def)
      next
        case x: False
        have run: "linux_loop p todo (sent + length x) (off + length x) (put_socket x s) = (r, s')"
          using 1(2) True sys x by (simp add: unfold want_def)
        have le: "sent + length x \<le> todo" using True by (simp add: x_def want_def)
        have "prefix_sent p todo (sent + length x) (off + length x) (put_socket x s) r s'"
          by (rule 1(1) [OF True _ _ _ run le]) (use sys x in \<open>simp_all add: want_def\<close>)
        then show ?thesis by (rule prefix_sent_call) (use le in \<open>simp_all add: x_def min_def\<close>)
      qed
    qed
  qed
qed

lemma region_exact:
  assumes "offset \<le> n" and "n < 2 ^ 64"
  shows "region n offset count = (if count = 0 then n - offset else min count (n - offset))"
proof -
  have "n + 2 ^ 64 - offset = (n - offset) + 2 ^ 64" using assms(1) by simp
  moreover have "n - offset < 2 ^ 64" using assms(2) by (rule le_less_trans [OF diff_le_self])
  ultimately have "sub64 n offset = n - offset" by (simp only: sub64_def mod_add_self2 mod_less)
  then show ?thesis by (simp add: region_def)
qed

lemma opened_and_measured:
  assumes "content s p = Some d" and "healthy s"
  shows "fs_open p s = (Ok (), s\<lparr>ticks := Suc (ticks s)\<rparr>)"
    and "fs_len p s = (Ok (length d), s\<lparr>ticks := Suc (ticks s)\<rparr>)"
proof -
  have "nodes s p = Some (FileN d)" using assms(1) by (auto simp: content_def split: option.splits node.splits)
  moreover have "fs_gate op p s = (Ok (), s\<lparr>ticks := Suc (ticks s)\<rparr>)" for op
    using assms(2) by (simp add: fs_gate_def healthy_def)
  ultimately show "fs_open p s = (Ok (), s\<lparr>ticks := Suc (ticks s)\<rparr>)"
    and "fs_len p s = (Ok (length d), s\<lparr>ticks := Suc (ticks s)\<rparr>)"
    by (simp_all add: fs_open_def fs_len_def bind_io_def)
qed

lemma sendfile_linux_runs:
  assumes "content s p = Some d" and "healthy s"
  shows "\<exists>t. sendfile_linux p offset count s = linux_loop p (region (length d) offset count) 0 offset t
    \<and> sk_sent t = sk_sent s \<and> sk_kernel t = sk_kernel s \<and> file_data t p = d"
proof -
  let ?s = "s\<lparr>ticks := Suc (ticks s)\<rparr>"
  have s: "content ?s p = Some d" "healthy ?s" using assms by (simp_all add: content_def healthy_def)
  let ?t = "?s\<lparr>ticks := Suc (ticks ?s)\<rparr>"
  have "sendfile_linux p offset count s = linux_loop p (region (length d) offset count) 0 offset ?t"
    by (simp only: sendfile_linux_def bind_io_def opened_and_measured(1) [OF assms] opened_and_measured(2) [OF s]
        prod.case result.case)
  moreover have "file_data ?t p = d" using assms(1) by (simp add: file_data_def content_def)
  ultimately show ?thesis by (intro exI [of _ ?t]) simp
qed


definition demo_socket :: "(nat \<Rightarrow> kernel_answer) \<Rightarrow> socket_fs" where
  "demo_socket answers = \<lparr>nodes = (\<lambda>q. if q = path_of ''f'' then Some (FileN [1, 2, 3, 4]) else None),
     fault = (\<lambda>_ _ _. None), cap = (\<lambda>_. 0), ticks = 0, sk_sent = [9], sk_calls = 0, sk_kernel = answers\<rparr>"

lemma demo_socket_ready [simp]: "content (demo_socket k) (path_of ''f'') = Some [1, 2, 3, 4]" "healthy (demo_socket k)"
  "sk_sent (demo_socket k) = [9]" "sk_kernel (demo_socket k) = k"
  by (simp_all add: demo_socket_def content_def healthy_def)


text \<open>
  On macOS a call interrupted after it has moved some bytes is repeated from the old offset: the
  bytes are sent twice, and the count does not show it. The fallback counts bytes that never
  reach the socket.
\<close>

lemma interrupted_bytes_sent_twice:
  "map_option (\<lambda>(r, s'). (r, sk_sent s'))
     (sendfile_macos (path_of ''f'') 0 0 (demo_socket (\<lambda>i. if i = 0 then Errno 4 2 else Moves 99)))
   = Some (Ok 4, [9, 1, 2, 1, 2, 3, 4])"
  by (simp add: sendfile_macos_def fs_open_def fs_len_def fs_gate_def bind_io_def demo_socket_def region_def sub64_def
      macos_loop.simps sys_sendfile_macos_def file_data_def content_def Let_def put_socket_def)

lemma gate_sent [simp]: "sk_sent (snd (fs_gate op p s)) = sk_sent s"
  by (simp add: fs_gate_def split: option.split)

lemma bind_sent: "(\<And>a t. sk_sent (snd (g a t)) = sk_sent t) \<Longrightarrow> sk_sent (snd (bind_io f g s)) = sk_sent (snd (f s))"
  by (simp add: bind_io_def split: prod.split result.split)

lemma fs_sent [simp]: "sk_sent (snd (fs_open p s)) = sk_sent s" "sk_sent (snd (fs_len p s)) = sk_sent s"
  "sk_sent (snd (fs_read p i n s)) = sk_sent s" "sk_sent (snd (fs_seek p s)) = sk_sent s"
  by (simp_all add: fs_open_def fs_len_def fs_read_def fs_seek_def bind_sent split: option.split node.split)

lemma fallback_loop_sent: "sk_sent (snd (fallback_loop p todo n i s)) = sk_sent s"
proof (induction p todo n i s rule: fallback_loop.induct)
  case (1 p todo n i s)
  obtain r t where rd: "fs_read p i (min (todo - n) (256 * 1024)) s = (r, t)" by fastforce
  then have "sk_sent t = sk_sent s" using fs_sent(3) [of p i "min (todo - n) (256 * 1024)" s] by simp
  then show ?case using 1 rd by (subst fallback_loop.simps) (auto split: result.split)
qed

lemma fallback_sends_nothing: "sk_sent (snd (sendfile_fallback p offset count s)) = sk_sent s"
  by (simp add: sendfile_fallback_def bind_sent fallback_loop_sent return_io_def)

text \<open>Android is not Linux to the compiler, so there the function reports bytes it has not sent.\<close>

lemma android_sends_nothing:
  "sendfile Android p offset count s = Some (r, s') \<Longrightarrow> sk_sent s' = sk_sent s"
  using fallback_sends_nothing [of p offset count s] by (auto simp: sendfile_def)

section \<open>Whether the loop for macOS returns\<close>

lemma put_socket_calls [simp]: "sk_calls (put_socket x s) = Suc (sk_calls s)"
  by (simp add: put_socket_def)

lemma macos_loop_returns:
  assumes "\<forall>i \<ge> N. \<forall>n. sk_kernel s i \<noteq> Errno 4 n"
  shows "\<exists>r. macos_loop p todo sent off s = Some r"
  using assms
proof (induction "todo - sent + (N - sk_calls s)" arbitrary: sent off s rule: less_induct)
  case less
  define want where "want = min (todo - sent) (1024 * 1024)"
  show ?case
  proof (cases "sent < todo")
    case True
    show ?thesis
    proof (cases "sk_kernel s (sk_calls s)")
      case (Moves n)
      define x where "x = take (min want (Suc n)) (drop off (file_data s p))"
      have sys: "sys_sendfile_macos p off want s = (Ok (length x), put_socket x s)"
        by (simp add: sys_sendfile_macos_def Moves x_def Let_def)
      show ?thesis
      proof (cases "x = []")
        case False
        then have "todo - (sent + length x) + (N - sk_calls (put_socket x s)) < todo - sent + (N - sk_calls s)"
          using True by (cases x) auto
        then have "\<exists>r. macos_loop p todo (sent + length x) (off + length x) (put_socket x s) = Some r"
          by (rule less.hyps) (use less.prems in simp)
        then show ?thesis using True False sys by (subst macos_loop.simps) (simp add: want_def)
      qed (use True sys in \<open>subst macos_loop.simps, simp add: want_def\<close>)
    next
      case (Errno e n)
      define x where "x = take (min want n) (drop off (file_data s p))"
      have sys: "sys_sendfile_macos p off want s = (Err (e, length x), put_socket x s)"
        by (simp add: sys_sendfile_macos_def Errno x_def Let_def)
      consider "e = 4" | "e = 35" "x \<noteq> []" | "e \<noteq> 4" "\<not> (e = 35 \<and> x \<noteq> [])" by blast
      then show ?thesis
      proof cases
        case 1
        then have "sk_calls s < N" using less.prems Errno by (metis not_le)
        then have "todo - sent + (N - sk_calls (put_socket x s)) < todo - sent + (N - sk_calls s)" by simp
        then have "\<exists>r. macos_loop p todo sent off (put_socket x s) = Some r"
          by (rule less.hyps) (use less.prems in simp)
        then show ?thesis using True 1 sys by (subst macos_loop.simps) (simp add: want_def)
      next
        case 2
        then have "todo - (sent + length x) + (N - sk_calls (put_socket x s)) < todo - sent + (N - sk_calls s)"
          using True by (cases x) auto
        then have "\<exists>r. macos_loop p todo (sent + length x) (off + length x) (put_socket x s) = Some r"
          by (rule less.hyps) (use less.prems in simp)
        then show ?thesis using True 2 sys by (subst macos_loop.simps) (simp add: want_def)
      qed (use True sys in \<open>subst macos_loop.simps, auto simp: want_def\<close>)
    qed
  qed (simp add: macos_loop.simps)
qed

lemma interrupted_forever:
  assumes "macos_loop p todo sent off s = Some r" and "sent < todo"
  shows "\<not> (\<forall>i. \<exists>n. sk_kernel s i = Errno 4 n)"
proof -
  have "sent < todo \<longrightarrow> \<not> (\<forall>i. \<exists>n. sk_kernel s i = Errno 4 n)"
  proof (rule macos_loop.raw_induct [OF _ assms(1)])
    fix f p todo sent off s r
    assume IH: "\<And>p todo sent off s r. f p todo sent off s = Some r \<Longrightarrow> sent < todo \<longrightarrow> \<not> (\<forall>i. \<exists>n. sk_kernel s i = Errno 4 n)"
      and run: "(if sent < todo
        then (case sys_sendfile_macos p off (min (todo - sent) (1024 * 1024)) s of
                (Err (e, len), s') \<Rightarrow>
                  if e = 4 then f p todo sent off s'
                  else if e = 35 \<and> 0 < len then f p todo (sent + len) (off + len) s'
                  else Some (Err (os_error e), s')
              | (Ok len, s') \<Rightarrow> if len = 0 then Some (Ok sent, s') else f p todo (sent + len) (off + len) s'
              | (Panic, s') \<Rightarrow> Some (Panic, s'))
        else Some (Ok sent, s)) = Some r"
    show "sent < todo \<longrightarrow> \<not> (\<forall>i. \<exists>n. sk_kernel s i = Errno 4 n)"
    proof (rule impI, rule notI)
      assume lt: "sent < todo" and all: "\<forall>i. \<exists>n. sk_kernel s i = Errno 4 n"
      then obtain n where n: "sk_kernel s (sk_calls s) = Errno 4 n" by blast
      let ?s = "put_socket (take (min (min (todo - sent) (1024 * 1024)) n) (drop off (file_data s p))) s"
      have "f p todo sent off ?s = Some r" using run lt n by (simp add: sys_sendfile_macos_def Let_def)
      from IH [OF this] show False using lt all by simp
    qed
  qed
  then show ?thesis using assms(2) by blast
qed

text \<open>
  C24. Sending on macOS returns when the interruptions end: if from some call on no system call is interrupted,
  the function returns; but when every call is interrupted and there is something to send it never does.
\<close>

theorem macos_returns:
  assumes "content s p = Some d" and "healthy s" and "offset < length d" and "length d < 2 ^ 64"
  shows "((\<exists>N. \<forall>i \<ge> N. \<forall>n. sk_kernel s i \<noteq> Errno 4 n) \<longrightarrow> (\<exists>r s'. sendfile_macos p offset count s = Some (r, s')))
    \<and> ((\<forall>i. \<exists>n. sk_kernel s i = Errno 4 n) \<longrightarrow> sendfile_macos p offset count s = None)"
proof -
  let ?s = "s\<lparr>ticks := Suc (ticks s)\<rparr>" and ?todo = "region (length d) offset count"
  have s: "content ?s p = Some d" "healthy ?s" using assms(1,2) by (simp_all add: content_def healthy_def)
  let ?t = "?s\<lparr>ticks := Suc (ticks ?s)\<rparr>"
  have run: "sendfile_macos p offset count s = macos_loop p ?todo 0 offset ?t"
    by (simp only: sendfile_macos_def bind_io_def opened_and_measured(1) [OF assms(1,2)] opened_and_measured(2) [OF s]
        prod.case result.case)
  have "0 < ?todo" using region_exact [of offset "length d" count] assms(3,4) by simp
  then have never: "macos_loop p ?todo 0 offset ?t = None" if "\<forall>i. \<exists>n. sk_kernel s i = Errno 4 n"
    using interrupted_forever [of p ?todo 0 offset ?t] that by (cases "macos_loop p ?todo 0 offset ?t") auto
  have "\<exists>r. macos_loop p ?todo 0 offset ?t = Some r" if "\<forall>i \<ge> N. \<forall>n. sk_kernel s i \<noteq> Errno 4 n" for N
    by (rule macos_loop_returns [of N]) (use that in simp)
  then show ?thesis using never unfolding run by (metis surj_pair)
qed

theorem macos_returns_witness:
  "(\<exists>r s'. sendfile_macos (path_of ''f'') 0 0 (demo_socket (\<lambda>i. if i < 9 then Errno 4 0 else Moves 0)) = Some (r, s'))
    \<and> sendfile_macos (path_of ''f'') 0 0 (demo_socket (\<lambda>_. Errno 4 0)) = None"
proof -
  have "\<exists>N. \<forall>i \<ge> N. \<forall>n. sk_kernel (demo_socket (\<lambda>i. if i < 9 then Errno 4 0 else Moves 0)) i \<noteq> Errno 4 n"
    by (rule exI [of _ 9]) simp
  then show ?thesis
    using macos_returns [of "demo_socket (\<lambda>i. if i < 9 then Errno 4 0 else Moves 0)" "path_of ''f''" "[1, 2, 3, 4]" 0 0]
      macos_returns [of "demo_socket (\<lambda>_. Errno 4 0)" "path_of ''f''" "[1, 2, 3, 4]" 0 0] by simp
qed

end
