(* ===== verification/Identity.thy ===== *)
theory Identity
  imports Resume Writer
begin

text \<open>
  The two persistent identities: the Noise key pair of \<open>crates/justdrop-security/src/keys.rs\<close> and the
  device identity of \<open>crates/justdrop-core/src/identity.rs\<close>. Both load a JSON file or make it.
\<close>

section \<open>Noise key pair\<close>

text \<open>snow, BLAKE2s and serde_json.\<close>

record key_lib =
  kl_params :: "(unit, string) result"
  kl_generate_keypair :: "(bytes \<times> bytes, string) result"
  kl_blake2s :: "bytes \<Rightarrow> bytes"
  kl_to_json :: "bytes \<times> bytes \<Rightarrow> (bytes, string) result"
  kl_from_json :: "bytes \<Rightarrow> (bytes \<times> bytes, string) result"

record identity_keys =
  ik_private :: bytes
  ik_public :: bytes
  ik_fingerprint :: bytes
  ik_storage_path :: path

definition compute_fingerprint :: "key_lib \<Rightarrow> bytes \<Rightarrow> bytes" where
  "compute_fingerprint lb public_key = kl_blake2s lb public_key"

fun chunks2 :: "string list \<Rightarrow> string list" where
  "chunks2 (a # b # r) = (a @ b) # chunks2 r"
| "chunks2 [a] = [a]"
| "chunks2 [] = []"

fun join_with :: "string \<Rightarrow> string list \<Rightarrow> string" where
  "join_with sep [] = []"
| "join_with sep [x] = x"
| "join_with sep (x # y # r) = x @ sep @ join_with sep (y # r)"

definition hex_fingerprint :: "bytes \<Rightarrow> string" where
  "hex_fingerprint fp = join_with '':'' (chunks2 (map hex_byte fp))"

definition key_storage :: "string \<Rightarrow> ('s, 'a, io_error) io \<Rightarrow> ('s, 'a, security_error) io" where
  "key_storage what = map_err_io (\<lambda>e. KeyStorage (what @ io_display e))"

definition keys_generate :: "key_lib \<Rightarrow> path \<Rightarrow> (identity_keys, security_error) result" where
  "keys_generate lb storage_path =
     bind_res (map_err (\<lambda>e. InvalidKey (''bad noise params: '' @ e)) (kl_params lb)) (\<lambda>_.
     bind_res (map_err (\<lambda>e. InvalidKey (''keypair generation failed: '' @ e)) (kl_generate_keypair lb))
       (\<lambda>(priv, pub). Ok \<lparr>ik_private = priv, ik_public = pub, ik_fingerprint = compute_fingerprint lb pub,
            ik_storage_path = storage_path\<rparr>))"

definition keys_load_from_file :: "key_lib \<Rightarrow> path \<Rightarrow> ('a fs_scheme, identity_keys, security_error) io" where
  "keys_load_from_file lb p =
     bind_io (key_storage ''failed to read key file: '' (fs_read_to_string p)) (\<lambda>c.
     bind_io (lift_io (map_err (\<lambda>e. KeyStorage (''failed to parse key file: '' @ e)) (kl_from_json lb c)))
       (\<lambda>(priv, pub).
     if length priv \<noteq> 32 \<or> length pub \<noteq> 32
     then fail_io (InvalidKey ''key file contains invalid key lengths'')
     else return_io \<lparr>ik_private = priv, ik_public = pub, ik_fingerprint = compute_fingerprint lb pub,
            ik_storage_path = p\<rparr>))"

definition keys_save :: "key_lib \<Rightarrow> identity_keys \<Rightarrow> ('a fs_scheme, unit, security_error) io" where
  "keys_save lb k =
     bind_io (case parent (ik_storage_path k) of
         Some d \<Rightarrow> key_storage ''failed to create key directory: '' (fs_create_dir_all d)
       | None \<Rightarrow> return_io ()) (\<lambda>_.
     bind_io (lift_io (map_err (\<lambda>e. KeyStorage (''failed to serialize keys: '' @ e))
         (kl_to_json lb (ik_private k, ik_public k)))) (\<lambda>c.
     bind_io (key_storage ''failed to write key file: '' (fs_write_file (ik_storage_path k) c)) (\<lambda>_.
     key_storage ''failed to set key file permissions: '' (fs_set_permissions (ik_storage_path k) 384))))"

definition keys_load_or_generate :: "key_lib \<Rightarrow> path \<Rightarrow> ('a fs_scheme, identity_keys, security_error) io" where
  "keys_load_or_generate lb data_dir =
     (let storage_path = join data_dir (path_of ''identity_keys.json'')
      in bind_io (present storage_path) (\<lambda>there.
         if there then keys_load_from_file lb storage_path
         else bind_io (lift_io (keys_generate lb storage_path)) (\<lambda>keys.
              bind_io (keys_save lb keys) (\<lambda>_. return_io keys))))"

definition public_key :: "identity_keys \<Rightarrow> bytes" where
  "public_key k = ik_public k"

definition public_key_array :: "identity_keys \<Rightarrow> (bytes, 'e) result" where
  "public_key_array k = (if length (ik_public k) = 32 then Ok (ik_public k) else Panic)"

definition private_key :: "identity_keys \<Rightarrow> bytes" where
  "private_key k = ik_private k"

definition fingerprint_hex :: "identity_keys \<Rightarrow> string" where
  "fingerprint_hex k = hex_fingerprint (ik_fingerprint k)"

text \<open>\<open>Drop\<close>: the private key is overwritten with zeros.\<close>

definition drop_keys :: "identity_keys \<Rightarrow> identity_keys" where
  "drop_keys k = k\<lparr>ik_private := []\<rparr>"

section \<open>Device identity\<close>

text \<open>ring, BLAKE3, uuid and serde_json; \<open>'k\<close> is an Ed25519 key pair.\<close>

record 'k device_lib =
  dl_generate_pkcs8 :: "bytes option"
  dl_new_uuid :: uuid
  dl_from_pkcs8 :: "bytes \<Rightarrow> 'k option"
  dl_public_key :: "'k \<Rightarrow> bytes"
  dl_sign :: "'k \<Rightarrow> bytes \<Rightarrow> bytes"
  dl_blake3 :: "bytes \<Rightarrow> bytes"
  dl_to_json :: "uuid \<times> string \<times> bytes \<Rightarrow> (bytes, string) result"
  dl_from_json :: "bytes \<Rightarrow> (uuid \<times> string \<times> bytes, string) result"

datatype identity_error = IdKeyGeneration | IdInvalidKey | IdStorage string

fun identity_display :: "identity_error \<Rightarrow> string" where
  "identity_display IdKeyGeneration = ''key generation failed''"
| "identity_display IdInvalidKey = ''invalid key material''"
| "identity_display (IdStorage m) = ''identity storage error: '' @ m"

record 'k device_identity =
  di_uuid :: uuid
  di_name :: string
  di_keypair :: 'k
  di_pkcs8_bytes :: bytes
  di_fingerprint :: bytes
  di_storage_path :: path

definition id_storage :: "string \<Rightarrow> ('s, 'a, io_error) io \<Rightarrow> ('s, 'a, identity_error) io" where
  "id_storage what = map_err_io (\<lambda>e. IdStorage (what @ io_display e))"

definition device_generate :: "'k device_lib \<Rightarrow> path \<Rightarrow> string \<Rightarrow> ('k device_identity, identity_error) result" where
  "device_generate lb storage_path device_name =
     bind_res (ok_or (dl_generate_pkcs8 lb) IdKeyGeneration) (\<lambda>pkcs8_bytes.
     bind_res (ok_or (dl_from_pkcs8 lb pkcs8_bytes) IdKeyGeneration) (\<lambda>keypair.
     Ok \<lparr>di_uuid = dl_new_uuid lb, di_name = device_name, di_keypair = keypair, di_pkcs8_bytes = pkcs8_bytes,
        di_fingerprint = dl_blake3 lb (dl_public_key lb keypair), di_storage_path = storage_path\<rparr>))"

definition device_load :: "'k device_lib \<Rightarrow> path \<Rightarrow> ('a fs_scheme, 'k device_identity, identity_error) io" where
  "device_load lb p =
     bind_io (id_storage ''read: '' (fs_read_to_string p)) (\<lambda>c.
     bind_io (lift_io (map_err (\<lambda>e. IdStorage (''parse: '' @ e)) (dl_from_json lb c))) (\<lambda>(u, n, der).
     bind_io (lift_io (ok_or (dl_from_pkcs8 lb der) IdInvalidKey)) (\<lambda>keypair.
     return_io \<lparr>di_uuid = u, di_name = n, di_keypair = keypair, di_pkcs8_bytes = der,
        di_fingerprint = dl_blake3 lb (dl_public_key lb keypair), di_storage_path = p\<rparr>)))"

definition device_save :: "'k device_lib \<Rightarrow> 'k device_identity \<Rightarrow> ('a fs_scheme, unit, identity_error) io" where
  "device_save lb d =
     bind_io (case parent (di_storage_path d) of
         Some dir \<Rightarrow> id_storage ''mkdir: '' (fs_create_dir_all dir)
       | None \<Rightarrow> return_io ()) (\<lambda>_.
     bind_io (lift_io (map_err (\<lambda>e. IdStorage (''serialize: '' @ e))
         (dl_to_json lb (di_uuid d, di_name d, di_pkcs8_bytes d)))) (\<lambda>json.
     bind_io (id_storage ''write: '' (fs_write_file (di_storage_path d) json)) (\<lambda>_.
     id_storage ''chmod: '' (fs_set_permissions (di_storage_path d) 384))))"

definition device_load_or_generate ::
  "'k device_lib \<Rightarrow> path \<Rightarrow> string \<Rightarrow> ('a fs_scheme, 'k device_identity, identity_error) io" where
  "device_load_or_generate lb data_dir device_name =
     (let storage_path = join data_dir (path_of ''device_identity.json'')
      in bind_io (present storage_path) (\<lambda>there.
         if there then device_load lb storage_path
         else bind_io (lift_io (device_generate lb storage_path device_name)) (\<lambda>d.
              bind_io (device_save lb d) (\<lambda>_. return_io d))))"

definition device_public_key :: "'k device_lib \<Rightarrow> 'k device_identity \<Rightarrow> bytes" where
  "device_public_key lb d = dl_public_key lb (di_keypair d)"

definition device_fingerprint_hex :: "'k device_identity \<Rightarrow> string" where
  "device_fingerprint_hex d = join_with '':'' (map hex_byte (take 8 (di_fingerprint d)))"

definition fingerprint_full_hex :: "'k device_identity \<Rightarrow> string" where
  "fingerprint_full_hex d = concat (map hex_byte (di_fingerprint d))"

definition device_sign :: "'k device_lib \<Rightarrow> 'k device_identity \<Rightarrow> bytes \<Rightarrow> bytes" where
  "device_sign lb d data = dl_sign lb (di_keypair d) data"

section \<open>Restarts\<close>

text \<open>
  An identity that is made at most once: \<open>start g\<close> is one start of the program with \<open>g\<close> as what its
  random source would give.
\<close>

locale persistent_identity =
  fixes ready :: "'s \<Rightarrow> bool" and absent :: "'s \<Rightarrow> bool" and stored :: "'a \<Rightarrow> 's \<Rightarrow> bool"
    and fresh :: "'g \<Rightarrow> 'a \<Rightarrow> bool" and start :: "'g \<Rightarrow> 's \<Rightarrow> ('a, 'e) result \<times> 's"
  assumes first: "ready s \<Longrightarrow> absent s \<Longrightarrow> fresh g a \<Longrightarrow> \<exists>s'. start g s = (Ok a, s') \<and> ready s' \<and> stored a s'"
    and again: "ready s \<Longrightarrow> stored a s \<Longrightarrow> \<exists>s'. start g s = (Ok a, s') \<and> ready s' \<and> stored a s'"
begin

fun starts :: "'g list \<Rightarrow> 's \<Rightarrow> ('a, 'e) result list" where
  "starts [] s = []"
| "starts (g # gs) s = (case start g s of (r, s') \<Rightarrow> r # starts gs s')"

lemma starts_stored: "ready s \<Longrightarrow> stored a s \<Longrightarrow> starts gs s = map (\<lambda>_. Ok a) gs"
proof (induction gs arbitrary: s)
  case (Cons g gs)
  from again [OF Cons.prems, of g] obtain s' where "start g s = (Ok a, s')" "ready s'" "stored a s'" by blast
  then show ?case using Cons.IH [of s'] by simp
qed simp

lemma starts_fresh:
  assumes "ready s" "absent s" "fresh g a"
  shows "starts (g # gs) s = map (\<lambda>_. Ok a) (g # gs)"
  using first [OF assms] starts_stored by auto

end

text \<open>The directory of the identity exists and no directory has the name of its file.\<close>

definition id_ready :: "path \<Rightarrow> string \<Rightarrow> 'a fs_scheme \<Rightarrow> bool" where
  "id_ready dir name s \<longleftrightarrow> healthy s \<and> dirs_ok s dir \<and> nodes s (join dir (path_of name)) \<noteq> Some DirN"

text \<open>The steps of a save and of a load on such a directory.\<close>

lemma id_save_run:
  assumes "id_ready dir name s" "plain_name name" and p: "p = join dir (path_of name)"
  shows "parent p = Some dir" "fs_create_dir_all dir s = (Ok (), fs_step 1 (nodes s) s)"
    "fs_write_file p c s = (Ok (), fs_step 1 ((nodes s)(p \<mapsto> FileN c)) s)"
    "id_ready dir name (fs_step k ((nodes s)(p \<mapsto> FileN c)) s)" "id_ready dir name (fs_step k (nodes s) s)"
proof -
  have s: "healthy s" "dirs_ok s dir" "nodes s p \<noteq> Some DirN" using assms(1) by (simp_all add: id_ready_def p)
  show d: "parent p = Some dir" using join_plain [OF assms(2)] by (simp add: p parent_def)
  show "fs_create_dir_all dir s = (Ok (), fs_step 1 (nodes s) s)"
    using create_dir_all_ok [OF s(1,2)] by (simp add: fs_step_def)
  show "fs_write_file p c s = (Ok (), fs_step 1 ((nodes s)(p \<mapsto> FileN c)) s)"
    using s d dirs_ok_is_dir [OF s(2)]
    by (auto simp: fs_write_file_def bind_io_def fs_simps set_node_def fs_step_def parent_ok_def is_dir_def
        split: option.splits node.splits)
  show "id_ready dir name (fs_step k ((nodes s)(p \<mapsto> FileN c)) s)"
    using s dirs_ok_upd [OF s(2) d] by (simp add: id_ready_def p)
  show "id_ready dir name (fs_step k (nodes s) s)" using s by (simp add: id_ready_def p dirs_ok_def)
qed

lemma set_permissions_run:
  "healthy s \<Longrightarrow> nodes s p \<noteq> None \<Longrightarrow> fs_set_permissions p m s = (Ok (), fs_step 1 (nodes s) s)"
  by (simp add: fs_set_permissions_def bind_io_def fs_simps fs_step_def)

lemma read_to_string_run:
  "healthy s \<Longrightarrow> nodes s p = Some (FileN c) \<Longrightarrow> utf8_valid c \<Longrightarrow> fs_read_to_string p s = (Ok c, fs_step 1 (nodes s) s)"
  by (simp add: fs_read_to_string_def fs_read_file_def bind_io_def fs_simps fs_step_def content_def)

lemma fs_step_step [simp]: "fs_step j N' (fs_step k N s) = fs_step (k + j) N' s"
  by (simp add: fs_step_def)

lemma present_run: "healthy s \<Longrightarrow> present p s = (Ok (nodes s p \<noteq> None), fs_step 1 (nodes s) s)"
  by (simp add: present_healthy fs_step_def)

definition keys_fresh :: "key_lib \<Rightarrow> path \<Rightarrow> (bytes \<times> bytes, string) result \<Rightarrow> identity_keys \<Rightarrow> bool" where
  "keys_fresh lb dir g k \<longleftrightarrow> g = Ok (ik_private k, ik_public k) \<and> kl_params lb = Ok ()
     \<and> length (ik_private k) = 32 \<and> length (ik_public k) = 32 \<and> ik_fingerprint k = kl_blake2s lb (ik_public k)
     \<and> ik_storage_path k = join dir (path_of ''identity_keys.json'')
     \<and> (\<exists>c. kl_to_json lb (ik_private k, ik_public k) = Ok c \<and> utf8_valid c
            \<and> kl_from_json lb c = Ok (ik_private k, ik_public k))"

definition keys_stored :: "key_lib \<Rightarrow> path \<Rightarrow> identity_keys \<Rightarrow> 'a fs_scheme \<Rightarrow> bool" where
  "keys_stored lb dir k s \<longleftrightarrow> length (ik_private k) = 32 \<and> length (ik_public k) = 32
     \<and> ik_fingerprint k = kl_blake2s lb (ik_public k)
     \<and> ik_storage_path k = join dir (path_of ''identity_keys.json'')
     \<and> (\<exists>c. nodes s (ik_storage_path k) = Some (FileN c) \<and> utf8_valid c
            \<and> kl_from_json lb c = Ok (ik_private k, ik_public k))"

interpretation noise_identity: persistent_identity
  "id_ready dir ''identity_keys.json'' :: 'a fs_scheme \<Rightarrow> bool"
  "\<lambda>s. nodes s (join dir (path_of ''identity_keys.json'')) = None" "keys_stored lb dir" "keys_fresh lb dir"
  "\<lambda>g. keys_load_or_generate (lb\<lparr>kl_generate_keypair := g\<rparr>) dir"
proof
  let ?n = "''identity_keys.json''"
  let ?p = "join dir (path_of ?n)"
  have n: "plain_name ?n" by (simp add: plain_name_def)
  fix s :: "'a fs_scheme" and g k
  assume r: "id_ready dir ?n s"
  then have h: "healthy s" by (simp add: id_ready_def)
  note run = id_save_run [OF _ n refl]
  show "\<exists>s'. keys_load_or_generate (lb\<lparr>kl_generate_keypair := g\<rparr>) dir s = (Ok k, s')
      \<and> id_ready dir ?n s' \<and> keys_stored lb dir k s'"
    if a: "nodes s ?p = None" and f: "keys_fresh lb dir g k"
  proof -
    obtain c where c: "kl_to_json lb (ik_private k, ik_public k) = Ok c" "utf8_valid c"
      "kl_from_json lb c = Ok (ik_private k, ik_public k)" using f by (auto simp: keys_fresh_def)
    let ?s = "fs_step 4 ((nodes s)(?p \<mapsto> FileN c)) s"
    have "keys_save (lb\<lparr>kl_generate_keypair := g\<rparr>) k (fs_step 1 (nodes s) s) = (Ok (), ?s)"
      using run(1-3) [OF run(5) [OF r]] run(1-3) [OF run(5) [OF run(5) [OF r]]] c(1) f h
      by (simp add: keys_save_def bind_io_def key_storage_def map_err_io_def lift_io_def set_permissions_run keys_fresh_def eval_nat_numeral)
    moreover have "keys_generate (lb\<lparr>kl_generate_keypair := g\<rparr>) ?p = Ok k"
      using f by (cases k) (simp add: keys_generate_def keys_fresh_def compute_fingerprint_def)
    ultimately have "keys_load_or_generate (lb\<lparr>kl_generate_keypair := g\<rparr>) dir s = (Ok k, ?s)"
      using a h by (simp add: keys_load_or_generate_def Let_def bind_io_def present_run lift_io_def return_io_def)
    moreover have "keys_stored lb dir k ?s" using c f by (simp add: keys_stored_def keys_fresh_def)
    ultimately show ?thesis using run(4) [OF r] by blast
  qed
  show "\<exists>s'. keys_load_or_generate (lb\<lparr>kl_generate_keypair := g\<rparr>) dir s = (Ok k, s')
      \<and> id_ready dir ?n s' \<and> keys_stored lb dir k s'" if k: "keys_stored lb dir k s"
  proof -
    obtain c where c: "nodes s ?p = Some (FileN c)" "utf8_valid c" "kl_from_json lb c = Ok (ik_private k, ik_public k)"
      using k by (auto simp: keys_stored_def)
    have "keys_load_or_generate (lb\<lparr>kl_generate_keypair := g\<rparr>) dir s = (Ok k, fs_step 2 (nodes s) s)"
      using c k h by (simp add: keys_load_or_generate_def Let_def bind_io_def present_run keys_load_from_file_def
          key_storage_def map_err_io_def read_to_string_run lift_io_def return_io_def keys_stored_def compute_fingerprint_def numeral_2_eq_2)
    moreover have "keys_stored lb dir k (fs_step 2 (nodes s) s)" using k unfolding keys_stored_def fs_step_fields(1) by blast
    ultimately show ?thesis using run(5) [OF r] by blast
  qed
qed

text \<open>The results of successive starts.\<close>

fun noise_starts :: "key_lib \<Rightarrow> path \<Rightarrow> (bytes \<times> bytes, string) result list \<Rightarrow> 'a fs_scheme
   \<Rightarrow> (identity_keys, security_error) result list" where
  "noise_starts lb dir [] s = []"
| "noise_starts lb dir (g # gs) s =
     (case keys_load_or_generate (lb\<lparr>kl_generate_keypair := g\<rparr>) dir s of (r, s') \<Rightarrow> r # noise_starts lb dir gs s')"

lemma noise_starts_eq: "noise_starts lb dir gs s = noise_identity.starts lb dir gs s"
  by (induction gs arbitrary: s) (auto split: prod.split)

definition device_fresh ::
  "'k device_lib \<Rightarrow> path \<Rightarrow> string \<Rightarrow> uuid \<times> bytes option \<Rightarrow> 'k device_identity \<Rightarrow> bool" where
  "device_fresh lb dir name g d \<longleftrightarrow> g = (di_uuid d, Some (di_pkcs8_bytes d)) \<and> di_name d = name
     \<and> dl_from_pkcs8 lb (di_pkcs8_bytes d) = Some (di_keypair d)
     \<and> di_fingerprint d = dl_blake3 lb (dl_public_key lb (di_keypair d))
     \<and> di_storage_path d = join dir (path_of ''device_identity.json'')
     \<and> (\<exists>c. dl_to_json lb (di_uuid d, di_name d, di_pkcs8_bytes d) = Ok c \<and> utf8_valid c
            \<and> dl_from_json lb c = Ok (di_uuid d, di_name d, di_pkcs8_bytes d))"

definition device_stored :: "'k device_lib \<Rightarrow> path \<Rightarrow> 'k device_identity \<Rightarrow> 'a fs_scheme \<Rightarrow> bool" where
  "device_stored lb dir d s \<longleftrightarrow> dl_from_pkcs8 lb (di_pkcs8_bytes d) = Some (di_keypair d)
     \<and> di_fingerprint d = dl_blake3 lb (dl_public_key lb (di_keypair d))
     \<and> di_storage_path d = join dir (path_of ''device_identity.json'')
     \<and> (\<exists>c. nodes s (di_storage_path d) = Some (FileN c) \<and> utf8_valid c
            \<and> dl_from_json lb c = Ok (di_uuid d, di_name d, di_pkcs8_bytes d))"

definition with_random :: "'k device_lib \<Rightarrow> uuid \<times> bytes option \<Rightarrow> 'k device_lib" where
  "with_random lb g = lb\<lparr>dl_new_uuid := fst g, dl_generate_pkcs8 := snd g\<rparr>"

interpretation device: persistent_identity
  "id_ready dir ''device_identity.json'' :: 'a fs_scheme \<Rightarrow> bool"
  "\<lambda>s. nodes s (join dir (path_of ''device_identity.json'')) = None" "device_stored lb dir" "device_fresh lb dir name"
  "\<lambda>g. device_load_or_generate (with_random lb g) dir name"
proof
  let ?n = "''device_identity.json''"
  let ?p = "join dir (path_of ?n)"
  have n: "plain_name ?n" by (simp add: plain_name_def)
  fix s :: "'a fs_scheme" and g d
  assume r: "id_ready dir ?n s"
  then have h: "healthy s" by (simp add: id_ready_def)
  note run = id_save_run [OF _ n refl]
  let ?lb = "with_random lb g"
  show "\<exists>s'. device_load_or_generate ?lb dir name s = (Ok d, s') \<and> id_ready dir ?n s' \<and> device_stored lb dir d s'"
    if a: "nodes s ?p = None" and f: "device_fresh lb dir name g d"
  proof -
    obtain c where c: "dl_to_json lb (di_uuid d, di_name d, di_pkcs8_bytes d) = Ok c" "utf8_valid c"
      "dl_from_json lb c = Ok (di_uuid d, di_name d, di_pkcs8_bytes d)" using f by (auto simp: device_fresh_def)
    let ?s = "fs_step 4 ((nodes s)(?p \<mapsto> FileN c)) s"
    have "device_save ?lb d (fs_step 1 (nodes s) s) = (Ok (), ?s)"
      using run(1-3) [OF run(5) [OF r]] run(1-3) [OF run(5) [OF run(5) [OF r]]] c(1) f h
      by (simp add: device_save_def bind_io_def id_storage_def map_err_io_def lift_io_def set_permissions_run
          device_fresh_def with_random_def eval_nat_numeral)
    moreover have "device_generate ?lb ?p name = Ok d"
      using f by (cases d) (simp add: device_generate_def device_fresh_def with_random_def)
    ultimately have "device_load_or_generate ?lb dir name s = (Ok d, ?s)"
      using a h by (simp add: device_load_or_generate_def Let_def bind_io_def present_run lift_io_def return_io_def)
    moreover have "device_stored lb dir d ?s" using c f by (simp add: device_stored_def device_fresh_def)
    ultimately show ?thesis using run(4) [OF r] by blast
  qed
  show "\<exists>s'. device_load_or_generate ?lb dir name s = (Ok d, s') \<and> id_ready dir ?n s' \<and> device_stored lb dir d s'"
    if d: "device_stored lb dir d s"
  proof -
    obtain c where c: "nodes s ?p = Some (FileN c)" "utf8_valid c"
      "dl_from_json lb c = Ok (di_uuid d, di_name d, di_pkcs8_bytes d)" using d by (auto simp: device_stored_def)
    have "device_load ?lb ?p (fs_step 1 (nodes s) s) = (Ok d, fs_step 2 (nodes s) s)"
      using c d h by (cases d) (simp add: bind_io_def device_load_def id_storage_def map_err_io_def
          read_to_string_run lift_io_def return_io_def device_stored_def with_random_def numeral_2_eq_2)
    then have "device_load_or_generate ?lb dir name s = (Ok d, fs_step 2 (nodes s) s)"
      using c h by (simp add: device_load_or_generate_def Let_def bind_io_def present_run)
    moreover have "device_stored lb dir d (fs_step 2 (nodes s) s)" using d unfolding device_stored_def fs_step_fields(1) by blast
    ultimately show ?thesis using run(5) [OF r] by blast
  qed
qed

fun device_starts :: "'k device_lib \<Rightarrow> path \<Rightarrow> string \<Rightarrow> (uuid \<times> bytes option) list \<Rightarrow> 'a fs_scheme
   \<Rightarrow> ('k device_identity, identity_error) result list" where
  "device_starts lb dir name [] s = []"
| "device_starts lb dir name (g # gs) s =
     (case device_load_or_generate (with_random lb g) dir name s of (r, s') \<Rightarrow> r # device_starts lb dir name gs s')"

lemma device_starts_eq: "device_starts lb dir name gs s = device.starts lb dir name gs s"
  by (induction gs arbitrary: s) (auto split: prod.split)

text \<open>
  C26. An identity is made once: on a healthy disk without one, the first start stores what it
  generates, and this and every later start return it, key pair, fingerprint and all, whatever the
  random source gives then. This holds for the Noise key pair and for the device identity.
\<close>

theorem identities_survive_restarts:
  assumes "id_ready dir ''identity_keys.json'' s" and "nodes s (join dir (path_of ''identity_keys.json'')) = None"
    and "id_ready dir ''device_identity.json'' s" and "nodes s (join dir (path_of ''device_identity.json'')) = None"
    and "keys_fresh lb dir g k" and "device_fresh dlb dir name h d"
  shows "noise_starts lb dir (g # gs) s = map (\<lambda>_. Ok k) (g # gs)
    \<and> device_starts dlb dir name (h # hs) s = map (\<lambda>_. Ok d) (h # hs)"
  unfolding noise_starts_eq device_starts_eq
  using noise_identity.starts_fresh [OF assms(1,2,5)] device.starts_fresh [OF assms(3,4,6)] by blast

definition toy_keys :: key_lib where
  "toy_keys = \<lparr>kl_params = Ok (), kl_generate_keypair = Err [], kl_blake2s = rev,
     kl_to_json = (\<lambda>(a, b). Ok (a @ b)), kl_from_json = (\<lambda>c. Ok (take 32 c, drop 32 c))\<rparr>"

definition toy_device :: "bytes device_lib" where
  "toy_device = \<lparr>dl_generate_pkcs8 = None, dl_new_uuid = [], dl_from_pkcs8 = Some, dl_public_key = take 1,
     dl_sign = (@), dl_blake3 = rev, dl_to_json = (\<lambda>(u, n, b). Ok (map (\<lambda>x. word_of_nat (of_char x)) u @ b)),
     dl_from_json = (\<lambda>c. Ok (map (\<lambda>x. char_of (unat x)) (take 1 c), ''me'', drop 1 c))\<rparr>"

theorem identities_survive_restarts_witness:
  "\<exists>k d. noise_starts toy_keys (path_of ''/s'') [Ok (replicate 32 1, replicate 32 2), Ok ([], [])]
        \<lparr>nodes = [path_of ''/s'' \<mapsto> DirN], fault = \<lambda>_ _ _. None, cap = \<lambda>_. 1, ticks = 0\<rparr> = [Ok k, Ok k]
     \<and> device_starts toy_device (path_of ''/s'') ''me'' [(''a'', Some [1, 2]), (''b'', None)]
        \<lparr>nodes = [path_of ''/s'' \<mapsto> DirN], fault = \<lambda>_ _ _. None, cap = \<lambda>_. 1, ticks = 0\<rparr> = [Ok d, Ok d]
     \<and> ik_private k = replicate 32 1 \<and> di_uuid d = ''a''"
proof -
  let ?s = "\<lparr>nodes = [path_of ''/s'' \<mapsto> DirN], fault = \<lambda>_ _ _. None, cap = \<lambda>_. 1, ticks = 0\<rparr> :: fs"
  let ?d = "path_of ''/s''"
  let ?k = "\<lparr>ik_private = replicate 32 1, ik_public = replicate 32 2, ik_fingerprint = replicate 32 2,
    ik_storage_path = join ?d (path_of ''identity_keys.json'')\<rparr>"
  let ?v = "\<lparr>di_uuid = ''a'', di_name = ''me'', di_keypair = [1, 2], di_pkcs8_bytes = [1, 2],
    di_fingerprint = [1], di_storage_path = join ?d (path_of ''device_identity.json'')\<rparr>"
  have r: "id_ready ?d ''identity_keys.json'' ?s" "nodes ?s (join ?d (path_of ''identity_keys.json'')) = None"
    "id_ready ?d ''device_identity.json'' ?s" "nodes ?s (join ?d (path_of ''device_identity.json'')) = None"
    by (auto simp: id_ready_def healthy_def dirs_ok_def path_eval join_def le_Suc_eq)
  have u: "utf8_valid (replicate m 1 @ replicate n 2)" for m n
  proof -
    have "utf8_valid (replicate n 2)" by (induction n) (simp_all add: utf8_valid.simps)
    then show ?thesis by (induction m) (simp_all add: utf8_valid.simps)
  qed
  have k: "keys_fresh toy_keys ?d (Ok (replicate 32 1, replicate 32 2)) ?k"
    by (simp add: keys_fresh_def toy_keys_def u)
  have "(char_of (97 :: nat) :: char) = CHR ''a''" by code_simp
  then have v: "device_fresh toy_device ?d ''me'' (''a'', Some [1, 2]) ?v"
    by (simp add: device_fresh_def toy_device_def utf8_valid.simps)
  show ?thesis
    using identities_survive_restarts [OF r k v, of "[Ok ([], [])]" "[(''b'', None)]"]
    by (intro exI [of _ ?k] exI [of _ ?v]) simp
qed

end
