(* ===== verification/Database.thy ===== *)
theory Database
  imports Trust Store Core_Types "HOL-Library.AList" "HOL-Library.List_Lexorder" "HOL-Library.Char_ord"
begin

text \<open>
  \<open>crates/justdrop-core/src/db.rs\<close> and \<open>crates/justdrop-core/src/migrations/v001.sql\<close>: the tables of the
  SQLite database, and the statements on them. The engine itself is a library: a statement runs at
  once on the tables, under the constraints of the schema, unless the fault oracle makes it fail.
\<close>

section \<open>Tables\<close>

record peer_row =
  pr_name :: string
  pr_platform :: string
  pr_trust_level :: string
  pr_public_key :: "bytes option"
  pr_first_seen :: int
  pr_updated_at :: int

record history_row =
  hr_transfer_id :: string
  hr_peer_fingerprint :: string
  hr_direction :: string
  hr_file_count :: u32
  hr_total_bytes :: u64
  hr_status :: string
  hr_created_at :: int

record resume_row =
  rr_transfer_id :: string
  rr_peer_fingerprint :: string
  rr_state_blob :: bytes
  rr_updated_at :: int

text \<open>\<open>None\<close> in place of a table means that it has not been created.\<close>

record database =
  db_version :: "u32 option option"
  db_peers :: "(string \<times> peer_row) list option"
  db_history :: "history_row list option"
  db_resume :: "(string \<times> resume_row) list option"
  db_now :: int
  db_fault :: "nat \<Rightarrow> string option"
  db_ticks :: nat

datatype sql_error = NoSuchTable string | ConstraintFailed string | OutOfRange | SqlFault string

fun sql_display :: "sql_error \<Rightarrow> string" where
  "sql_display (NoSuchTable t) = ''no such table: '' @ t"
| "sql_display (ConstraintFailed c) = ''constraint failed: '' @ c"
| "sql_display OutOfRange = ''integer out of range''"
| "sql_display (SqlFault m) = m"

text \<open>The errors of the whole program; this module returns \<open>Io\<close> only.\<close>

datatype discovery_error = DaemonCreation string | Registration string | Browse string
  | PeerNotFound string | DiscoveryShutdown

datatype justdrop_error = JdConfig config_error | JdDiscovery discovery_error | JdSecurity security_error
  | JdNetwork network_error | JdProtocol protocol_error | JdStorage storage_error | JdIo io_error

fun config_display :: "config_error \<Rightarrow> string" where
  "config_display (ConfigNotFound p) = ''configuration file not found: '' @ path_display p"
| "config_display (ConfigParse m) = ''failed to parse configuration: '' @ m"
| "config_display (InvalidValue field val reason) =
     ''invalid configuration value: '' @ field @ '' = '' @ val @ '': '' @ reason"

fun discovery_display :: "discovery_error \<Rightarrow> string" where
  "discovery_display (DaemonCreation m) = ''failed to create mDNS daemon: '' @ m"
| "discovery_display (Registration m) = ''failed to register service: '' @ m"
| "discovery_display (Browse m) = ''failed to browse for services: '' @ m"
| "discovery_display (PeerNotFound m) = ''peer not found: '' @ m"
| "discovery_display DiscoveryShutdown = ''discovery service shutting down''"

fun jd_display :: "justdrop_error \<Rightarrow> string" where
  "jd_display (JdConfig e) = config_display e"
| "jd_display (JdDiscovery e) = discovery_display e"
| "jd_display (JdSecurity e) = security_display e"
| "jd_display (JdNetwork e) = network_display e"
| "jd_display (JdProtocol e) = protocol_display e"
| "jd_display (JdStorage e) = storage_display e"
| "jd_display (JdIo e) = io_display e"

definition sql :: "(database, 'a, sql_error) io \<Rightarrow> (database, 'a, sql_error) io" where
  "sql f d = (let d' = d\<lparr>db_ticks := Suc (db_ticks d)\<rparr>
     in case db_fault d (db_ticks d) of Some m \<Rightarrow> (Err (SqlFault m), d') | None \<Rightarrow> f d')"

definition jd_err :: "string \<Rightarrow> (database, 'a, sql_error) io \<Rightarrow> (database, 'a, justdrop_error) io" where
  "jd_err what = map_err_io (\<lambda>e. JdIo (OtherIo (what @ sql_display e)))"

section \<open>Migration\<close>

definition SCHEMA_VERSION :: u32 where
  "SCHEMA_VERSION = 1"

definition create_version_table :: "(database, unit, sql_error) io" where
  "create_version_table d =
     (Ok (), if db_version d = None then d\<lparr>db_version := Some None\<rparr> else d)"

definition select_version :: "(database, u32 option, sql_error) io" where
  "select_version d = (case db_version d of None \<Rightarrow> (Err (NoSuchTable ''schema_version''), d) | Some v \<Rightarrow> (Ok v, d))"

definition v001 :: "(database, unit, sql_error) io" where
  "v001 d = (Ok (), d\<lparr>db_peers := Some (case db_peers d of Some t \<Rightarrow> t | None \<Rightarrow> []),
     db_history := Some (case db_history d of Some t \<Rightarrow> t | None \<Rightarrow> []),
     db_resume := Some (case db_resume d of Some t \<Rightarrow> t | None \<Rightarrow> [])\<rparr>)"

definition upsert_version :: "u32 \<Rightarrow> (database, unit, sql_error) io" where
  "upsert_version v d = (case db_version d of None \<Rightarrow> (Err (NoSuchTable ''schema_version''), d)
     | Some _ \<Rightarrow> (Ok (), d\<lparr>db_version := Some (Some v)\<rparr>))"

definition migrate :: "(database, unit, justdrop_error) io" where
  "migrate =
     bind_io (jd_err ''migrate init: '' (sql create_version_table)) (\<lambda>_.
     bind_io (jd_err ''migrate query: '' (sql select_version)) (\<lambda>version.
     let current = (case version of Some v \<Rightarrow> v | None \<Rightarrow> 0)
     in bind_io (if current < 1 then jd_err ''migration v1 failed: '' (sql v001) else return_io ()) (\<lambda>_.
        bind_io (jd_err ''version update: '' (sql (upsert_version SCHEMA_VERSION))) (\<lambda>_.
        return_io ()))))"

text \<open>\<open>Connection::open\<close> is the outcome \<open>opened\<close>; the two pragmas are one batch.\<close>

definition db_open :: "(unit, string) result \<Rightarrow> (database, unit, justdrop_error) io" where
  "db_open opened =
     bind_io (lift_io (map_err (\<lambda>e. JdIo (OtherIo (''sqlite open: '' @ e))) opened)) (\<lambda>_.
     bind_io (jd_err ''sqlite pragma: '' (sql (return_io ()))) (\<lambda>_.
     migrate))"

section \<open>Peer trust\<close>

definition with_table :: "string \<Rightarrow> 't option \<Rightarrow> ('t \<Rightarrow> (database, 'a, sql_error) io) \<Rightarrow> (database, 'a, sql_error) io" where
  "with_table n t f d = (case t of None \<Rightarrow> (Err (NoSuchTable n), d) | Some r \<Rightarrow> f r d)"

definition upsert_peer :: "string \<Rightarrow> string \<Rightarrow> string \<Rightarrow> string \<Rightarrow> (database, unit, sql_error) io" where
  "upsert_peer fingerprint name pf level d = with_table ''peers'' (db_peers d) (\<lambda>t d.
     let row = (case map_of t fingerprint of
                  Some r \<Rightarrow> r\<lparr>pr_name := name, pr_platform := pf, pr_trust_level := level, pr_updated_at := db_now d\<rparr>
                | None \<Rightarrow> \<lparr>pr_name = name, pr_platform = pf, pr_trust_level = level, pr_public_key = None,
                            pr_first_seen = db_now d, pr_updated_at = db_now d\<rparr>)
     in (Ok (), d\<lparr>db_peers := Some (AList.update fingerprint row t)\<rparr>)) d"

definition set_trust ::
  "string \<Rightarrow> string \<Rightarrow> string \<Rightarrow> trust_level \<Rightarrow> (database, unit, justdrop_error) io" where
  "set_trust fingerprint name pf level =
     jd_err ''set_trust: '' (sql (upsert_peer fingerprint name pf (as_str level)))"

definition get_trust :: "string \<Rightarrow> database \<Rightarrow> trust_level \<times> database" where
  "get_trust fingerprint d =
     (case sql (\<lambda>d. with_table ''peers'' (db_peers d) (\<lambda>t. return_io (map_of t fingerprint)) d) d of
        (Ok (Some row), d') \<Rightarrow> (parse_str (pr_trust_level row), d')
      | (_, d') \<Rightarrow> (TUnknown, d'))"

definition db_is_blocked :: "string \<Rightarrow> database \<Rightarrow> bool \<times> database" where
  "db_is_blocked fingerprint d = (case get_trust fingerprint d of (l, d') \<Rightarrow> (l = TBlocked, d'))"

text \<open>\<open>ORDER BY name\<close> compares bytes; rows with one name stay in insertion order here.\<close>

definition peers_with_trust :: "trust_level \<Rightarrow> database \<Rightarrow> (string \<times> string) list \<times> database" where
  "peers_with_trust level d =
     (case sql (\<lambda>d. with_table ''peers'' (db_peers d) (\<lambda>t. return_io
            (sort_key snd (map (\<lambda>(f, r). (f, pr_name r)) (filter (\<lambda>(f, r). pr_trust_level r = as_str level) t)))) d) d of
        (Ok rows, d') \<Rightarrow> (rows, d') | (_, d') \<Rightarrow> ([], d'))"

section \<open>Transfer history\<close>

text \<open>Foreign keys are on; a \<open>u64\<close> above the range of SQLite integers is refused.\<close>

definition insert_history :: "history_row \<Rightarrow> (database, unit, sql_error) io" where
  "insert_history r d = with_table ''transfer_history'' (db_history d) (\<lambda>t d.
     if 2 ^ 63 \<le> hr_total_bytes r then (Err OutOfRange, d)
     else if hr_direction r \<notin> {''send'', ''receive''} then (Err (ConstraintFailed ''direction''), d)
     else if hr_status r \<notin> {''completed'', ''failed'', ''cancelled''} then (Err (ConstraintFailed ''status''), d)
     else if hr_transfer_id r \<in> set (map hr_transfer_id t) then (Err (ConstraintFailed ''transfer_id''), d)
     else if db_peers d = None \<or> map_of (the (db_peers d)) (hr_peer_fingerprint r) = None
       then (Err (ConstraintFailed ''peer_fingerprint''), d)
     else (Ok (), d\<lparr>db_history := Some (t @ [r])\<rparr>)) d"

definition record_transfer ::
  "string \<Rightarrow> string \<Rightarrow> string \<Rightarrow> u32 \<Rightarrow> u64 \<Rightarrow> string \<Rightarrow> (database, unit, justdrop_error) io" where
  "record_transfer transfer_id peer_fingerprint direction file_count total_bytes status d =
     jd_err ''record_transfer: '' (sql (insert_history
       \<lparr>hr_transfer_id = transfer_id, hr_peer_fingerprint = peer_fingerprint, hr_direction = direction,
        hr_file_count = file_count, hr_total_bytes = total_bytes, hr_status = status, hr_created_at = db_now d\<rparr>)) d"

section \<open>Resume state\<close>

definition db_save_resume_state :: "string \<Rightarrow> string \<Rightarrow> bytes \<Rightarrow> (database, unit, justdrop_error) io" where
  "db_save_resume_state transfer_id peer_fingerprint state_blob =
     jd_err ''save_resume: '' (sql (\<lambda>d. with_table ''resume_state'' (db_resume d) (\<lambda>t d.
       (Ok (), d\<lparr>db_resume := Some (AList.delete transfer_id t @ [(transfer_id,
          \<lparr>rr_transfer_id = transfer_id, rr_peer_fingerprint = peer_fingerprint, rr_state_blob = state_blob,
           rr_updated_at = db_now d\<rparr>)])\<rparr>)) d))"

definition db_load_resume_state :: "string \<Rightarrow> database \<Rightarrow> bytes option \<times> database" where
  "db_load_resume_state transfer_id d =
     (case sql (\<lambda>d. with_table ''resume_state'' (db_resume d) (\<lambda>t. return_io (map_of t transfer_id)) d) d of
        (Ok (Some r), d') \<Rightarrow> (Some (rr_state_blob r), d')
      | (_, d') \<Rightarrow> (None, d'))"

definition db_clear_resume_state :: "string \<Rightarrow> (database, unit, justdrop_error) io" where
  "db_clear_resume_state transfer_id =
     jd_err ''clear_resume: '' (sql (\<lambda>d. with_table ''resume_state'' (db_resume d) (\<lambda>t d.
       (Ok (), d\<lparr>db_resume := Some (AList.delete transfer_id t)\<rparr>)) d))"

section \<open>Histories of operations\<close>

datatype db_op =
    SetTrust string string string trust_level
  | RecordTransfer string string string u32 u64 string
  | SaveResume string string bytes
  | ClearResume string
  | Reopen "(unit, string) result"

fun db_step :: "db_op \<Rightarrow> database \<Rightarrow> database" where
  "db_step (SetTrust f n p l) d = snd (set_trust f n p l d)"
| "db_step (RecordTransfer t p dir n b st) d = snd (record_transfer t p dir n b st d)"
| "db_step (SaveResume t p b) d = snd (db_save_resume_state t p b d)"
| "db_step (ClearResume t) d = snd (db_clear_resume_state t d)"
| "db_step (Reopen r) d = snd (db_open r d)"

definition peers_ok :: "(string \<times> peer_row) list \<Rightarrow> bool" where
  "peers_ok t \<longleftrightarrow> distinct (map fst t) \<and> (\<forall>(f, r)\<in>set t. \<exists>l. pr_trust_level r = as_str l)"

definition history_ok :: "string set \<Rightarrow> history_row list \<Rightarrow> bool" where
  "history_ok known h \<longleftrightarrow> distinct (map hr_transfer_id h) \<and> (\<forall>r\<in>set h.
     hr_direction r \<in> {''send'', ''receive''} \<and> hr_status r \<in> {''completed'', ''failed'', ''cancelled''}
     \<and> hr_total_bytes r < 2 ^ 63 \<and> hr_peer_fingerprint r \<in> known)"

definition known_peers :: "database \<Rightarrow> string set" where
  "known_peers d = (case db_peers d of Some t \<Rightarrow> set (map fst t) | None \<Rightarrow> {})"

definition db_inv :: "database \<Rightarrow> bool" where
  "db_inv d \<longleftrightarrow> (\<forall>t. db_peers d = Some t \<longrightarrow> peers_ok t)
     \<and> (\<forall>h. db_history d = Some h \<longrightarrow> history_ok (known_peers d) h)"

lemma history_ok_mono: "history_ok K h \<Longrightarrow> K \<subseteq> L \<Longrightarrow> history_ok L h"
  by (auto simp: history_ok_def)

text \<open>Only the tables matter.\<close>

lemma db_inv_cong:
  "db_peers d' = db_peers d \<Longrightarrow> db_history d' = db_history d \<Longrightarrow> db_inv d' = db_inv d"
  by (simp add: db_inv_def known_peers_def)

lemma db_inv_ticks [simp]: "db_inv (d\<lparr>db_ticks := n\<rparr>) = db_inv d"
  by (rule db_inv_cong) simp_all

definition keeps :: "(database, 'a, 'e) io \<Rightarrow> bool" where
  "keeps f \<longleftrightarrow> (\<forall>d. db_inv d \<longrightarrow> db_inv (snd (f d)))"

named_theorems keeps_intro "operations that keep the invariant of the tables"

lemma keeps_bind [keeps_intro]: "keeps m \<Longrightarrow> (\<And>a. keeps (f a)) \<Longrightarrow> keeps (bind_io m f)"
  unfolding keeps_def bind_io_def by (fastforce split: prod.split result.split)

lemma keeps_return [keeps_intro]: "keeps (return_io a)" and keeps_lift [keeps_intro]: "keeps (lift_io r)"
  by (simp_all add: keeps_def return_io_def lift_io_def)

lemma keeps_sql [keeps_intro]:
  assumes "keeps f"
  shows "keeps (jd_err what (sql f))"
  unfolding keeps_def
proof (intro allI impI)
  fix d assume "db_inv d"
  then have "db_inv (snd (f (d\<lparr>db_ticks := Suc (db_ticks d)\<rparr>)))" using assms by (simp add: keeps_def)
  then show "db_inv (snd (jd_err what (sql f) d))" using \<open>db_inv d\<close>
    by (auto simp: jd_err_def map_err_io_def sql_def Let_def split: option.split prod.split)
qed

lemma keeps_other:
  "(\<And>d. db_peers (snd (f d)) = db_peers d \<and> db_history (snd (f d)) = db_history d) \<Longrightarrow> keeps f"
  by (auto simp: keeps_def intro: db_inv_cong [THEN iffD2])

lemma peers_ok_update:
  assumes "peers_ok t" "pr_trust_level row = as_str l"
  shows "peers_ok (AList.update f row t)"
proof -
  have d: "distinct (map fst t)" and dist: "distinct (map fst (AList.update f row t))"
    using assms(1) by (simp_all add: peers_ok_def AList.distinct_update)
  have "\<exists>l. pr_trust_level r = as_str l" if "(g, r) \<in> set (AList.update f row t)" for g r
  proof -
    have "map_of (AList.update f row t) g = Some r" using that dist by (simp add: map_of_is_SomeI)
    then show ?thesis using assms by (auto simp: peers_ok_def AList.update_conv' split: if_splits dest: map_of_SomeD)
  qed
  with dist show ?thesis by (auto simp: peers_ok_def)
qed

lemma keeps_upsert_peer [keeps_intro]: "keeps (upsert_peer f n pf (as_str l))"
  unfolding keeps_def
proof (intro allI impI)
  fix d assume inv: "db_inv d"
  show "db_inv (snd (upsert_peer f n pf (as_str l) d))"
  proof (cases "db_peers d")
    case (Some t)
    let ?d = "snd (upsert_peer f n pf (as_str l) d)"
    obtain row where d: "db_peers ?d = Some (AList.update f row t)" "db_history ?d = db_history d"
      and row: "pr_trust_level row = as_str l"
      using Some by (auto simp: upsert_peer_def with_table_def Let_def split: option.split)
    have "known_peers d \<subseteq> known_peers ?d"
      unfolding known_peers_def Some d option.case AList.update_keys by (simp del: set_map split: if_split) blast
    then show ?thesis
      using inv d Some peers_ok_update [OF _ row] history_ok_mono unfolding db_inv_def by auto
  qed (use inv in \<open>simp add: upsert_peer_def with_table_def\<close>)
qed

lemma keeps_insert_history [keeps_intro]: "keeps (insert_history r)"
  unfolding keeps_def
proof (intro allI impI)
  fix d assume inv: "db_inv d"
  have known: "hr_peer_fingerprint r \<in> known_peers d"
    if "\<not> (db_peers d = None \<or> map_of (the (db_peers d)) (hr_peer_fingerprint r) = None)"
    using that by (auto simp del: set_map simp: known_peers_def map_of_eq_None_iff simp flip: set_map)
  have same: "known_peers (d\<lparr>db_history := h\<rparr>) = known_peers d" for h by (simp add: known_peers_def)
  show "db_inv (snd (insert_history r d))"
  proof (cases "db_history d")
    case (Some h)
    then show ?thesis using inv known
      by (auto simp: insert_history_def with_table_def db_inv_def same history_ok_def)
  qed (use inv in \<open>simp add: insert_history_def with_table_def\<close>)
qed

lemma keeps_migrate [keeps_intro]: "keeps migrate"
proof -
  have "keeps v001"
    by (auto simp: keeps_def v001_def db_inv_def peers_ok_def history_ok_def known_peers_def split: option.split)
  moreover have "keeps create_version_table" "keeps select_version" "keeps (upsert_version v)" for v
    by (rule keeps_other; auto simp: create_version_table_def select_version_def upsert_version_def split: option.split)+
  ultimately show ?thesis
    unfolding migrate_def Let_def by (auto intro!: keeps_intro)
qed

lemma keeps_record: "keeps (record_transfer t p dir n b st)"
  using keeps_sql [OF keeps_insert_history] by (simp add: keeps_def record_transfer_def)

lemma keeps_resume: "keeps (db_save_resume_state t p b)" "keeps (db_clear_resume_state t)"
  unfolding db_save_resume_state_def db_clear_resume_state_def
  by (intro keeps_sql keeps_other; simp add: with_table_def split: option.split)+

lemma db_step_inv: "db_inv d \<Longrightarrow> db_inv (db_step x d)"
proof (cases x)
  case (SetTrust f n p l)
  then show "db_inv d \<Longrightarrow> ?thesis"
    using keeps_sql [OF keeps_upsert_peer] by (simp add: keeps_def set_trust_def)
next
  case (Reopen r)
  have "keeps (db_open r)" unfolding db_open_def by (intro keeps_intro)
  then show "db_inv d \<Longrightarrow> ?thesis" using Reopen by (simp add: keeps_def)
qed (use keeps_record keeps_resume in \<open>simp_all add: keeps_def\<close>)


definition demo_db :: database where
  "demo_db = \<lparr>db_version = None, db_peers = None, db_history = None, db_resume = None, db_now = 0,
     db_fault = (\<lambda>_. None), db_ticks = 0\<rparr>"


section \<open>Trust\<close>

text \<open>A migrated database on which no statement fails.\<close>

definition db_ready :: "database \<Rightarrow> bool" where
  "db_ready d \<longleftrightarrow> db_fault d = (\<lambda>_. None) \<and> db_peers d \<noteq> None \<and> db_resume d \<noteq> None"

definition peer_level :: "database \<Rightarrow> string \<Rightarrow> trust_level" where
  "peer_level d f = (case map_of (the (db_peers d)) f of Some r \<Rightarrow> parse_str (pr_trust_level r) | None \<Rightarrow> TUnknown)"

lemma get_trust_ready: "db_ready d \<Longrightarrow> fst (get_trust f d) = peer_level d f"
  by (auto simp: get_trust_def db_ready_def sql_def with_table_def return_io_def peer_level_def Let_def
      split: option.split)

lemma set_trust_ready:
  assumes "db_ready d"
  shows "\<exists>d'. set_trust f n pf l d = (Ok (), d') \<and> db_ready d' \<and> peer_level d' = (peer_level d)(f := l)"
proof -
  obtain t where t: "db_peers d = Some t" using assms by (auto simp: db_ready_def)
  have p: "parse_str (as_str l) = l" by (cases l) (simp_all add: parse_str_def)
  then show ?thesis using assms t
    by (auto simp: set_trust_def jd_err_def map_err_io_def sql_def Let_def db_ready_def upsert_peer_def with_table_def
        peer_level_def AList.update_conv' fun_eq_iff split: option.split)
qed

text \<open>
  C32. The trust level of a peer is the one set last: after any sequence of \<open>set_trust\<close>, for this and for
  other peers, \<open>get_trust\<close> gives the last level set for it, \<open>Unknown\<close> if there was none, and
  \<open>is_blocked\<close> says whether that is \<open>Blocked\<close>. No level is refused: \<open>transition_to\<close> is not consulted.
\<close>

theorem trust_is_last_set:
  assumes "db_ready d" and "\<forall>f. peer_level d f = TUnknown"
    and "d' = fold (\<lambda>(f, n, p, l). db_step (SetTrust f n p l)) ops d"
  shows "fst (get_trust f d') = (case map_of (rev (map (\<lambda>(f, n, p, l). (f, l)) ops)) f of Some l \<Rightarrow> l | None \<Rightarrow> TUnknown)
    \<and> fst (db_is_blocked f d') = (fst (get_trust f d') = TBlocked)"
proof -
  have "db_ready (fold (\<lambda>(f, n, p, l). db_step (SetTrust f n p l)) ops d)
    \<and> peer_level (fold (\<lambda>(f, n, p, l). db_step (SetTrust f n p l)) ops d) f
      = (case map_of (rev (map (\<lambda>(f, n, p, l). (f, l)) ops)) f of Some l \<Rightarrow> l | None \<Rightarrow> peer_level d f)"
    using assms(1)
  proof (induction ops arbitrary: d)
    case (Cons x ops)
    obtain g n p l where x: "x = (g, n, p, l)" by (cases x)
    from set_trust_ready [OF Cons.prems, of g n p l]
    obtain d1 where d1: "set_trust g n p l d = (Ok (), d1)" "db_ready d1" "peer_level d1 = (peer_level d)(g := l)" by blast
    show ?case using Cons.IH [OF d1(2)] d1(1,3) x by (auto simp: map_add_def split: option.split)
  qed simp
  then have "fst (get_trust f d') = (case map_of (rev (map (\<lambda>(f, n, p, l). (f, l)) ops)) f of
      Some l \<Rightarrow> l | None \<Rightarrow> TUnknown)"
    using assms(2,3) get_trust_ready by (simp split: option.split)
  moreover have "fst (db_is_blocked f d') = (fst (get_trust f d') = TBlocked)"
    by (simp add: db_is_blocked_def split: prod.split)
  ultimately show ?thesis by blast
qed

definition demo_open_db :: database where
  "demo_open_db = snd (db_open (Ok ()) demo_db)"

lemma demo_open_db: "db_ready demo_open_db" "peer_level demo_open_db f = TUnknown"
  by (simp_all add: demo_open_db_def demo_db_def db_open_def migrate_def bind_io_def jd_err_def map_err_io_def sql_def
      lift_io_def return_io_def Let_def create_version_table_def select_version_def v001_def upsert_version_def
      db_ready_def peer_level_def)

theorem trust_is_last_set_witness:
  "fst (get_trust ''f'' (fold (\<lambda>(f, n, p, l). db_step (SetTrust f n p l))
     [(''f'', ''n'', ''p'', TBlocked), (''g'', ''n'', ''p'', TTrusted), (''f'', ''n'', ''p'', TFavorite)] demo_open_db)) = TFavorite"
  using trust_is_last_set [OF demo_open_db(1) _ refl, of "''f''" "[(''f'', ''n'', ''p'', TBlocked), (''g'', ''n'', ''p'', TTrusted),
      (''f'', ''n'', ''p'', TFavorite)]"] demo_open_db(2) by simp

text \<open>So a blocked peer becomes a favourite in one call, which the trust model forbids.\<close>

lemma trust_store_skips_transition:
  assumes "db_ready d"
  shows "fst (get_trust f (db_step (SetTrust f n p TFavorite) (db_step (SetTrust f n p TBlocked) d))) = TFavorite
     \<and> transition_to TBlocked TFavorite = None"
proof -
  obtain d1 where d1: "set_trust f n p TBlocked d = (Ok (), d1)" "db_ready d1"
    using set_trust_ready [OF assms] by blast
  obtain d2 where "set_trust f n p TFavorite d1 = (Ok (), d2)" "db_ready d2" "peer_level d2 f = TFavorite"
    using set_trust_ready [OF d1(2), of f n p TFavorite] by auto
  then show ?thesis using d1 get_trust_ready by simp
qed

section \<open>Resume states\<close>

interpretation resume_table: kv_store
  db_ready fst "\<lambda>_. True" "\<lambda>_. True"
  "\<lambda>(t, b) d. snd (db_save_resume_state t (peer t) b d)"
  "\<lambda>t d. map_option (Pair t) (fst (db_load_resume_state t d))"
  "\<lambda>t d. snd (db_clear_resume_state t d)"
  for peer :: "string \<Rightarrow> string"
  by unfold_locales
    (auto simp: db_save_resume_state_def db_load_resume_state_def db_clear_resume_state_def jd_err_def map_err_io_def
      sql_def Let_def with_table_def db_ready_def return_io_def map_add_def AList.delete_conv' split: option.splits if_splits)

lemma resume_blob_survives:
  assumes "db_ready d" and "\<forall>x\<in>set ops. (case x of Inl v \<Rightarrow> fst v | Inr t \<Rightarrow> t) \<noteq> t"
  shows "fst (db_load_resume_state t (resume_table.run peer ops (snd (db_save_resume_state t (peer t) b d)))) = Some b"
  using resume_table.last_put_wins [of d ops "(t, b)" peer] assms by (auto simp: list_all_iff resume_table.op_valid_def split: sum.splits)

end
