(* ===== verification/Ble.thy ===== *)
theory Ble
  imports Prelude
begin

unbundle bit_operations_syntax

text \<open>
  \<open>crates/justdrop-ble/src\<close>: the advertisement that announces a device (\<open>advertisement.rs\<close>), the
  GATT handshake messages (\<open>handshake.rs\<close>) and the hotspot credentials (\<open>hotspot.rs\<close>). Postcard and
  BLAKE3 are parameters.
\<close>

section \<open>Advertisement\<close>

definition MAGIC :: bytes where
  "MAGIC = [0x4A, 0x44]"

datatype capabilities = Capabilities byte

definition FILE_TRANSFER :: byte where "FILE_TRANSFER = 0x01"

definition CLIPBOARD_SYNC :: byte where "CLIPBOARD_SYNC = 0x02"

definition FOLDER_TRANSFER :: byte where "FOLDER_TRANSFER = 0x04"

definition capabilities_new :: capabilities where
  "capabilities_new = Capabilities (FILE_TRANSFER OR FOLDER_TRANSFER)"

fun capabilities_has :: "capabilities \<Rightarrow> byte \<Rightarrow> bool" where
  "capabilities_has (Capabilities c) flag = (c AND flag \<noteq> 0)"

fun capabilities_set :: "capabilities \<Rightarrow> byte \<Rightarrow> capabilities" where
  "capabilities_set (Capabilities c) flag = Capabilities (c OR flag)"

datatype transport_hint = SharedLanHint | LocalHotspot | HotspotClient

datatype presence_state = PIdle | PAvailable | PReceiving | PBusy | PInvisible

definition default_presence :: presence_state where
  "default_presence = PAvailable"

record advertisement =
  ad_protocol_version :: byte
  ad_device_id :: bytes
  ad_device_name_hash :: u16
  ad_capabilities :: capabilities
  ad_transport_hint :: transport_hint
  ad_presence :: presence_state
  ad_battery_level :: byte

datatype advertisement_error = InvalidMagic | AdSerialize string | AdDeserialize string

fun advertisement_display :: "advertisement_error \<Rightarrow> string" where
  "advertisement_display InvalidMagic = ''invalid magic bytes''"
| "advertisement_display (AdSerialize m) = ''serialization failed: '' @ m"
| "advertisement_display (AdDeserialize m) = ''deserialization failed: '' @ m"

definition name_hash :: "(bytes \<Rightarrow> bytes) \<Rightarrow> string \<Rightarrow> u16" where
  "name_hash blake3 name = (let hash = blake3 (map (\<lambda>c. word_of_nat (of_char c)) name) in of_le [hash ! 0, hash ! 1])"

definition from_identity :: "(bytes \<Rightarrow> bytes) \<Rightarrow> bytes \<Rightarrow> string \<Rightarrow> transport_hint \<Rightarrow> advertisement" where
  "from_identity blake3 device_id device_name hint =
     \<lparr>ad_protocol_version = 1, ad_device_id = take 8 device_id, ad_device_name_hash = name_hash blake3 device_name,
      ad_capabilities = capabilities_new, ad_transport_hint = hint, ad_presence = PAvailable,
      ad_battery_level = 255\<rparr>"

definition ad_to_bytes ::
  "(advertisement \<Rightarrow> (bytes, string) result) \<Rightarrow> advertisement \<Rightarrow> (bytes, advertisement_error) result" where
  "ad_to_bytes to_allocvec a =
     bind_res (map_err AdSerialize (to_allocvec a)) (\<lambda>payload. Ok (MAGIC @ payload))"

definition ad_from_bytes ::
  "(bytes \<Rightarrow> (advertisement, string) result) \<Rightarrow> bytes \<Rightarrow> (advertisement, advertisement_error) result" where
  "ad_from_bytes from_bytes data =
     (if length data < 2 \<or> take 2 data \<noteq> MAGIC then Err InvalidMagic
      else map_err AdDeserialize (from_bytes (drop 2 data)))"

section \<open>Handshake\<close>

datatype transport_request = LanRequest "string option" u16 | RequestHotspot | OfferHotspot

datatype transport_accept = LanAccept string u16 | HotspotCreated string string u16 | TransportRejected string

record handshake_request =
  hq_version :: byte
  hq_public_key :: bytes
  hq_ephemeral_key :: bytes
  hq_nonce :: bytes
  hq_signature :: bytes
  hq_device_name :: string
  hq_transport_request :: transport_request

record handshake_response =
  hp_version :: byte
  hp_public_key :: bytes
  hp_ephemeral_key :: bytes
  hp_nonce :: bytes
  hp_signature :: bytes
  hp_device_name :: string
  hp_transport_accept :: transport_accept

definition request_signed_payload :: "handshake_request \<Rightarrow> bytes" where
  "request_signed_payload r = [hq_version r] @ hq_ephemeral_key r @ hq_nonce r"

definition response_signed_payload :: "handshake_response \<Rightarrow> bytes" where
  "response_signed_payload r = [hp_version r] @ hp_ephemeral_key r @ hp_nonce r"

definition request_to_bytes :: "(handshake_request \<Rightarrow> (bytes, 'e) result) \<Rightarrow> handshake_request \<Rightarrow> (bytes, 'e) result" where
  "request_to_bytes to_allocvec r = to_allocvec r"

definition request_from_bytes :: "(bytes \<Rightarrow> (handshake_request, 'e) result) \<Rightarrow> bytes \<Rightarrow> (handshake_request, 'e) result" where
  "request_from_bytes from_bytes data = from_bytes data"

definition response_to_bytes :: "(handshake_response \<Rightarrow> (bytes, 'e) result) \<Rightarrow> handshake_response \<Rightarrow> (bytes, 'e) result" where
  "response_to_bytes to_allocvec r = to_allocvec r"

definition response_from_bytes :: "(bytes \<Rightarrow> (handshake_response, 'e) result) \<Rightarrow> bytes \<Rightarrow> (handshake_response, 'e) result" where
  "response_from_bytes from_bytes data = from_bytes data"

section \<open>Hotspot\<close>

record hotspot_credentials =
  hc_ssid :: string
  hc_passphrase :: string
  hc_bssid :: "string option"
  hc_server_ip :: string
  hc_port :: u16

definition hotspot_to_bytes :: "(hotspot_credentials \<Rightarrow> (bytes, 'e) result) \<Rightarrow> hotspot_credentials \<Rightarrow> (bytes, 'e) result" where
  "hotspot_to_bytes to_allocvec c = to_allocvec c"

definition hotspot_from_bytes :: "(bytes \<Rightarrow> (hotspot_credentials, 'e) result) \<Rightarrow> bytes \<Rightarrow> (hotspot_credentials, 'e) result" where
  "hotspot_from_bytes from_bytes data = from_bytes data"

section \<open>Properties\<close>

lemma capabilities_set_has:
  "capabilities_has (capabilities_set c f) g \<longleftrightarrow> capabilities_has c g \<or> f AND g \<noteq> 0"
  by (cases c) (simp add: bit.conj_disj_distrib2 or_eq_0_iff)

lemma capabilities_new_has:
  "capabilities_has capabilities_new FILE_TRANSFER" "capabilities_has capabilities_new FOLDER_TRANSFER"
  "\<not> capabilities_has capabilities_new CLIPBOARD_SYNC"
  by (simp_all add: capabilities_new_def FILE_TRANSFER_def FOLDER_TRANSFER_def CLIPBOARD_SYNC_def)

text \<open>
  The signed payload fixes what it covers: two handshake messages with keys and nonces of the
  legal lengths have one payload only if version, ephemeral key and nonce agree. It does not say
  which kind of message it is: a request and a response with those fields have the same payload.
\<close>

lemma signed_payload_covers:
  assumes "length (hq_ephemeral_key r) = 32" and "length (hq_nonce r) = 16"
    and "length (hp_ephemeral_key p) = 32" and "length (hp_nonce p) = 16"
  shows "request_signed_payload r = response_signed_payload p
     \<longleftrightarrow> hq_version r = hp_version p \<and> hq_ephemeral_key r = hp_ephemeral_key p \<and> hq_nonce r = hp_nonce p"
  using assms by (simp add: request_signed_payload_def response_signed_payload_def)

text \<open>
  An advertisement is recovered from its bytes, which start with the magic; any other data is
  refused before it is decoded.
\<close>

lemma advertisement_roundtrip:
  assumes "to_allocvec a = Ok x" and "from_bytes x = Ok a"
  shows "ad_to_bytes to_allocvec a = Ok (MAGIC @ x) \<and> ad_from_bytes from_bytes (MAGIC @ x) = Ok a
    \<and> (take 2 data \<noteq> MAGIC \<longrightarrow> ad_from_bytes from_bytes data = Err InvalidMagic)"
  using assms by (simp add: ad_to_bytes_def ad_from_bytes_def MAGIC_def numeral_2_eq_2)

end
