(* ===== verification/Registry.thy ===== *)
theory Registry
  imports Prelude "HOL-Library.AList"
begin

text \<open>
  The interface of the two components that keep a table of nearby devices and tell listeners of
  every change to it: the mDNS browser and the engine. An event is read as the news it brings of a device
  identifier; a step reports its change when the news it adds to the log turn what a listener
  knew before into the table after it. The client's law follows for whole histories.
\<close>

datatype news = Appears string | Refreshed string | Gone string | NoNews

text \<open>
  A listener knows the devices it has been told of and not yet told to forget, or nothing
  (\<open>None\<close>) once an event has contradicted it.
\<close>

fun listen :: "news \<Rightarrow> string set option \<Rightarrow> string set option" where
  "listen _ None = None"
| "listen (Appears i) (Some s) = (if i \<in> s then None else Some (insert i s))"
| "listen (Refreshed i) (Some s) = (if i \<in> s then Some s else None)"
| "listen (Gone i) (Some s) = (if i \<in> s then Some (s - {i}) else None)"
| "listen NoNews (Some s) = Some s"

definition heard :: "('ev \<Rightarrow> news) \<Rightarrow> 'ev list \<Rightarrow> string set option" where
  "heard news evs = fold listen (map news evs) (Some {})"

definition reports :: "('ev \<Rightarrow> news) \<Rightarrow> 'ev list \<Rightarrow> string set \<Rightarrow> 'ev list \<Rightarrow> string set \<Rightarrow> bool" where
  "reports news l s l' s' \<longleftrightarrow> (\<exists>evs. l' = l @ evs \<and> fold listen (map news evs) (Some s) = Some s')"

lemma reports_refl [simp, intro]: "reports news l s l s"
  by (simp add: reports_def)

lemma reports_one [intro]: "listen (news ev) (Some s) = Some s' \<Longrightarrow> reports news l s (l @ [ev]) s'"
  by (simp add: reports_def)

lemma find_member: "List.find P xs = Some x \<Longrightarrow> x \<in> set xs"
  by (induction xs) (auto split: if_splits)

lemma keys_delete: "fst ` set (AList.delete i xs) = fst ` set xs - {i}"
  using arg_cong [OF AList.delete_keys [of i xs], of set] by simp

lemma set_alist_update: "x \<in> set (AList.update k v xs) \<Longrightarrow> x = (k, v) \<or> x \<in> set xs"
  by (induction xs) (auto split: if_splits)

locale device_registry =
  fixes news :: "'ev \<Rightarrow> news" and told :: "'s \<Rightarrow> 'ev list" and ids :: "'s \<Rightarrow> string set"
    and step :: "'op \<Rightarrow> 's \<Rightarrow> 's"
  assumes step_reports: "reports news (told s) (ids s) (told (step op s)) (ids (step op s))"
begin

lemma step_heard: "heard news (told s) = Some (ids s) \<Longrightarrow> heard news (told (step op s)) = Some (ids (step op s))"
  using step_reports [of s op] by (auto simp: reports_def heard_def)

lemma run_heard:
  "heard news (told s) = Some (ids s) \<Longrightarrow> heard news (told (fold step ops s)) = Some (ids (fold step ops s))"
  by (induction ops arbitrary: s) (simp_all add: step_heard)

end

end
