(* ===== verification/Engine.thy ===== *)
theory Engine
  imports Identity Database Ble Config Registry Progress
begin

text \<open>
  \<open>crates/justdrop-engine/src\<close>: peers (\<open>peer.rs\<close>), transfer sessions (\<open>session.rs\<close>), events (\<open>events.rs\<close>)
  and the engine (\<open>engine.rs\<close>). A method runs as one step: the locks it takes are not modelled. A
  hash map is an association list whose order is its iteration order; the handler is the list of
  the events it has received.
\<close>

section \<open>Peers\<close>

type_synonym socket_addr = string

datatype discovery_source = FromBle | FromMdns | FromBoth

record peer =
  pe_device_id :: string
  pe_name :: string
  pe_fingerprint :: "string option"
  pe_platform :: platform
  pe_presence :: presence_state
  pe_trust :: trust_level
  pe_addr :: "socket_addr option"
  pe_rssi :: "int option"
  pe_battery :: "nat option"
  pe_last_seen :: int
  pe_discovery :: discovery_source

definition hex16 :: "u16 \<Rightarrow> string" where
  "hex16 n = hex_byte (word_of_nat (n div 256)) @ hex_byte (word_of_nat n)"

definition from_ble :: "int \<Rightarrow> bytes \<Rightarrow> u16 \<Rightarrow> presence_state \<Rightarrow> int \<Rightarrow> peer" where
  "from_ble now device_id hash pres rssi =
     \<lparr>pe_device_id = concat (map hex_byte device_id), pe_name = ''Device-'' @ hex16 hash, pe_fingerprint = None,
      pe_platform = UnknownPlatform, pe_presence = pres, pe_trust = TUnknown, pe_addr = None,
      pe_rssi = Some rssi, pe_battery = None, pe_last_seen = now, pe_discovery = FromBle\<rparr>"

definition from_mdns :: "int \<Rightarrow> string \<Rightarrow> socket_addr \<Rightarrow> string \<Rightarrow> platform \<Rightarrow> peer" where
  "from_mdns now name addr fingerprint pf =
     \<lparr>pe_device_id = take 16 fingerprint, pe_name = name, pe_fingerprint = Some fingerprint,
      pe_platform = pf, pe_presence = PAvailable, pe_trust = TUnknown, pe_addr = Some addr,
      pe_rssi = None, pe_battery = None, pe_last_seen = now, pe_discovery = FromMdns\<rparr>"

definition with_trust :: "peer \<Rightarrow> trust_level \<Rightarrow> peer" where
  "with_trust p trust = p\<lparr>pe_trust := trust\<rparr>"

definition is_visible :: "peer \<Rightarrow> bool" where
  "is_visible p \<longleftrightarrow> \<not> is_blocked (pe_trust p) \<and> pe_presence p \<noteq> PInvisible"

definition peer_auto_accept :: "peer \<Rightarrow> bool" where
  "peer_auto_accept p = auto_accept (pe_trust p)"

section \<open>Sessions\<close>

datatype direction = DirSend | DirReceive

fun direction_display :: "direction \<Rightarrow> string" where
  "direction_display DirSend = ''send''"
| "direction_display DirReceive = ''receive''"

record transfer_session =
  ts_id :: transfer_id
  ts_peer_fingerprint :: string
  ts_peer_name :: string
  ts_direction :: direction
  ts_state :: transfer_state
  ts_manifest :: "transfer_manifest option"
  ts_source_paths :: "path list"
  ts_dest_dir :: "path option"
  ts_bytes_transferred :: u64
  ts_total_bytes :: u64
  ts_speed_bps :: u64
  ts_created_at :: int
  ts_updated_at :: int

definition new_send :: "int \<Rightarrow> uuid \<Rightarrow> string \<Rightarrow> string \<Rightarrow> path list \<Rightarrow> transfer_session" where
  "new_send now new_id peer_fingerprint peer_name paths =
     \<lparr>ts_id = new_id, ts_peer_fingerprint = peer_fingerprint, ts_peer_name = peer_name, ts_direction = DirSend,
      ts_state = Negotiating, ts_manifest = None, ts_source_paths = paths, ts_dest_dir = None,
      ts_bytes_transferred = 0, ts_total_bytes = 0, ts_speed_bps = 0, ts_created_at = now, ts_updated_at = now\<rparr>"

definition new_receive ::
  "int \<Rightarrow> transfer_id \<Rightarrow> string \<Rightarrow> string \<Rightarrow> transfer_manifest \<Rightarrow> path \<Rightarrow> transfer_session" where
  "new_receive now transfer_id peer_fingerprint peer_name manifest dest_dir =
     \<lparr>ts_id = transfer_id, ts_peer_fingerprint = peer_fingerprint, ts_peer_name = peer_name,
      ts_direction = DirReceive, ts_state = Negotiating, ts_manifest = Some manifest, ts_source_paths = [],
      ts_dest_dir = Some dest_dir, ts_bytes_transferred = 0, ts_total_bytes = mf_total_size manifest,
      ts_speed_bps = 0, ts_created_at = now, ts_updated_at = now\<rparr>"

definition update_progress :: "int \<Rightarrow> u64 \<Rightarrow> u64 \<Rightarrow> transfer_session \<Rightarrow> transfer_session" where
  "update_progress now bytes speed s = s\<lparr>ts_bytes_transferred := bytes, ts_speed_bps := speed,
     ts_state := Transferring, ts_updated_at := now\<rparr>"

definition complete_session :: "int \<Rightarrow> transfer_session \<Rightarrow> transfer_session" where
  "complete_session now s = s\<lparr>ts_state := Completed, ts_updated_at := now\<rparr>"

definition fail_session :: "int \<Rightarrow> transfer_session \<Rightarrow> transfer_session" where
  "fail_session now s = s\<lparr>ts_state := Failed, ts_updated_at := now\<rparr>"

definition cancel_session :: "int \<Rightarrow> transfer_session \<Rightarrow> transfer_session" where
  "cancel_session now s = s\<lparr>ts_state := Cancelled, ts_updated_at := now\<rparr>"

definition session_percent :: "transfer_session \<Rightarrow> nat" where
  "session_percent s =
     (if ts_total_bytes s = 0 then 100
      else f64_as_u8 (min (f64 (f64 (as_f64 (ts_bytes_transferred s) / as_f64 (ts_total_bytes s)) * 100)) 100))"

text \<open>It is the percentage that \<open>TransferProgress\<close> computes for the same counts.\<close>

lemma session_percent_eq:
  "tp_bytes_transferred p = ts_bytes_transferred s \<Longrightarrow> tp_total_bytes p = ts_total_bytes s \<Longrightarrow> session_percent s = percent p"
  by (auto simp: session_percent_def percent_def fraction_def f64_hundred f64_as_u8_def)

definition eta_secs :: "transfer_session \<Rightarrow> u64 option" where
  "eta_secs s =
     (if ts_speed_bps s = 0 \<or> ts_total_bytes s \<le> ts_bytes_transferred s then None
      else Some ((ts_total_bytes s - ts_bytes_transferred s) div ts_speed_bps s))"

definition session_is_terminal :: "transfer_session \<Rightarrow> bool" where
  "session_is_terminal s \<longleftrightarrow> ts_state s \<in> {Completed, Failed, Cancelled}"

section \<open>Events\<close>

datatype engine_event =
    PeerDiscovered peer
  | PeerLost string
  | PeerUpdated peer
  | IncomingTransferRequest transfer_id peer transfer_manifest "path list"
  | TransferAccepted transfer_id
  | TransferRejected transfer_id string
  | TransferProgressed transfer_progress
  | TransferCompleted transfer_id "path list"
  | TransferFailed transfer_id string
  | TransferCancelled transfer_id string
  | JoinHotspot string string
  | CreateHotspot
  | Started
  | Stopped
  | EngineErrorEvent string

section \<open>The engine\<close>

datatype engine_error = InitError string | DatabaseError string | EnPeerNotFound string
  | SessionNotFound transfer_id | TransferError string

fun engine_display :: "engine_error \<Rightarrow> string" where
  "engine_display (InitError m) = ''engine initialization failed: '' @ m"
| "engine_display (DatabaseError m) = ''database error: '' @ m"
| "engine_display (EnPeerNotFound m) = ''peer not found: '' @ m"
| "engine_display (SessionNotFound t) = ''session not found: '' @ t"
| "engine_display (TransferError m) = ''transfer error: '' @ m"

record 'k engine =
  en_identity :: "'k device_identity"
  en_db :: database
  en_config :: config
  en_peers :: "(string \<times> peer) list"
  en_sessions :: "(transfer_id \<times> transfer_session) list"
  en_events :: "engine_event list"
  en_running :: bool

definition emit_event :: "engine_event \<Rightarrow> 'k engine \<Rightarrow> 'k engine" where
  "emit_event ev e = e\<lparr>en_events := en_events e @ [ev]\<rparr>"

text \<open>
  \<open>d\<close> is the content of the database file, \<open>opened\<close> the outcome of opening it; \<open>started_engine\<close> is
  the value \<open>Engine::new\<close> returns once both have been loaded.
\<close>

definition started_engine :: "'k device_identity \<Rightarrow> database \<Rightarrow> config \<Rightarrow> 'k engine" where
  "started_engine identity d config =
     emit_event Started
       \<lparr>en_identity = identity, en_db = d, en_config = config, en_peers = [], en_sessions = [],
        en_events = [], en_running = True\<rparr>"

definition engine_new ::
  "host_env \<Rightarrow> 'k device_lib \<Rightarrow> config \<Rightarrow> path \<Rightarrow> (unit, string) result \<Rightarrow> database
   \<Rightarrow> ('a fs_scheme, 'k engine, engine_error) io" where
  "engine_new host lb config dir opened d =
     bind_io (map_err_io (\<lambda>e. InitError (''identity: '' @ identity_display e))
       (device_load_or_generate lb dir (device_name host config))) (\<lambda>identity.
     case db_open opened d of (r, d') \<Rightarrow>
     bind_io (lift_io (map_err (\<lambda>e. InitError (''database: '' @ jd_display e)) r)) (\<lambda>_.
     return_io (started_engine identity d' config)))"

definition engine_device_name :: "host_env \<Rightarrow> 'k engine \<Rightarrow> string" where
  "engine_device_name host e = device_name host (en_config e)"

definition device_fingerprint :: "'k engine \<Rightarrow> string" where
  "device_fingerprint e = fingerprint_full_hex (en_identity e)"

definition device_uuid :: "'k engine \<Rightarrow> string" where
  "device_uuid e = di_uuid (en_identity e)"

definition unnamed :: "string \<Rightarrow> bool" where
  "unnamed n \<longleftrightarrow> take 7 n = ''Device-''"

definition merge_peer :: "peer \<Rightarrow> peer \<Rightarrow> peer" where
  "merge_peer existing p =
     (let u1 = (if pe_fingerprint p = None then p\<lparr>pe_fingerprint := pe_fingerprint existing\<rparr> else p);
          u2 = (if pe_addr u1 = None then u1\<lparr>pe_addr := pe_addr existing\<rparr> else u1)
      in if unnamed (pe_name u2) \<and> \<not> unnamed (pe_name existing) then u2\<lparr>pe_name := pe_name existing\<rparr> else u2)"

definition check_trust :: "peer \<Rightarrow> 'k engine \<Rightarrow> peer \<times> bool \<times> 'k engine" where
  "check_trust p e =
     (case pe_fingerprint p of
        None \<Rightarrow> (p, False, e)
      | Some fp \<Rightarrow> (case get_trust fp (en_db e) of (trust, d) \<Rightarrow>
          (p\<lparr>pe_trust := trust\<rparr>, is_blocked trust, e\<lparr>en_db := d\<rparr>)))"

definition on_peer_discovered :: "peer \<Rightarrow> 'k engine \<Rightarrow> 'k engine" where
  "on_peer_discovered p0 e0 =
     (case check_trust p0 e0 of (p, blocked, e) \<Rightarrow>
      if blocked then e
      else (case map_of (en_peers e) (pe_device_id p) of
         Some existing \<Rightarrow> emit_event (PeerUpdated p)
           (e\<lparr>en_peers := AList.update (pe_device_id p) (merge_peer existing p) (en_peers e)\<rparr>)
       | None \<Rightarrow> emit_event (PeerDiscovered p)
           (e\<lparr>en_peers := AList.update (pe_device_id p) p (en_peers e)\<rparr>)))"

definition on_peer_lost :: "string \<Rightarrow> 'k engine \<Rightarrow> 'k engine" where
  "on_peer_lost device_id e =
     (if map_of (en_peers e) device_id = None then e
      else emit_event (PeerLost device_id) (e\<lparr>en_peers := AList.delete device_id (en_peers e)\<rparr>))"

definition visible_peers :: "'k engine \<Rightarrow> peer list" where
  "visible_peers e = filter is_visible (map snd (en_peers e))"

definition peer_count :: "'k engine \<Rightarrow> usize" where
  "peer_count e = length (filter is_visible (map snd (en_peers e)))"

fun platform_debug :: "platform \<Rightarrow> string" where
  "platform_debug Android = ''Android''"
| "platform_debug MacOS = ''MacOS''"
| "platform_debug Linux = ''Linux''"
| "platform_debug Windows = ''Windows''"
| "platform_debug UnknownPlatform = ''Unknown''"

definition set_peer_trust ::
  "string \<Rightarrow> trust_level \<Rightarrow> ('k engine, unit, engine_error) io" where
  "set_peer_trust fingerprint level e =
     (let found = List.find (\<lambda>(_, p). pe_fingerprint p = Some fingerprint) (en_peers e);
          (name, pf) = (case found of Some (_, p) \<Rightarrow> (pe_name p, platform_debug (pe_platform p))
                        | None \<Rightarrow> (''Unknown'', ''Unknown''))
      in case set_trust fingerprint name pf level (en_db e) of (r, d) \<Rightarrow>
         bind_io (lift_io (map_err (\<lambda>x. DatabaseError (jd_display x)) r)) (\<lambda>_ e.
           (Ok (), if is_blocked level
                   then (case List.find (\<lambda>(_, p). pe_fingerprint p = Some fingerprint) (en_peers e) of
                           Some (i, _) \<Rightarrow> on_peer_lost i e | None \<Rightarrow> e)
                   else e)) (e\<lparr>en_db := d\<rparr>))"

definition engine_send_files ::
  "int \<Rightarrow> uuid \<Rightarrow> string \<Rightarrow> path list \<Rightarrow> ('k engine, transfer_id, engine_error) io" where
  "engine_send_files now new_id device_id paths e =
     (case map_of (en_peers e) device_id of
        None \<Rightarrow> (Err (EnPeerNotFound device_id), e)
      | Some p \<Rightarrow>
          let session = new_send now new_id (case pe_fingerprint p of Some f \<Rightarrow> f | None \<Rightarrow> []) (pe_name p) paths
          in (Ok (ts_id session), e\<lparr>en_sessions := AList.update (ts_id session) session (en_sessions e)\<rparr>))"

definition accept_transfer :: "transfer_id \<Rightarrow> ('k engine, unit, engine_error) io" where
  "accept_transfer t e =
     (case map_of (en_sessions e) t of None \<Rightarrow> (Err (SessionNotFound t), e) | Some _ \<Rightarrow> (Ok (), e))"

definition end_session :: "int \<Rightarrow> string \<Rightarrow> transfer_id \<Rightarrow> ('k engine, unit, engine_error) io" where
  "end_session now reason t e =
     (case map_of (en_sessions e) t of
        None \<Rightarrow> (Err (SessionNotFound t), e)
      | Some s \<Rightarrow> (Ok (), emit_event (TransferCancelled t reason)
          (e\<lparr>en_sessions := AList.update t (cancel_session now s) (en_sessions e)\<rparr>)))"

definition reject_transfer :: "int \<Rightarrow> transfer_id \<Rightarrow> string \<Rightarrow> ('k engine, unit, engine_error) io" where
  "reject_transfer now t reason = end_session now reason t"

definition cancel_transfer :: "int \<Rightarrow> transfer_id \<Rightarrow> ('k engine, unit, engine_error) io" where
  "cancel_transfer now t = end_session now ''user cancelled'' t"

definition active_transfer_count :: "'k engine \<Rightarrow> usize" where
  "active_transfer_count e = length (filter (\<lambda>(_, s). \<not> session_is_terminal s) (en_sessions e))"

definition stop :: "int \<Rightarrow> 'k engine \<Rightarrow> 'k engine" where
  "stop now e =
     (if en_running e
      then emit_event Stopped (e\<lparr>en_running := False,
             en_sessions := map (\<lambda>(t, s). (t, if session_is_terminal s then s else cancel_session now s)) (en_sessions e)\<rparr>)
      else e)"

definition drop_engine :: "int \<Rightarrow> 'k engine \<Rightarrow> 'k engine" where
  "drop_engine now e = (if en_running e then stop now e else e)"

section \<open>Histories\<close>

text \<open>The calls of the platform layer; the peers it reports are made by the two constructors.\<close>

datatype engine_op =
    BleSighting int bytes u16 presence_state int
  | MdnsSighting int string socket_addr string platform
  | Lost string
  | SetPeerTrust string trust_level
  | SendFiles int uuid string "path list"
  | AcceptTransfer transfer_id
  | RejectTransfer int transfer_id string
  | CancelTransfer int transfer_id
  | Stop int

fun engine_step :: "engine_op \<Rightarrow> 'k engine \<Rightarrow> 'k engine" where
  "engine_step (BleSighting now i h pres rssi) e = on_peer_discovered (from_ble now i h pres rssi) e"
| "engine_step (MdnsSighting now n a f pf) e = on_peer_discovered (from_mdns now n a f pf) e"
| "engine_step (Lost i) e = on_peer_lost i e"
| "engine_step (SetPeerTrust f l) e = snd (set_peer_trust f l e)"
| "engine_step (SendFiles now u i ps) e = snd (engine_send_files now u i ps e)"
| "engine_step (AcceptTransfer t) e = snd (accept_transfer t e)"
| "engine_step (RejectTransfer now t r) e = snd (reject_transfer now t r e)"
| "engine_step (CancelTransfer now t) e = snd (cancel_transfer now t e)"
| "engine_step (Stop now) e = stop now e"

subsection \<open>Blocked peers\<close>

text \<open>
  No listed peer has a fingerprint that is blocked in the database; a peer with a fingerprint is
  listed under the first 16 characters of it, so there is one entry per fingerprint.
\<close>

definition peers_inv :: "'k engine \<Rightarrow> bool" where
  "peers_inv e \<longleftrightarrow> db_ready (en_db e) \<and> distinct (map fst (en_peers e))
     \<and> (\<forall>i p. map_of (en_peers e) i = Some p \<longrightarrow> pe_device_id p = i
          \<and> (\<forall>f. pe_fingerprint p = Some f \<longrightarrow> i = take 16 f \<and> peer_level (en_db e) f \<noteq> TBlocked))"

lemma blocked_iff: "is_blocked l \<longleftrightarrow> l = TBlocked"
  by (cases l) simp_all

lemma get_trust_db: "db_ready d \<Longrightarrow> get_trust f d = (peer_level d f, d\<lparr>db_ticks := Suc (db_ticks d)\<rparr>)"
  by (auto simp: get_trust_def db_ready_def sql_def with_table_def return_io_def peer_level_def Let_def
      split: option.split)

lemma db_ready_ticks [simp]: "db_ready (d\<lparr>db_ticks := n\<rparr>) = db_ready d" "peer_level (d\<lparr>db_ticks := n\<rparr>) = peer_level d"
  by (simp_all add: db_ready_def peer_level_def fun_eq_iff)

lemma merge_peer_fields [simp]:
  "pe_device_id (merge_peer q p) = pe_device_id p" "pe_trust (merge_peer q p) = pe_trust p"
  "pe_presence (merge_peer q p) = pe_presence p"
  "pe_fingerprint (merge_peer q p) = (case pe_fingerprint p of Some f \<Rightarrow> Some f | None \<Rightarrow> pe_fingerprint q)"
  by (auto simp: merge_peer_def Let_def split: option.split)

lemma discovered_inv:
  assumes "peers_inv e" and "\<forall>f. pe_fingerprint p = Some f \<longrightarrow> pe_device_id p = take 16 f"
  shows "peers_inv (on_peer_discovered p e)"
  using assms
  by (auto simp: peers_inv_def on_peer_discovered_def check_trust_def get_trust_db blocked_iff emit_event_def
      AList.update_conv' AList.distinct_update
      simp del: map_of_eq_Some_iff Some_eq_map_of_iff split: option.splits if_splits)

lemma lost_inv: "peers_inv e \<Longrightarrow> peers_inv (on_peer_lost i e)"
  by (auto simp: peers_inv_def on_peer_lost_def emit_event_def AList.delete_conv' AList.distinct_delete
      simp del: map_of_eq_Some_iff Some_eq_map_of_iff split: if_splits)


lemma find_fingerprint:
  assumes "peers_inv e" and "List.find (\<lambda>(_, p). pe_fingerprint p = Some f) (en_peers e) = Some (i, p)"
  shows "map_of (en_peers e) i = Some p" and "i = take 16 f"
proof -
  have "(i, p) \<in> set (en_peers e) \<and> pe_fingerprint p = Some f"
    using assms(2) by (auto simp: find_Some_iff) (metis nth_mem)
  then show m: "map_of (en_peers e) i = Some p" and "i = take 16 f"
    using assms(1) by (auto simp: peers_inv_def)
qed

lemma find_no_fingerprint:
  assumes "List.find (\<lambda>(_, p). pe_fingerprint p = Some f) (en_peers e) = None" and "map_of (en_peers e) i = Some p"
  shows "pe_fingerprint p \<noteq> Some f"
  using assms by (auto simp: find_None_iff dest: map_of_SomeD)

lemma set_peer_trust_eq:
  assumes "db_ready (en_db e)"
  obtains d where "db_ready d" and "peer_level d = (peer_level (en_db e))(f := l)"
    and "set_peer_trust f l e =
      (Ok (), if is_blocked l
              then (case List.find (\<lambda>(_, p). pe_fingerprint p = Some f) (en_peers e) of
                      Some (i, _) \<Rightarrow> on_peer_lost i (e\<lparr>en_db := d\<rparr>) | None \<Rightarrow> e\<lparr>en_db := d\<rparr>)
              else e\<lparr>en_db := d\<rparr>)"
proof -
  define np where "np = (case List.find (\<lambda>(_, p). pe_fingerprint p = Some f) (en_peers e) of
    Some (_, p) \<Rightarrow> (pe_name p, platform_debug (pe_platform p)) | None \<Rightarrow> (''Unknown'', ''Unknown''))"
  obtain d where d: "set_trust f (fst np) (snd np) l (en_db e) = (Ok (), d)" "db_ready d"
    "peer_level d = (peer_level (en_db e))(f := l)"
    using set_trust_ready [OF assms] by blast
  show thesis
    by (rule that [OF d(2,3)])
      (use d(1) [unfolded np_def] in \<open>cases "List.find (\<lambda>(_, p). pe_fingerprint p = Some f) (en_peers e)";
        simp add: set_peer_trust_def Let_def split_beta bind_io_def lift_io_def\<close>)
qed

lemma trust_inv:
  assumes inv: "peers_inv e"
  shows "peers_inv (snd (set_peer_trust f l e))"
proof -
  have rdy: "db_ready (en_db e)" using inv by (simp add: peers_inv_def)
  from set_peer_trust_eq [OF rdy, of f l] obtain d where d: "db_ready d" "peer_level d = (peer_level (en_db e))(f := l)"
    and st: "set_peer_trust f l e =
      (Ok (), if is_blocked l
              then (case List.find (\<lambda>(_, p). pe_fingerprint p = Some f) (en_peers e) of
                      Some (i, _) \<Rightarrow> on_peer_lost i (e\<lparr>en_db := d\<rparr>) | None \<Rightarrow> e\<lparr>en_db := d\<rparr>)
              else e\<lparr>en_db := d\<rparr>)" by blast
  show ?thesis
  proof (cases "List.find (\<lambda>(_, p). pe_fingerprint p = Some f) (en_peers e)")
    case None
    then show ?thesis
      using inv d find_no_fingerprint [OF None] unfolding st
      by (auto simp: peers_inv_def blocked_iff simp del: map_of_eq_Some_iff Some_eq_map_of_iff)
  next
    case (Some x)
    obtain i p where x: "x = (i, p)" by (cases x)
    note fp = find_fingerprint [OF inv Some [unfolded x]]
    show ?thesis
    proof (cases "l = TBlocked")
      case True
      then show ?thesis
        using inv d fp Some unfolding st
        by (auto simp: x peers_inv_def on_peer_lost_def emit_event_def AList.delete_conv' AList.distinct_delete
            simp del: map_of_eq_Some_iff Some_eq_map_of_iff split: if_splits)
    next
      case False
      then show ?thesis
        using inv d unfolding st
        by (auto simp: peers_inv_def blocked_iff simp del: map_of_eq_Some_iff Some_eq_map_of_iff)
    qed
  qed
qed

lemma session_ops_peers [simp]:
  "en_peers (snd (engine_send_files n u i ps e)) = en_peers e" "en_db (snd (engine_send_files n u i ps e)) = en_db e"
  "en_peers (snd (accept_transfer t e)) = en_peers e" "en_db (snd (accept_transfer t e)) = en_db e"
  "en_peers (snd (end_session n r t e)) = en_peers e" "en_db (snd (end_session n r t e)) = en_db e"
  "en_peers (stop n e) = en_peers e" "en_db (stop n e) = en_db e"
  by (auto simp: engine_send_files_def accept_transfer_def end_session_def stop_def emit_event_def Let_def
      split: option.split)

lemma peers_inv_cong:
  "en_peers e' = en_peers e \<Longrightarrow> en_db e' = en_db e \<Longrightarrow> peers_inv e' \<longleftrightarrow> peers_inv e"
  by (simp add: peers_inv_def)

lemma session_ops_inv [simp]:
  "peers_inv (snd (engine_send_files n u i ps e)) = peers_inv e" "peers_inv (snd (accept_transfer t e)) = peers_inv e"
  "peers_inv (snd (end_session n r t e)) = peers_inv e" "peers_inv (stop n e) = peers_inv e"
  by (rule peers_inv_cong; simp)+

lemma step_inv: "peers_inv e \<Longrightarrow> peers_inv (engine_step op e)"
  by (cases op)
    (auto simp: discovered_inv lost_inv trust_inv from_ble_def from_mdns_def reject_transfer_def cancel_transfer_def)

definition run_engine :: "engine_op list \<Rightarrow> 'k engine \<Rightarrow> 'k engine" where
  "run_engine ops e = fold engine_step ops e"

lemma engine_run_inv: "peers_inv e \<Longrightarrow> peers_inv (run_engine ops e)"
  unfolding run_engine_def by (induction ops arbitrary: e) (simp_all add: step_inv)

lemma started_inv: "db_ready d \<Longrightarrow> peers_inv (started_engine k d c)"
  by (simp add: peers_inv_def started_engine_def emit_event_def)

lemma listed_map:
  assumes "peers_inv e" shows "map pe_device_id (map snd (en_peers e)) = map fst (en_peers e)"
  using assms by (auto simp: peers_inv_def)

lemma visible_listed:
  assumes "peers_inv e" and "p \<in> set (visible_peers e)" and "pe_fingerprint p = Some f"
  shows "pe_device_id p = take 16 f \<and> fst (get_trust f (en_db e)) \<noteq> TBlocked"
  using assms by (auto simp: visible_peers_def peers_inv_def get_trust_ready)

lemma visible_distinct:
  assumes "peers_inv e" shows "distinct (map pe_device_id (visible_peers e))"
proof -
  have "distinct (map pe_device_id (map snd (en_peers e)))"
    using assms listed_map [OF assms] by (simp only: peers_inv_def)
  then show ?thesis unfolding visible_peers_def by (rule distinct_map_filter)
qed

text \<open>
  C30. A blocked device that has authenticated itself is not offered to the user: after any history of
  discoveries, losses, trust changes and transfers of an engine over a working database, every
  peer on the list that the user sees and that carries a fingerprint has a level other than
  \<open>Blocked\<close> in the database, whatever level the peer itself carries, and is listed once.
\<close>

theorem blocked_peers_not_listed:
  assumes "db_ready d"
  shows "distinct (map pe_device_id (visible_peers (run_engine ops (started_engine k d c))))
    \<and> (\<forall>p \<in> set (visible_peers (run_engine ops (started_engine k d c))). \<forall>f. pe_fingerprint p = Some f \<longrightarrow>
        pe_device_id p = take 16 f
        \<and> fst (get_trust f (en_db (run_engine ops (started_engine k d c)))) \<noteq> TBlocked)"
  using visible_distinct visible_listed engine_run_inv [OF started_inv [OF assms]] by blast

definition demo_engine :: "nat engine" where
  "demo_engine = started_engine
     \<lparr>di_uuid = ''u'', di_name = ''Laptop'', di_keypair = 7, di_pkcs8_bytes = [], di_fingerprint = [],
      di_storage_path = Path True []\<rparr> demo_open_db
     default_config"

definition demo_ops :: "engine_op list" where
  "demo_ops = [MdnsSighting 1 ''Pixel'' ''10.0.0.2:42420'' ''f1'' Android, SetPeerTrust ''f1'' TBlocked,
     MdnsSighting 2 ''Pixel'' ''10.0.0.2:42420'' ''f1'' Android, MdnsSighting 3 ''Mac'' ''10.0.0.3:42420'' ''f2'' MacOS]"

lemma demo_open_db_eq:
  "demo_open_db = \<lparr>db_version = Some (Some 1), db_peers = Some [], db_history = Some [], db_resume = Some [],
     db_now = 0, db_fault = (\<lambda>_. None), db_ticks = db_ticks demo_open_db\<rparr>"
  by (simp add: demo_open_db_def demo_db_def db_open_def migrate_def bind_io_def jd_err_def map_err_io_def sql_def
      lift_io_def return_io_def Let_def create_version_table_def select_version_def v001_def upsert_version_def
      SCHEMA_VERSION_def)

lemma demo_engine_eq:
  "demo_engine = \<lparr>en_identity = en_identity demo_engine, en_db = \<lparr>db_version = Some (Some 1), db_peers = Some [],
     db_history = Some [], db_resume = Some [], db_now = 0, db_fault = (\<lambda>_. None), db_ticks = db_ticks demo_open_db\<rparr>,
     en_config = en_config demo_engine, en_peers = [], en_sessions = [], en_events = [Started], en_running = True\<rparr>"
  using demo_open_db_eq by (simp add: demo_engine_def started_engine_def emit_event_def)

lemmas engine_eval = run_engine_def on_peer_discovered_def check_trust_def get_trust_def emit_event_def
  set_peer_trust_def on_peer_lost_def visible_peers_def is_visible_def set_trust_def jd_err_def map_err_io_def
  sql_def Let_def upsert_peer_def with_table_def bind_io_def lift_io_def return_io_def parse_str_def
  from_mdns_def from_ble_def hex_byte_def hex16_def digit_char_def

theorem blocked_peers_not_listed_witness:
  "map (\<lambda>p. (pe_name p, pe_fingerprint p)) (visible_peers (run_engine demo_ops demo_engine)) = [(''Mac'', Some ''f2'')]
    \<and> fst (get_trust ''f2'' (en_db (run_engine demo_ops demo_engine))) \<noteq> TBlocked"
proof -
  have v: "map (\<lambda>p. (pe_name p, pe_fingerprint p)) (visible_peers (run_engine demo_ops demo_engine)) = [(''Mac'', Some ''f2'')]"
    by (subst demo_engine_eq, simp add: engine_eval demo_ops_def)
  then obtain p where "p \<in> set (visible_peers (run_engine demo_ops demo_engine))" "pe_fingerprint p = Some ''f2''"
    by (auto simp: map_eq_Cons_conv)
  then show ?thesis
    using v blocked_peers_not_listed [OF demo_open_db(1)] unfolding demo_engine_def by blast
qed

text \<open>
  The list rests on the fingerprint: a sighting over BLE carries none, so a blocked device that
  advertises the same device identifier is listed again as a new, unknown and visible peer.
\<close>

lemma ble_sighting_unblocks:
  "map pe_name (visible_peers (run_engine
      [MdnsSighting 1 ''Pixel'' ''10.0.0.2:42420'' ''00112233445566778899'' Android,
       SetPeerTrust ''00112233445566778899'' TBlocked,
       BleSighting 2 [0, 17, 34, 51, 68, 85, 102, 119] 4660 PAvailable (- 40)] demo_engine))
    = [''Device-1234'']"
  by (subst demo_engine_eq, simp add: engine_eval)

subsection \<open>The event stream\<close>

fun peer_news :: "engine_event \<Rightarrow> news" where
  "peer_news (PeerDiscovered p) = Appears (pe_device_id p)"
| "peer_news (PeerUpdated p) = Refreshed (pe_device_id p)"
| "peer_news (PeerLost i) = Gone i"
| "peer_news _ = NoNews"

definition listed_ids :: "'k engine \<Rightarrow> string set" where
  "listed_ids e = fst ` set (en_peers e)"

lemma emit_fields [simp]: "en_peers (emit_event ev e) = en_peers e" "en_db (emit_event ev e) = en_db e"
  "en_sessions (emit_event ev e) = en_sessions e" "en_running (emit_event ev e) = en_running e"
  "en_events (emit_event ev e) = en_events e @ [ev]" "listed_ids (emit_event ev e) = listed_ids e"
  by (simp_all add: emit_event_def listed_ids_def)

lemma listed_cong [simp]:
  "listed_ids (e\<lparr>en_db := d\<rparr>) = listed_ids e" "listed_ids (e\<lparr>en_peers := ps\<rparr>) = fst ` set ps"
  "listed_ids (e\<lparr>en_sessions := ss\<rparr>) = listed_ids e" "listed_ids (e\<lparr>en_running := b\<rparr>) = listed_ids e"
  by (simp_all add: listed_ids_def)

lemma listed_iff: "map_of (en_peers e) i = None \<longleftrightarrow> i \<notin> listed_ids e"
  by (simp add: map_of_eq_None_iff listed_ids_def)

abbreviation engine_reports :: "'k engine \<Rightarrow> 'k engine \<Rightarrow> bool" where
  "engine_reports e e' \<equiv> reports peer_news (en_events e) (listed_ids e) (en_events e') (listed_ids e')"

lemma discovered_reports: "engine_reports e (on_peer_discovered p e)"
proof -
  obtain p' b e' where ct: "check_trust p e = (p', b, e')" by (cases "check_trust p e")
  then have e': "en_events e' = en_events e" "listed_ids e' = listed_ids e"
    by (auto simp: check_trust_def split: option.splits prod.splits)
  show ?thesis
  proof (cases "map_of (en_peers e') (pe_device_id p')")
    case None
    then show ?thesis using e' listed_iff [of e' "pe_device_id p'"]
      by (auto simp: on_peer_discovered_def ct AList.dom_update listed_ids_def [symmetric])
  next
    case (Some q)
    then have "pe_device_id p' \<in> listed_ids e'" using listed_iff [of e' "pe_device_id p'"] by simp
    then show ?thesis using e' Some
      by (auto simp: on_peer_discovered_def ct AList.dom_update listed_ids_def [symmetric] insert_absorb
          simp del: map_of_eq_Some_iff)
  qed
qed

lemma lost_reports: "engine_reports e (on_peer_lost i e)"
  using listed_iff [of e i] by (auto simp: on_peer_lost_def keys_delete listed_ids_def [symmetric])

lemma set_peer_trust_cases:
  obtains d where "snd (set_peer_trust f l e) = e\<lparr>en_db := d\<rparr>"
  | d i where "snd (set_peer_trust f l e) = on_peer_lost i (e\<lparr>en_db := d\<rparr>)"
proof -
  have "(\<exists>d. snd (set_peer_trust f l e) = e\<lparr>en_db := d\<rparr>)
    \<or> (\<exists>d i. snd (set_peer_trust f l e) = on_peer_lost i (e\<lparr>en_db := d\<rparr>))"
    by (simp add: set_peer_trust_def Let_def bind_io_def lift_io_def split: prod.split result.split option.split) blast
  then show thesis using that by blast
qed

lemma trust_reports: "engine_reports e (snd (set_peer_trust f l e))"
proof (rule set_peer_trust_cases [of f l e])
  fix d i assume "snd (set_peer_trust f l e) = on_peer_lost i (e\<lparr>en_db := d\<rparr>)"
  then show ?thesis using lost_reports [of "e\<lparr>en_db := d\<rparr>" i] by simp
qed simp

lemma session_ops_report [simp]:
  "engine_reports e (snd (engine_send_files n u i ps e))" "engine_reports e (snd (accept_transfer t e))"
  "engine_reports e (snd (end_session n r t e))" "engine_reports e (stop n e)"
  by (auto simp: engine_send_files_def accept_transfer_def end_session_def stop_def Let_def split: option.split)

interpretation engine_peers: device_registry peer_news en_events listed_ids engine_step
proof
  fix e :: "'a engine" and op
  show "engine_reports e (engine_step op e)"
    by (cases op)
      (simp_all add: discovered_reports lost_reports trust_reports reject_transfer_def cancel_transfer_def)
qed

lemma engine_heard:
  "heard peer_news (en_events (run_engine ops (started_engine k d c)))
     = Some (fst ` set (en_peers (run_engine ops (started_engine k d c))))"
  unfolding run_engine_def listed_ids_def [symmetric]
  by (rule engine_peers.run_heard) (simp add: started_engine_def emit_event_def heard_def listed_ids_def)

subsection \<open>Sessions over time\<close>

lemma terminal_cancel [simp]: "session_is_terminal (cancel_session n s)"
  by (simp add: session_is_terminal_def cancel_session_def)

lemma peer_ops_sessions [simp]:
  "en_sessions (on_peer_discovered p e) = en_sessions e" "en_sessions (on_peer_lost i e) = en_sessions e"
  "en_running (on_peer_discovered p e) = en_running e" "en_running (on_peer_lost i e) = en_running e"
  by (auto simp: on_peer_discovered_def check_trust_def on_peer_lost_def split: option.split prod.split)

lemma trust_sessions [simp]:
  "en_sessions (snd (set_peer_trust f l e)) = en_sessions e" "en_running (snd (set_peer_trust f l e)) = en_running e"
  by (rule set_peer_trust_cases [of f l e]; simp)+

lemma session_step_running [simp]:
  "en_running (snd (engine_send_files n u i ps e)) = en_running e" "en_running (snd (accept_transfer t e)) = en_running e"
  "en_running (snd (end_session n r t e)) = en_running e" "\<not> en_running (stop n e)"
  by (auto simp: engine_send_files_def accept_transfer_def end_session_def stop_def Let_def split: option.split)

lemma map_of_stop:
  "map_of (en_sessions (stop n e)) t =
     (if en_running e
      then map_option (\<lambda>s. if session_is_terminal s then s else cancel_session n s) (map_of (en_sessions e) t)
      else map_of (en_sessions e) t)"
  by (simp add: stop_def map_of_map)

text \<open>Only \<open>send_files\<close> makes a session active, under the identifier it has drawn.\<close>

fun sends_as :: "engine_op \<Rightarrow> uuid option" where
  "sends_as (SendFiles _ u _ _) = Some u"
| "sends_as _ = None"

definition active_sessions :: "'k engine \<Rightarrow> (transfer_id \<times> transfer_session) list" where
  "active_sessions e = filter (\<lambda>(_, s). \<not> session_is_terminal s) (en_sessions e)"

lemma active_count: "active_transfer_count e = length (active_sessions e)"
  by (simp add: active_transfer_count_def active_sessions_def)

lemma step_active:
  "(t, s) \<in> set (active_sessions (engine_step op e)) \<Longrightarrow> (t, s) \<in> set (active_sessions e) \<or> sends_as op = Some t"
  by (cases op)
    (auto simp: active_sessions_def reject_transfer_def cancel_transfer_def end_session_def accept_transfer_def
      engine_send_files_def stop_def new_send_def Let_def dest!: set_alist_update
      split: option.splits if_splits)

lemma run_active:
  "(t, s) \<in> set (active_sessions (run_engine ops e)) \<Longrightarrow> (t, s) \<in> set (active_sessions e) \<or> Some t \<in> sends_as ` set ops"
  unfolding run_engine_def
proof (induction ops arbitrary: e)
  case (Cons op ops)
  then consider "(t, s) \<in> set (active_sessions (engine_step op e))" | "Some t \<in> sends_as ` set ops" by fastforce
  then show ?case by cases (use step_active [of t s op e] in auto)
qed simp

lemma stop_none_active: "en_running e \<Longrightarrow> active_sessions (stop n e) = []"
  by (auto simp: active_sessions_def stop_def filter_empty_conv split: if_splits)

lemma run_append: "run_engine (xs @ ys) e = run_engine ys (run_engine xs e)"
  by (simp add: run_engine_def)

lemma run_Cons: "run_engine (op # ops) e = run_engine ops (engine_step op e)"
  by (simp add: run_engine_def)

lemma cancelled_step:
  assumes "map_of (en_sessions e) t = Some (cancel_session m s)" and "sends_as op \<noteq> Some t"
  shows "\<exists>m. map_of (en_sessions (engine_step op e)) t = Some (cancel_session m s)"
  using assms
  by (cases op)
    (auto simp: reject_transfer_def cancel_transfer_def end_session_def accept_transfer_def engine_send_files_def
      map_of_stop AList.update_conv' new_send_def Let_def cancel_session_def session_is_terminal_def
      simp del: map_of_eq_Some_iff Some_eq_map_of_iff split: option.splits)

lemma cancelled_run:
  assumes "map_of (en_sessions e) t = Some (cancel_session m s)" and "\<forall>op \<in> set ops. sends_as op \<noteq> Some t"
  shows "\<exists>m. map_of (en_sessions (run_engine ops e)) t = Some (cancel_session m s)"
  using assms
proof (induction ops arbitrary: e m)
  case (Cons op ops)
  then show ?case using cancelled_step [of e t m s op] by (auto simp: run_Cons)
qed (auto simp: run_engine_def)

text \<open>
  A cancelled transfer stays cancelled: cancelling a session succeeds and tells the listener, and no
  later history of the engine changes anything of it but the time of its last update (it is not
  forgotten, resumed or completed), unless \<open>send_files\<close> draws its identifier a second time.
\<close>

theorem cancelled_stays_cancelled:
  assumes "map_of (en_sessions e) t = Some s" and "\<forall>op \<in> set ops. sends_as op \<noteq> Some t"
  shows "\<exists>m e'. cancel_transfer now t e = (Ok (), e')
    \<and> last (en_events e') = TransferCancelled t ''user cancelled''
    \<and> map_of (en_sessions (run_engine ops e')) t = Some (cancel_session m s)"
proof -
  obtain e' where e': "cancel_transfer now t e = (Ok (), e')"
    "last (en_events e') = TransferCancelled t ''user cancelled''"
    "map_of (en_sessions e') t = Some (cancel_session now s)"
    using assms(1) by (simp add: cancel_transfer_def end_session_def emit_event_def AList.update_conv'
      del: map_of_eq_Some_iff Some_eq_map_of_iff)
  then show ?thesis using cancelled_run [OF e'(3) assms(2)] by blast
qed

theorem cancelled_stays_cancelled_witness:
  "\<exists>m e'. cancel_transfer 5 ''t'' (run_engine
       [MdnsSighting 1 ''Pixel'' ''10.0.0.2:42420'' ''f1'' Android, SendFiles 3 ''t'' ''f1'' []] demo_engine) = (Ok (), e')
    \<and> last (en_events e') = TransferCancelled ''t'' ''user cancelled''
    \<and> map_of (en_sessions (run_engine [SendFiles 6 ''u'' ''f1'' [], AcceptTransfer ''t'', Stop 7] e')) ''t''
      = Some (cancel_session m (new_send 3 ''t'' ''f1'' ''Pixel'' []))"
  by (rule cancelled_stays_cancelled)
    (subst demo_engine_eq, simp_all add: engine_eval engine_send_files_def new_send_def)

definition stop_told :: "'k engine \<Rightarrow> bool" where
  "stop_told e \<longleftrightarrow> count_list (en_events e) Stopped = (if en_running e then 0 else 1)"

lemma stopped_count [simp]:
  "count_list (en_events (emit_event ev e)) Stopped = count_list (en_events e) Stopped + (if ev = Stopped then 1 else 0)"
  by (simp add: emit_event_def)

lemma discovered_stops [simp]:
  "count_list (en_events (on_peer_discovered p e)) Stopped = count_list (en_events e) Stopped"
  by (auto simp: on_peer_discovered_def check_trust_def split: option.split prod.split)

lemma lost_stops [simp]: "count_list (en_events (on_peer_lost i e)) Stopped = count_list (en_events e) Stopped"
  by (auto simp: on_peer_lost_def)

lemma trust_stops [simp]:
  "count_list (en_events (snd (set_peer_trust f l e))) Stopped = count_list (en_events e) Stopped"
  by (rule set_peer_trust_cases [of f l e]) simp_all

lemma step_stop_told: "stop_told e \<Longrightarrow> stop_told (engine_step op e)"
  by (cases op)
    (auto simp: stop_told_def reject_transfer_def cancel_transfer_def end_session_def accept_transfer_def
      engine_send_files_def stop_def Let_def split: option.splits)

lemma run_stop_told: "stop_told e \<Longrightarrow> stop_told (run_engine ops e)"
  unfolding run_engine_def by (induction ops arbitrary: e) (simp_all add: step_stop_told)

lemma step_running: "en_running (engine_step op e) = (en_running e \<and> (\<forall>n. op \<noteq> Stop n))"
  by (cases op) (auto simp: reject_transfer_def cancel_transfer_def)

lemma run_running: "en_running (run_engine ops e) = (en_running e \<and> (\<forall>op \<in> set ops. \<forall>n. op \<noteq> Stop n))"
  unfolding run_engine_def by (induction ops arbitrary: e) (auto simp: step_running)

text \<open>
  C25. Stopping ends every transfer, once: if an engine is stopped for the first time after a history of
  calls, then after any later calls other than \<open>send_files\<close> (a second stop and the drop included) no
  transfer is active, the engine is not running, and the listener has been told exactly once.
\<close>

theorem stop_ends_all_transfers:
  assumes "\<forall>op \<in> set before. \<forall>n. op \<noteq> Stop n" and "\<forall>op \<in> set after. sends_as op = None"
  shows "let e = drop_engine m (run_engine (before @ Stop n # after) (started_engine k d c))
     in active_transfer_count e = 0 \<and> \<not> en_running e \<and> count_list (en_events e) Stopped = 1"
proof -
  define e0 where "e0 = run_engine before (started_engine k d c)"
  define e1 where "e1 = run_engine after (stop n e0)"
  have e1: "run_engine (before @ Stop n # after) (started_engine k d c) = e1"
    by (simp add: e1_def e0_def run_append run_Cons)
  have "en_running e0" using assms(1) by (auto simp: e0_def run_running started_engine_def)
  then have "(t, s) \<notin> set (active_sessions e1)" for t s
    using run_active [of t s after "stop n e0"] assms(2) stop_none_active [of e0 n] by (auto simp: e1_def)
  then have "active_sessions e1 = []" by (cases "active_sessions e1") (simp, metis list.set_intros(1) surj_pair)
  moreover have "\<not> en_running e1" by (simp add: e1_def run_running)
  moreover have "stop_told e1"
    unfolding e1 [symmetric] by (rule run_stop_told) (simp add: stop_told_def started_engine_def)
  ultimately show ?thesis by (simp add: e1 Let_def drop_engine_def active_count stop_told_def)
qed

theorem stop_ends_all_transfers_witness:
  "let e = drop_engine 9 (run_engine ([MdnsSighting 1 ''Pixel'' ''10.0.0.2:42420'' ''f1'' Android, SendFiles 3 ''t'' ''f1'' []]
       @ Stop 4 # [CancelTransfer 5 ''t'', Stop 6]) demo_engine)
   in active_transfer_count e = 0 \<and> \<not> en_running e \<and> count_list (en_events e) Stopped = 1"
  unfolding demo_engine_def by (rule stop_ends_all_transfers) simp_all

text \<open>A session opened after the stop is never ended: neither a second stop nor the drop looks at it.\<close>

lemma session_after_stop_survives:
  "active_transfer_count (drop_engine 9 (run_engine
     [MdnsSighting 1 ''Pixel'' ''10.0.0.2:42420'' ''f1'' Android, Stop 2, SendFiles 3 ''t'' ''f1'' [], Stop 4] demo_engine)) = 1"
  by (subst demo_engine_eq, simp add: engine_eval drop_engine_def stop_def engine_send_files_def
      active_transfer_count_def session_is_terminal_def new_send_def)

end
