(* ===== verification/Bindings.thy ===== *)
theory Bindings
  imports Engine
begin

text \<open>
  \<open>crates/justdrop-ffi/src/lib.rs\<close>: the types handed to Swift and Kotlin, their conversions, the bridge
  from engine events to the callbacks of the application, and the wrapper around the engine.
  Parsing the text of a UUID (crate \<open>uuid\<close>) is a parameter. The application's handler is the list of the
  calls it has received.
\<close>

section \<open>Types of the interface\<close>

datatype ffi_trust = FfiUnknown | FfiTrusted | FfiFavorite | FfiBlocked

fun trust_to_ffi :: "trust_level \<Rightarrow> ffi_trust" where
  "trust_to_ffi TUnknown = FfiUnknown"
| "trust_to_ffi TTrusted = FfiTrusted"
| "trust_to_ffi TFavorite = FfiFavorite"
| "trust_to_ffi TBlocked = FfiBlocked"

fun trust_from_ffi :: "ffi_trust \<Rightarrow> trust_level" where
  "trust_from_ffi FfiUnknown = TUnknown"
| "trust_from_ffi FfiTrusted = TTrusted"
| "trust_from_ffi FfiFavorite = TFavorite"
| "trust_from_ffi FfiBlocked = TBlocked"

datatype ffi_presence = FfiIdle | FfiAvailable | FfiReceiving | FfiBusy | FfiInvisible

fun presence_to_ffi :: "presence_state \<Rightarrow> ffi_presence" where
  "presence_to_ffi PIdle = FfiIdle"
| "presence_to_ffi PAvailable = FfiAvailable"
| "presence_to_ffi PReceiving = FfiReceiving"
| "presence_to_ffi PBusy = FfiBusy"
| "presence_to_ffi PInvisible = FfiInvisible"

datatype ffi_platform = FfiMacOS | FfiAndroid | FfiWindows | FfiLinux | FfiUnknownPlatform

fun platform_to_ffi :: "platform \<Rightarrow> ffi_platform" where
  "platform_to_ffi MacOS = FfiMacOS"
| "platform_to_ffi Android = FfiAndroid"
| "platform_to_ffi Windows = FfiWindows"
| "platform_to_ffi Linux = FfiLinux"
| "platform_to_ffi UnknownPlatform = FfiUnknownPlatform"

datatype ffi_direction = FfiSend | FfiReceive

datatype ffi_status = FfiNegotiating | FfiTransferring | FfiVerifying | FfiCompleted | FfiFailed | FfiCancelled

record peer_info =
  pi_device_id :: string
  pi_name :: string
  pi_fingerprint :: "string option"
  pi_platform :: ffi_platform
  pi_presence :: ffi_presence
  pi_trust :: ffi_trust
  pi_address :: "string option"
  pi_rssi :: "int option"
  pi_battery :: "nat option"

definition peer_to_ffi :: "peer \<Rightarrow> peer_info" where
  "peer_to_ffi p =
     \<lparr>pi_device_id = pe_device_id p, pi_name = pe_name p, pi_fingerprint = pe_fingerprint p,
      pi_platform = platform_to_ffi (pe_platform p), pi_presence = presence_to_ffi (pe_presence p),
      pi_trust = trust_to_ffi (pe_trust p), pi_address = pe_addr p, pi_rssi = pe_rssi p, pi_battery = pe_battery p\<rparr>"

record transfer_info =
  ti_transfer_id :: string
  ti_peer_name :: string
  ti_direction :: ffi_direction
  ti_status :: ffi_status
  ti_bytes_transferred :: u64
  ti_total_bytes :: u64
  ti_speed_bps :: u64
  ti_percent :: nat
  ti_eta_secs :: "u64 option"

record file_info =
  fi_name :: string
  fi_size :: u64
  fi_mime_type :: string

record incoming_request =
  ir_transfer_id :: string
  ir_peer :: peer_info
  ir_files :: "file_info list"
  ir_total_size :: u64

datatype ffi_error = FfiInitFailed | FfiNotRunning | FfiPeerNotFound | FfiTransferFailed
  | FfiInvalidArgument | FfiDatabaseError

fun ffi_display :: "ffi_error \<Rightarrow> string" where
  "ffi_display FfiInitFailed = ''initialization failed''"
| "ffi_display FfiNotRunning = ''engine not running''"
| "ffi_display FfiPeerNotFound = ''peer not found''"
| "ffi_display FfiTransferFailed = ''transfer failed''"
| "ffi_display FfiInvalidArgument = ''invalid argument''"
| "ffi_display FfiDatabaseError = ''database error''"

fun error_to_ffi :: "engine_error \<Rightarrow> ffi_error" where
  "error_to_ffi (InitError _) = FfiInitFailed"
| "error_to_ffi (DatabaseError _) = FfiDatabaseError"
| "error_to_ffi (EnPeerNotFound _) = FfiPeerNotFound"
| "error_to_ffi (SessionNotFound _) = FfiTransferFailed"
| "error_to_ffi (TransferError _) = FfiTransferFailed"

section \<open>Callbacks\<close>

datatype callback =
    OnPeerDiscovered peer_info
  | OnPeerLost string
  | OnPeerUpdated peer_info
  | OnIncomingRequest incoming_request
  | OnTransferAccepted string
  | OnTransferRejected string string
  | OnTransferProgress transfer_info
  | OnTransferCompleted string "string list"
  | OnTransferFailed string string
  | OnTransferCancelled string string
  | OnJoinHotspot string string
  | OnCreateHotspot
  | OnEngineStarted
  | OnEngineStopped
  | OnError string

fun on_event :: "engine_event \<Rightarrow> callback" where
  "on_event (PeerDiscovered p) = OnPeerDiscovered (peer_to_ffi p)"
| "on_event (PeerLost i) = OnPeerLost i"
| "on_event (PeerUpdated p) = OnPeerUpdated (peer_to_ffi p)"
| "on_event (IncomingTransferRequest t p m previews) = OnIncomingRequest
     \<lparr>ir_transfer_id = t, ir_peer = peer_to_ffi p,
      ir_files = map (\<lambda>f. \<lparr>fi_name = fe_relative_path f, fi_size = fe_size f, fi_mime_type = fe_mime_type f\<rparr>) (mf_files m),
      ir_total_size = mf_total_size m\<rparr>"
| "on_event (TransferAccepted t) = OnTransferAccepted t"
| "on_event (TransferRejected t r) = OnTransferRejected t r"
| "on_event (TransferProgressed p) = OnTransferProgress
     \<lparr>ti_transfer_id = tp_transfer_id p, ti_peer_name = [], ti_direction = FfiSend, ti_status = FfiTransferring,
      ti_bytes_transferred = tp_bytes_transferred p, ti_total_bytes = tp_total_bytes p, ti_speed_bps = tp_speed_bps p,
      ti_percent = percent p, ti_eta_secs = tp_eta_secs p\<rparr>"
| "on_event (TransferCompleted t ps) = OnTransferCompleted t (map path_display ps)"
| "on_event (TransferFailed t e) = OnTransferFailed t e"
| "on_event (TransferCancelled t r) = OnTransferCancelled t r"
| "on_event (JoinHotspot ssid pass) = OnJoinHotspot ssid pass"
| "on_event CreateHotspot = OnCreateHotspot"
| "on_event Started = OnEngineStarted"
| "on_event Stopped = OnEngineStopped"
| "on_event (EngineErrorEvent m) = OnError m"

text \<open>The engine calls the bridge once for each event, in order.\<close>

definition handler_calls :: "'k engine \<Rightarrow> callback list" where
  "handler_calls e = map on_event (en_events e)"

section \<open>The wrapper\<close>

definition ffi_new ::
  "host_env \<Rightarrow> 'k device_lib \<Rightarrow> (bytes \<Rightarrow> (config, string) result) \<Rightarrow> string \<Rightarrow> string option
   \<Rightarrow> (unit, string) result \<Rightarrow> database \<Rightarrow> ('a fs_scheme, 'k engine, ffi_error) io" where
  "ffi_new host lb toml dir_text config_path opened d =
     bind_io (case config_path of
         Some p \<Rightarrow> map_err_io (\<lambda>_. FfiInitFailed) (config_load toml (path_of p))
       | None \<Rightarrow> return_io default_config) (\<lambda>config.
       map_err_io error_to_ffi (engine_new host lb config (path_of dir_text) opened d))"

definition ffi_visible_peers :: "'k engine \<Rightarrow> peer_info list" where
  "ffi_visible_peers e = map peer_to_ffi (visible_peers e)"

definition ffi_peer_count :: "'k engine \<Rightarrow> u32" where
  "ffi_peer_count e = as_u32 (peer_count e)"

definition ffi_start_discovery :: "('k engine, unit, ffi_error) io" where
  "ffi_start_discovery e = (Ok (), e)"

definition ffi_stop_discovery :: "'k engine \<Rightarrow> 'k engine" where
  "ffi_stop_discovery e = e"

definition ffi_set_peer_trust :: "string \<Rightarrow> ffi_trust \<Rightarrow> ('k engine, unit, ffi_error) io" where
  "ffi_set_peer_trust fingerprint level = map_err_io error_to_ffi (set_peer_trust fingerprint (trust_from_ffi level))"

definition ffi_send_files :: "int \<Rightarrow> uuid \<Rightarrow> string \<Rightarrow> string list \<Rightarrow> ('k engine, string, ffi_error) io" where
  "ffi_send_files now new_id device_id file_paths =
     map_err_io error_to_ffi (engine_send_files now new_id device_id (map path_of file_paths))"

definition with_uuid ::
  "(string \<Rightarrow> uuid option) \<Rightarrow> string \<Rightarrow> (transfer_id \<Rightarrow> ('k engine, unit, engine_error) io)
   \<Rightarrow> ('k engine, unit, ffi_error) io" where
  "with_uuid parse_uuid t f e =
     (case parse_uuid t of None \<Rightarrow> (Err FfiInvalidArgument, e) | Some i \<Rightarrow> map_err_io error_to_ffi (f i) e)"

definition ffi_accept_transfer :: "(string \<Rightarrow> uuid option) \<Rightarrow> string \<Rightarrow> ('k engine, unit, ffi_error) io" where
  "ffi_accept_transfer parse_uuid t = with_uuid parse_uuid t accept_transfer"

definition ffi_reject_transfer ::
  "(string \<Rightarrow> uuid option) \<Rightarrow> int \<Rightarrow> string \<Rightarrow> string \<Rightarrow> ('k engine, unit, ffi_error) io" where
  "ffi_reject_transfer parse_uuid now t reason = with_uuid parse_uuid t (\<lambda>i. reject_transfer now i reason)"

definition ffi_cancel_transfer :: "(string \<Rightarrow> uuid option) \<Rightarrow> int \<Rightarrow> string \<Rightarrow> ('k engine, unit, ffi_error) io" where
  "ffi_cancel_transfer parse_uuid now t = with_uuid parse_uuid t (cancel_transfer now)"

definition ffi_active_transfer_count :: "'k engine \<Rightarrow> u32" where
  "ffi_active_transfer_count e = as_u32 (active_transfer_count e)"

definition ffi_is_running :: "'k engine \<Rightarrow> bool" where
  "ffi_is_running e = en_running e"

definition ffi_stop :: "int \<Rightarrow> 'k engine \<Rightarrow> 'k engine" where
  "ffi_stop now e = stop now e"

section \<open>Histories\<close>

text \<open>
  A session of the application: its own calls, and the sightings and losses its platform layer
  reports to the engine.
\<close>

datatype app_call =
    Platform engine_op
  | AppSetTrust string ffi_trust
  | AppSend int uuid string "string list"
  | AppAccept string
  | AppReject int string string
  | AppCancel int string
  | AppStop int

fun app_step :: "(string \<Rightarrow> uuid option) \<Rightarrow> app_call \<Rightarrow> 'k engine \<Rightarrow> 'k engine" where
  "app_step pu (Platform op) e = engine_step op e"
| "app_step pu (AppSetTrust f l) e = snd (ffi_set_peer_trust f l e)"
| "app_step pu (AppSend now u i ps) e = snd (ffi_send_files now u i ps e)"
| "app_step pu (AppAccept t) e = snd (ffi_accept_transfer pu t e)"
| "app_step pu (AppReject now t r) e = snd (ffi_reject_transfer pu now t r e)"
| "app_step pu (AppCancel now t) e = snd (ffi_cancel_transfer pu now t e)"
| "app_step pu (AppStop now) e = ffi_stop now e"

fun engine_ops :: "(string \<Rightarrow> uuid option) \<Rightarrow> app_call \<Rightarrow> engine_op list" where
  "engine_ops pu (Platform op) = [op]"
| "engine_ops pu (AppSetTrust f l) = [SetPeerTrust f (trust_from_ffi l)]"
| "engine_ops pu (AppSend now u i ps) = [SendFiles now u i (map path_of ps)]"
| "engine_ops pu (AppAccept t) = (case pu t of Some i \<Rightarrow> [AcceptTransfer i] | None \<Rightarrow> [])"
| "engine_ops pu (AppReject now t r) = (case pu t of Some i \<Rightarrow> [RejectTransfer now i r] | None \<Rightarrow> [])"
| "engine_ops pu (AppCancel now t) = (case pu t of Some i \<Rightarrow> [CancelTransfer now i] | None \<Rightarrow> [])"
| "engine_ops pu (AppStop now) = [Stop now]"

definition run_app :: "(string \<Rightarrow> uuid option) \<Rightarrow> app_call list \<Rightarrow> 'k engine \<Rightarrow> 'k engine" where
  "run_app pu calls e = fold (app_step pu) calls e"

lemma snd_map_err_io [simp]: "snd (map_err_io f m s) = snd (m s)"
  by (simp add: map_err_io_def split: prod.split)

lemma app_step_ops: "app_step pu call e = run_engine (engine_ops pu call) e"
  by (cases call)
    (auto simp: run_engine_def ffi_set_peer_trust_def ffi_send_files_def ffi_accept_transfer_def ffi_reject_transfer_def
      ffi_cancel_transfer_def ffi_stop_def with_uuid_def split: option.split)

lemma run_app_ops: "run_app pu calls e = run_engine (concat (map (engine_ops pu) calls)) e"
  unfolding run_app_def by (induction calls arbitrary: e) (simp_all add: app_step_ops run_engine_def)

fun callback_news :: "callback \<Rightarrow> news" where
  "callback_news (OnPeerDiscovered p) = Appears (pi_device_id p)"
| "callback_news (OnPeerUpdated p) = Refreshed (pi_device_id p)"
| "callback_news (OnPeerLost i) = Gone i"
| "callback_news _ = NoNews"

lemma callback_peer_news: "callback_news (on_event ev) = peer_news ev"
  by (cases ev) (simp_all add: peer_to_ffi_def)

lemma heard_calls: "heard callback_news (handler_calls e) = heard peer_news (en_events e)"
  by (simp add: heard_def handler_calls_def callback_peer_news comp_def)

section \<open>What the application sees\<close>

lemma lost_db [simp]: "en_db (on_peer_lost i e) = en_db e"
  by (simp add: on_peer_lost_def)

lemma discovered_db:
  "db_ready (en_db e) \<Longrightarrow> db_ready (en_db (on_peer_discovered p e))
    \<and> peer_level (en_db (on_peer_discovered p e)) = peer_level (en_db e)"
  by (auto simp: on_peer_discovered_def check_trust_def get_trust_db split: option.split)

lemma set_trust_db:
  assumes "db_ready (en_db e)"
  shows "db_ready (en_db (snd (set_peer_trust f l e)))
    \<and> peer_level (en_db (snd (set_peer_trust f l e))) = (peer_level (en_db e))(f := l)
    \<and> fst (set_peer_trust f l e) = Ok ()"
  by (rule set_peer_trust_eq [OF assms, of f l]) (auto split: option.split)

lemma keeps_level:
  assumes "db_ready (en_db e)" and "\<forall>l. op \<noteq> SetPeerTrust f l"
  shows "db_ready (en_db (engine_step op e)) \<and> peer_level (en_db (engine_step op e)) f = peer_level (en_db e) f"
proof (cases op)
  case (SetPeerTrust g l)
  then show ?thesis using set_trust_db [OF assms(1), of g l] assms(2) by auto
qed (use assms(1) discovered_db in \<open>auto simp: reject_transfer_def cancel_transfer_def\<close>)

lemma run_keeps_level:
  assumes "db_ready (en_db e)" and "\<forall>op \<in> set ops. \<forall>l. op \<noteq> SetPeerTrust f l"
  shows "peer_level (en_db (run_engine ops e)) f = peer_level (en_db e) f"
  using assms
proof (induction ops arbitrary: e)
  case (Cons op ops)
  then show ?case using keeps_level [of e op f] by (simp add: run_Cons)
qed (simp add: run_engine_def)

definition sets_trust :: "string \<Rightarrow> app_call \<Rightarrow> bool" where
  "sets_trust f call \<longleftrightarrow> (\<exists>l. call = AppSetTrust f l) \<or> (\<exists>l. call = Platform (SetPeerTrust f l))"

lemma engine_ops_trust: "\<not> sets_trust f call \<Longrightarrow> op \<in> set (engine_ops pu call) \<Longrightarrow> op \<noteq> SetPeerTrust f l"
  by (cases call) (auto simp: sets_trust_def split: option.splits)

text \<open>
  C8. Blocking from the application is lasting: after any session, once the application has set the level of
  a fingerprint to blocked (the call succeeds), no later session in which nobody sets the level of this
  fingerprint again shows the application a peer with it, whatever is sighted, sent or stopped.
\<close>

theorem blocked_peer_stays_hidden:
  assumes "db_ready d" and "\<forall>call \<in> set after. \<not> sets_trust f call"
  shows "\<exists>e. ffi_set_peer_trust f FfiBlocked (run_app pu before (started_engine k d c)) = (Ok (), e)
    \<and> (\<forall>p \<in> set (ffi_visible_peers (run_app pu after e)). pi_fingerprint p \<noteq> Some f)"
proof -
  define e0 where "e0 = run_app pu before (started_engine k d c)"
  define e1 where "e1 = snd (set_peer_trust f TBlocked e0)"
  have inv0: "peers_inv e0" unfolding e0_def run_app_ops by (rule engine_run_inv [OF started_inv [OF assms(1)]])
  then have "peers_inv e1" unfolding e1_def by (rule trust_inv)
  note inv1 = engine_run_inv [OF this]
  have rdy: "db_ready (en_db e0)" using inv0 by (simp add: peers_inv_def)
  note st = set_trust_db [OF rdy, of f TBlocked, folded e1_def]
  have "\<forall>op \<in> set (concat (map (engine_ops pu) after)). \<forall>l. op \<noteq> SetPeerTrust f l"
    using assms(2) engine_ops_trust by fastforce
  then have lev: "peer_level (en_db (run_app pu after e1)) f = TBlocked"
    unfolding run_app_ops using run_keeps_level [of e1 _ f] st by simp
  have "pe_fingerprint p \<noteq> Some f" if "p \<in> set (visible_peers (run_app pu after e1))" for p
    using that visible_listed [OF inv1, of p _ f] lev inv1
    by (auto simp: run_app_ops peers_inv_def get_trust_ready)
  moreover have "ffi_set_peer_trust f FfiBlocked e0 = (Ok (), e1)"
  proof -
    have "set_peer_trust f TBlocked e0 = (Ok (), e1)" using st unfolding e1_def by (metis prod.collapse)
    then show ?thesis by (simp add: ffi_set_peer_trust_def map_err_io_def)
  qed
  ultimately show ?thesis by (auto simp: e0_def ffi_visible_peers_def peer_to_ffi_def)
qed

theorem blocked_peer_stays_hidden_witness:
  "\<exists>e. ffi_set_peer_trust ''f1'' FfiBlocked (run_app Some
        [Platform (MdnsSighting 1 ''Pixel'' ''10.0.0.2:42420'' ''f1'' Android)] demo_engine) = (Ok (), e)
    \<and> (\<forall>p \<in> set (ffi_visible_peers (run_app Some
        [Platform (MdnsSighting 2 ''Pixel'' ''10.0.0.2:42420'' ''f1'' Android), AppSetTrust ''f2'' FfiFavorite, AppStop 3] e)).
        pi_fingerprint p \<noteq> Some ''f1'')"
  unfolding demo_engine_def
  by (rule blocked_peer_stays_hidden [OF demo_open_db(1)]) (simp add: sets_trust_def)

text \<open>
  C13. The callbacks account for the peers: in every session, an application that keeps a set of devices by
  its callbacks alone never receives one that contradicts it, and its set always is the set of
  devices the engine has in its table.
\<close>

theorem callbacks_mirror_peers:
  "heard callback_news (handler_calls (run_app pu calls (started_engine k d c)))
    = Some (fst ` set (en_peers (run_app pu calls (started_engine k d c))))"
  by (simp only: heard_calls run_app_ops engine_heard)

end
