(* ===== verification/Discovery.thy ===== *)
theory Discovery
  imports Core_Types Config Registry Database
begin

text \<open>
  \<open>crates/justdrop-discovery/src\<close>: the service registrar with its hex codec (\<open>registrar.rs\<close>) and
  the service browser (\<open>browser.rs\<close>). The mDNS library \<open>mdns_sd\<close> is a parameter: the outcome of each call on its
  daemon, the events it delivers and the accessors of a resolved service. Names are ASCII text.
\<close>

section \<open>Hexadecimal text\<close>

definition hex_encode :: "bytes \<Rightarrow> string" where
  "hex_encode bs = concat (map hex_byte bs)"

definition hex_digit :: "char \<Rightarrow> nat option" where
  "hex_digit c = (let n = of_char c :: nat in
     if 48 \<le> n \<and> n \<le> 57 then Some (n - 48)
     else if 97 \<le> n \<and> n \<le> 102 then Some (n - 87)
     else if 65 \<le> n \<and> n \<le> 70 then Some (n - 55)
     else None)"

text \<open>\<open>u8::from_str_radix\<close> in base 16 on two bytes: a leading plus sign is accepted.\<close>

definition byte_from_hex :: "char \<Rightarrow> char \<Rightarrow> byte option" where
  "byte_from_hex a b =
     (if a = CHR ''+'' then map_option word_of_nat (hex_digit b)
      else (case (hex_digit a, hex_digit b) of
              (Some x, Some y) \<Rightarrow> Some (word_of_nat (16 * x + y)) | _ \<Rightarrow> None))"

text \<open>
  Text is its UTF-8 bytes. Slicing at a byte inside a character panics; the slices are taken one after
  the other, until the first that is not a number.
\<close>

definition continuation :: "char \<Rightarrow> bool" where
  "continuation c \<longleftrightarrow> 128 \<le> (of_char c :: nat) \<and> (of_char c :: nat) < 192"

fun hex_pairs :: "string \<Rightarrow> (bytes option, 'e) result" where
  "hex_pairs (a # b # r) =
     (if continuation a \<or> (r \<noteq> [] \<and> continuation (hd r)) then Panic
      else (case byte_from_hex a b of
              None \<Rightarrow> Ok None
            | Some x \<Rightarrow> (case hex_pairs r of Ok (Some xs) \<Rightarrow> Ok (Some (x # xs)) | other \<Rightarrow> other)))"
| "hex_pairs _ = Ok (Some [])"

definition hex_decode :: "string \<Rightarrow> (bytes option, 'e) result" where
  "hex_decode s = (if odd (length s) then Ok None else hex_pairs s)"

lemma hex_digit_char: "n < 16 \<Longrightarrow> hex_digit (digit_char n) = Some n \<and> digit_char n \<noteq> CHR ''+'' \<and> \<not> continuation (digit_char n)"
proof -
  assume "n < 16"
  then have "n \<in> set [0..<16]" by simp
  moreover have "\<forall>n \<in> set [0..<16]. hex_digit (digit_char n) = Some n \<and> digit_char n \<noteq> CHR ''+'' \<and> \<not> continuation (digit_char n)"
    by (simp add: upt_rec digit_char_def hex_digit_def continuation_def)
  ultimately show ?thesis by blast
qed

lemma byte_of_hex: "hex_byte b = [x, y] \<Longrightarrow> byte_from_hex x y = Some b \<and> \<not> continuation x"
proof -
  assume "hex_byte b = [x, y]"
  then have xy: "x = digit_char (unat b div 16)" "y = digit_char (unat b mod 16)" by (simp_all add: hex_byte_def)
  have "unat b < 256" using unsigned_less [of b] by simp
  then have "unat b div 16 < 16" "unat b mod 16 < 16" by (simp_all add: less_mult_imp_div_less)
  then show ?thesis using hex_digit_char [of "unat b div 16"] hex_digit_char [of "unat b mod 16"]
    by (simp add: xy byte_from_hex_def)
qed

lemma hex_pairs_encode: "hex_pairs (hex_encode bs) = Ok (Some bs)"
proof (induction bs)
  case (Cons b bs)
  have "hex_encode bs = [] \<or> \<not> continuation (hd (hex_encode bs))"
  proof (cases bs)
    case (Cons c cs)
    then show ?thesis using byte_of_hex [of c] by (simp add: hex_encode_def hex_byte_def)
  qed (simp add: hex_encode_def)
  moreover have "byte_from_hex (digit_char (unat b div 16)) (digit_char (unat b mod 16)) = Some b
    \<and> \<not> continuation (digit_char (unat b div 16))"
    using byte_of_hex [of b] by (simp add: hex_byte_def)
  moreover have "hex_encode (b # bs) = digit_char (unat b div 16) # digit_char (unat b mod 16) # hex_encode bs"
    by (simp add: hex_encode_def hex_byte_def)
  ultimately show ?case using Cons.IH by auto
qed (simp add: hex_encode_def)

lemma length_hex_encode: "length (hex_encode bs) = 2 * length bs"
  by (induction bs) (simp_all add: hex_encode_def hex_byte_def)

lemma hex_roundtrip: "hex_decode (hex_encode bs) = Ok (Some bs)"
  by (simp add: hex_decode_def length_hex_encode hex_pairs_encode)

lemma hex_encode_inj: "hex_encode xs = hex_encode ys \<longleftrightarrow> xs = ys"
  using hex_pairs_encode [of xs] hex_pairs_encode [of ys] by (metis option.inject result.inject(1))

lemma decode_accepts_plus: "hex_decode ''+a0b'' = Ok (Some [10, 11])"
  by (simp add: hex_decode_def byte_from_hex_def hex_digit_def continuation_def)

section \<open>The registrar\<close>

definition is_alphanumeric :: "char \<Rightarrow> bool" where
  "is_alphanumeric c = (let n = of_char c :: nat in
     (48 \<le> n \<and> n \<le> 57) \<or> (65 \<le> n \<and> n \<le> 90) \<or> (97 \<le> n \<and> n \<le> 122))"

definition sanitized :: "string \<Rightarrow> string" where
  "sanitized = map (\<lambda>c. if \<not> is_alphanumeric c \<and> c \<noteq> CHR ''-'' then CHR ''-'' else c)"

text \<open>
  What the library is asked to announce. \<open>mdns_lib\<close> holds the outcomes of its calls: creating the
  daemon, building a service, registering, unregistering and shutting down.
\<close>

record service =
  sc_type :: string
  sc_instance :: string
  sc_hostname :: string
  sc_ip :: string
  sc_port :: u16
  sc_props :: "(string \<times> string) list"

record mdns_lib =
  ml_daemon :: "(unit, string) result"
  ml_service :: "service \<Rightarrow> (unit, string) result"
  ml_register :: "service \<Rightarrow> (unit, string) result"
  ml_unregister :: "string \<Rightarrow> (unit, string) result"

record registrar =
  rg_service_type :: string
  rg_instance_name :: string
  rg_registered :: bool
  rg_daemon_log :: "(service + string) list"

definition registrar_new :: "mdns_lib \<Rightarrow> string \<Rightarrow> string \<Rightarrow> (registrar, discovery_error) result" where
  "registrar_new lib service_type name =
     bind_res (map_err (\<lambda>e. DaemonCreation (''failed to create mDNS daemon: '' @ e)) (ml_daemon lib)) (\<lambda>_.
       Ok \<lparr>rg_service_type = service_type, rg_instance_name = name, rg_registered = False, rg_daemon_log = []\<rparr>)"

text \<open>The address of the socket, when binding, connecting and reading it back all work.\<close>

definition get_local_ip :: "unit option \<Rightarrow> unit option \<Rightarrow> string option \<Rightarrow> string option" where
  "get_local_ip bound reached addr =
     Option.bind bound (\<lambda>_. Option.bind reached (\<lambda>_. addr))"

definition registered_service :: "platform \<Rightarrow> string option \<Rightarrow> u16 \<Rightarrow> bytes \<Rightarrow> registrar \<Rightarrow> service" where
  "registered_service current local_ip port fp r =
     \<lparr>sc_type = rg_service_type r, sc_instance = rg_instance_name r,
      sc_hostname = sanitized (rg_instance_name r) @ ''.local.'',
      sc_ip = (case local_ip of Some ip \<Rightarrow> ip | None \<Rightarrow> ''0.0.0.0''), sc_port = port,
      sc_props = [(''version'', show_nat (unat PROTOCOL_VERSION)), (''platform'', platform_display current),
                  (''fingerprint'', hex_encode fp)]\<rparr>"

definition register ::
  "mdns_lib \<Rightarrow> platform \<Rightarrow> string option \<Rightarrow> u16 \<Rightarrow> bytes \<Rightarrow> (registrar, unit, discovery_error) io" where
  "register lib current local_ip port fp r =
     (let sv = registered_service current local_ip port fp r
      in bind_io (lift_io (map_err (\<lambda>e. Registration (''failed to build ServiceInfo: '' @ e)) (ml_service lib sv))) (\<lambda>_.
         bind_io (lift_io (map_err (\<lambda>e. Registration (''failed to register service: '' @ e)) (ml_register lib sv))) (\<lambda>_ r.
           (Ok (), r\<lparr>rg_registered := True, rg_daemon_log := rg_daemon_log r @ [Inl sv]\<rparr>))) r)"

definition unregister :: "mdns_lib \<Rightarrow> (registrar, unit, discovery_error) io" where
  "unregister lib r =
     (if \<not> rg_registered r then (Ok (), r)
      else let fullname = rg_instance_name r @ ''.'' @ rg_service_type r
        in bind_io (lift_io (map_err (\<lambda>e. Registration (''failed to unregister service: '' @ e)) (ml_unregister lib fullname)))
             (\<lambda>_ r. (Ok (), r\<lparr>rg_registered := False, rg_daemon_log := rg_daemon_log r @ [Inr fullname]\<rparr>)) r)"

definition drop_registrar :: "mdns_lib \<Rightarrow> registrar \<Rightarrow> registrar" where
  "drop_registrar lib r = (if rg_registered r then snd (unregister lib r) else r)"

section \<open>The browser\<close>

record device_info =
  dv_id :: string
  dv_name :: string
  dv_addr :: "string \<times> u16"
  dv_fingerprint :: bytes
  dv_platform :: platform
  dv_last_seen :: int

datatype peer_event = Discovered device_info | LostPeer string | Updated device_info

text \<open>A resolved service, by the accessors of the library; its addresses in the order of their iteration.\<close>

record service_info =
  sv_fullname :: string
  sv_port :: u16
  sv_addresses_v4 :: "string list"
  sv_property :: "string \<Rightarrow> string option"
  sv_hostname :: string

datatype service_event = ServiceResolved service_info | ServiceRemoved string string
  | SearchStarted string | SearchStopped string | OtherServiceEvent

record browser =
  br_service_type :: string
  br_peers :: "(string \<times> device_info) list"
  br_events :: "peer_event list"
  br_self_id :: "string option"
  br_running :: bool

definition browser_new :: "string \<Rightarrow> browser" where
  "browser_new service_type =
     \<lparr>br_service_type = service_type, br_peers = [], br_events = [], br_self_id = None, br_running = False\<rparr>"

definition set_self_fingerprint :: "bytes \<Rightarrow> (browser, unit, 'e) io" where
  "set_self_fingerprint fp b =
     (if length fp < 8 then (Panic, b) else (Ok (), b\<lparr>br_self_id := Some (hex_encode (take 8 fp))\<rparr>))"

definition browser_peers :: "browser \<Rightarrow> device_info list" where
  "browser_peers b = map snd (br_peers b)"

definition get_peer :: "string \<Rightarrow> browser \<Rightarrow> device_info option" where
  "get_peer i b = map_of (br_peers b) i"

definition parse_fingerprint :: "string \<Rightarrow> (bytes option, 'e) result" where
  "parse_fingerprint hex =
     bind_res (hex_decode hex) (\<lambda>r. Ok (case r of
       Some bs \<Rightarrow> if length bs \<noteq> 32 then None else Some bs | None \<Rightarrow> None))"

definition parse_platform :: "string \<Rightarrow> platform" where
  "parse_platform s =
     (if s = ''Android'' then Android else if s = ''macOS'' then MacOS
      else if s = ''Linux'' then Linux else if s = ''Windows'' then Windows else UnknownPlatform)"

fun str_contains :: "string \<Rightarrow> string \<Rightarrow> bool" where
  "str_contains [] pat = (pat = [])"
| "str_contains (c # cs) pat = (take (length pat) (c # cs) = pat \<or> str_contains cs pat)"

fun handle_event :: "int \<Rightarrow> service_event \<Rightarrow> (browser, unit, 'e) io" where
  "handle_event now (ServiceResolved info) b =
     (case sv_addresses_v4 info of
        [] \<Rightarrow> (Ok (), b)
      | ipv4 # _ \<Rightarrow>
          bind_io (lift_io (case sv_property info ''fingerprint'' of
                     Some s \<Rightarrow> parse_fingerprint s | None \<Rightarrow> Ok None)) (\<lambda>parsed b.
            let fingerprint = (case parsed of Some fp \<Rightarrow> fp | None \<Rightarrow> replicate 32 0);
                pf = (case sv_property info ''platform'' of Some s \<Rightarrow> parse_platform s | None \<Rightarrow> UnknownPlatform);
                d = \<lparr>dv_id = hex_encode (take 8 fingerprint), dv_name = trim_end_matches ''.'' (sv_hostname info),
                     dv_addr = (ipv4, sv_port info), dv_fingerprint = fingerprint, dv_platform = pf,
                     dv_last_seen = now\<rparr>
            in if br_self_id b = Some (dv_id d) then (Ok (), b)
               else let ev = (if map_of (br_peers b) (dv_id d) \<noteq> None then Updated d else Discovered d)
                 in (Ok (), b\<lparr>br_peers := AList.update (dv_id d) d (br_peers b), br_events := br_events b @ [ev]\<rparr>)) b)"
| "handle_event now (ServiceRemoved _ fullname) b =
     (case List.find (\<lambda>(_, d). str_contains fullname (dv_name d)) (br_peers b) of
        Some (i, _) \<Rightarrow> (Ok (), b\<lparr>br_peers := AList.delete i (br_peers b), br_events := br_events b @ [LostPeer i]\<rparr>)
      | None \<Rightarrow> (Ok (), b))"
| "handle_event now (SearchStarted _) b = (Ok (), b)"
| "handle_event now (SearchStopped _) b = (Ok (), b)"
| "handle_event now OtherServiceEvent b = (Ok (), b)"

text \<open>
  The blocking task handles one event after the other until the channel closes; a panic ends it.
\<close>

definition start_browsing :: "(unit, string) result \<Rightarrow> (browser, unit, discovery_error) io" where
  "start_browsing browsed =
     bind_io (lift_io (map_err (\<lambda>e. Browse (''failed to start browsing: '' @ e)) browsed))
       (\<lambda>_ b. (Ok (), b\<lparr>br_running := True\<rparr>))"

fun browse_step :: "int \<times> service_event \<Rightarrow> browser \<Rightarrow> browser" where
  "browse_step (now, ev) b =
     (if br_running b
      then (case handle_event now ev b :: (unit, unit) result \<times> browser of
              (Panic, b') \<Rightarrow> b'\<lparr>br_running := False\<rparr> | (_, b') \<Rightarrow> b')
      else b)"

definition browse :: "(int \<times> service_event) list \<Rightarrow> browser \<Rightarrow> browser" where
  "browse evs b = fold browse_step evs b"

section \<open>What a browser lists\<close>

fun browser_news :: "peer_event \<Rightarrow> news" where
  "browser_news (Discovered d) = Appears (dv_id d)"
| "browser_news (Updated d) = Refreshed (dv_id d)"
| "browser_news (LostPeer i) = Gone i"

definition browser_ids :: "browser \<Rightarrow> string set" where
  "browser_ids b = fst ` set (br_peers b)"

lemma handle_event_cases:
  obtains (same) r where "handle_event now ev b = ((r, b) :: (unit, 'e) result \<times> browser)"
  | (seen) d e where "(handle_event now ev b :: (unit, 'e) result \<times> browser) =
        (Ok (), b\<lparr>br_peers := AList.update (dv_id d) d (br_peers b), br_events := br_events b @ [e]\<rparr>)"
      "browser_news e = (if dv_id d \<in> browser_ids b then Refreshed (dv_id d) else Appears (dv_id d))"
      "dv_id d = hex_encode (take 8 (dv_fingerprint d))" "length (dv_fingerprint d) = 32" "br_self_id b \<noteq> Some (dv_id d)"
  | (lost) i where "(handle_event now ev b :: (unit, 'e) result \<times> browser) =
        (Ok (), b\<lparr>br_peers := AList.delete i (br_peers b), br_events := br_events b @ [LostPeer i]\<rparr>)"
      "i \<in> browser_ids b"
proof (cases ev)
  case (ServiceResolved info)
  show thesis
  proof (cases "sv_addresses_v4 info")
    case Nil
    then show thesis using that(1) by (simp add: ServiceResolved)
  next
    case (Cons ip rest)
    show thesis
    proof (cases "(case sv_property info ''fingerprint'' of Some s \<Rightarrow> parse_fingerprint s | None \<Rightarrow> Ok None) :: (bytes option, 'e) result")
      case (Ok parsed)
      define fp where "fp = (case parsed of Some fp \<Rightarrow> fp | None \<Rightarrow> replicate 32 (0 :: byte))"
      have len: "length fp = 32"
        using Ok by (auto simp: fp_def parse_fingerprint_def bind_res_Ok_iff split: option.splits if_splits)
      define d where "d = \<lparr>dv_id = hex_encode (take 8 fp), dv_name = trim_end_matches ''.'' (sv_hostname info),
        dv_addr = (ip, sv_port info), dv_fingerprint = fp,
        dv_platform = (case sv_property info ''platform'' of Some s \<Rightarrow> parse_platform s | None \<Rightarrow> UnknownPlatform),
        dv_last_seen = now\<rparr>"
      define e where "e = (if map_of (br_peers b) (dv_id d) \<noteq> None then Updated d else Discovered d)"
      have run: "(handle_event now ev b :: (unit, 'e) result \<times> browser) =
        (if br_self_id b = Some (dv_id d) then (Ok (), b)
         else (Ok (), b\<lparr>br_peers := AList.update (dv_id d) d (br_peers b), br_events := br_events b @ [e]\<rparr>))"
        by (simp add: ServiceResolved Cons Ok bind_io_def lift_io_def Let_def d_def e_def fp_def)
      have "browser_news e = (if dv_id d \<in> browser_ids b then Refreshed (dv_id d) else Appears (dv_id d))"
        by (auto simp: e_def browser_ids_def map_of_eq_None_iff)
      then show thesis using that(1) that(2) [where d = d and e = e] run len by (cases "br_self_id b = Some (dv_id d)") (auto simp: d_def)
    qed (use that(1) in \<open>simp_all add: ServiceResolved Cons bind_io_def lift_io_def\<close>)
  qed
next
  case (ServiceRemoved ty fullname)
  show thesis
  proof (cases "List.find (\<lambda>(_, d). str_contains fullname (dv_name d)) (br_peers b)")
    case (Some x)
    obtain i d where x: "x = (i, d)" by (cases x)
    then have "i \<in> browser_ids b" using find_member [OF Some] by (force simp: browser_ids_def)
    then show thesis by (intro that(3) [of i]) (simp_all add: ServiceRemoved Some x)
  qed (use that(1) in \<open>simp add: ServiceRemoved\<close>)
qed (use that(1) in simp_all)

interpretation browser_table: device_registry browser_news br_events browser_ids browse_step
proof
  fix b and op :: "int \<times> service_event"
  obtain now ev where op: "op = (now, ev)" by (cases op)
  show "reports browser_news (br_events b) (browser_ids b) (br_events (browse_step op b)) (browser_ids (browse_step op b))"
    unfolding op
  proof (rule handle_event_cases [of now ev b, where 'e = unit])
    fix r assume "handle_event now ev b = ((r, b) :: (unit, unit) result \<times> browser)"
    then show "reports browser_news (br_events b) (browser_ids b) (br_events (browse_step (now, ev) b))
        (browser_ids (browse_step (now, ev) b))"
      by (cases r) (simp_all add: browser_ids_def)
  next
    fix d e
    assume "(handle_event now ev b :: (unit, unit) result \<times> browser) =
        (Ok (), b\<lparr>br_peers := AList.update (dv_id d) d (br_peers b), br_events := br_events b @ [e]\<rparr>)"
      and "browser_news e = (if dv_id d \<in> browser_ids b then Refreshed (dv_id d) else Appears (dv_id d))"
    then show "reports browser_news (br_events b) (browser_ids b) (br_events (browse_step (now, ev) b))
        (browser_ids (browse_step (now, ev) b))"
      by (auto simp: browser_ids_def AList.dom_update insert_absorb)
  next
    fix i
    assume "(handle_event now ev b :: (unit, unit) result \<times> browser) =
        (Ok (), b\<lparr>br_peers := AList.delete i (br_peers b), br_events := br_events b @ [LostPeer i]\<rparr>)"
      and "i \<in> browser_ids b"
    then show "reports browser_news (br_events b) (browser_ids b) (br_events (browse_step (now, ev) b))
        (browser_ids (browse_step (now, ev) b))"
      using reports_one [of browser_news "LostPeer i" "browser_ids b" "browser_ids b - {i}" "br_events b"]
      by (simp add: browser_ids_def keys_delete)
  qed
qed

text \<open>Each entry is filed under the identifier of its fingerprint, and none under the browser's own.\<close>

definition browser_inv :: "browser \<Rightarrow> bool" where
  "browser_inv b \<longleftrightarrow> distinct (map fst (br_peers b)) \<and> (\<forall>(i, d) \<in> set (br_peers b). dv_id d = i
     \<and> i = hex_encode (take 8 (dv_fingerprint d)) \<and> length (dv_fingerprint d) = 32 \<and> br_self_id b \<noteq> Some i)"

lemma browser_inv_delete: "browser_inv b \<Longrightarrow> browser_inv (b\<lparr>br_peers := AList.delete i (br_peers b), br_events := es\<rparr>)"
  using AList.distinct_delete [of "br_peers b" i] by (auto simp: browser_inv_def AList.delete_eq)

lemma browser_inv_update:
  assumes "browser_inv b" and "dv_id d = hex_encode (take 8 (dv_fingerprint d))" "length (dv_fingerprint d) = 32"
    and "br_self_id b \<noteq> Some (dv_id d)"
  shows "browser_inv (b\<lparr>br_peers := AList.update (dv_id d) d (br_peers b), br_events := es\<rparr>)"
  using assms AList.distinct_update [of "br_peers b" "dv_id d" d]
  by (auto simp: browser_inv_def dest!: set_alist_update)

lemma browser_inv_running [simp]: "browser_inv (b\<lparr>br_running := r\<rparr>) = browser_inv b"
  by (simp add: browser_inv_def)

lemma browse_step_inv:
  assumes "browser_inv b"
  shows "browser_inv (browse_step (now, ev) b) \<and> br_self_id (browse_step (now, ev) b) = br_self_id b"
proof (rule handle_event_cases [of now ev b, where 'e = unit])
  fix d e
  assume h: "(handle_event now ev b :: (unit, unit) result \<times> browser) =
      (Ok (), b\<lparr>br_peers := AList.update (dv_id d) d (br_peers b), br_events := br_events b @ [e]\<rparr>)"
    and d: "dv_id d = hex_encode (take 8 (dv_fingerprint d))" "length (dv_fingerprint d) = 32" "br_self_id b \<noteq> Some (dv_id d)"
  show ?thesis using browser_inv_update [OF assms d] assms by (simp add: h)
qed (use assms in \<open>auto simp: browser_inv_delete split: result.split\<close>)

lemma browse_inv: "browser_inv b \<Longrightarrow> browser_inv (browse evs b) \<and> br_self_id (browse evs b) = br_self_id b"
  unfolding browse_def
proof (induction evs arbitrary: b)
  case (Cons op evs)
  obtain now ev where "op = (now, ev)" by (cases op)
  then show ?case using Cons browse_step_inv [of b now ev] by simp
qed simp


definition resolved :: "string \<Rightarrow> string list \<Rightarrow> service \<Rightarrow> service_info" where
  "resolved fullname ips sv = \<lparr>sv_fullname = fullname, sv_port = sc_port sv, sv_addresses_v4 = ips,
     sv_property = map_of (sc_props sv), sv_hostname = sc_hostname sv\<rparr>"

definition demo_registrar :: registrar where
  "demo_registrar = \<lparr>rg_service_type = ''_justdrop._tcp.local.'', rg_instance_name = ''Ann-PC'',
     rg_registered = True, rg_daemon_log = []\<rparr>"


section \<open>Departures\<close>

lemma contains_iff: "str_contains s pat \<longleftrightarrow> (\<exists>a b. s = a @ pat @ b)"
proof (induction s)
  case (Cons c cs)
  have "take (length pat) (c # cs) = pat \<longleftrightarrow> (\<exists>b. c # cs = pat @ b)"
    by (metis append_eq_conv_conj append_take_drop_id)
  moreover have "(\<exists>a b. c # cs = a @ pat @ b) \<longleftrightarrow> (\<exists>b. c # cs = pat @ b) \<or> (\<exists>a b. cs = a @ pat @ b)"
    by (metis append_Cons append_self_conv2 list.sel(3) neq_Nil_conv)
  ultimately show ?case using Cons by simp
qed simp

lemma sanitized_chars: "c \<in> set (sanitized n) \<Longrightarrow> c \<noteq> CHR ''.'' \<and> c \<noteq> CHR ''_''"
  by (auto simp: sanitized_def is_alphanumeric_def Let_def split: if_splits)

lemma trim_local: "trim_end_matches ''.'' (w @ ''.local.'') = w @ ''.local''"
  by (simp add: trim_end_matches.simps [of "''.''" "w @ ''.local.''"])
    (simp add: trim_end_matches.simps [of "''.''" "w @ ''.local''"])

abbreviation type_tail :: string where
  "type_tail \<equiv> ''._justdrop._tcp.local.''"

lemma local_in_type:
  assumes "type_tail = a @ w @ ''.local'' @ b" and "\<forall>c \<in> set w. c \<noteq> CHR ''.'' \<and> c \<noteq> CHR ''_''" and "a \<noteq> []"
  shows "w \<in> {[], ''p'', ''cp'', ''tcp''}"
proof -
  define k where "k = length a + length w"
  have len: "length type_tail = k + 6 + length b" using arg_cong [OF assms(1), of length] by (simp add: k_def)
  have "drop k type_tail = ''.local'' @ b" by (subst assms(1)) (simp add: k_def)
  then have t: "take 6 (drop k type_tail) = ''.local''" by (simp only:) simp
  have "k \<in> set [0..<17]" using len by simp
  moreover have "\<forall>k \<in> set [0..<17]. take 6 (drop k type_tail) = ''.local'' \<longrightarrow> k = 15" by (simp add: upt_rec)
  ultimately have k: "k = 15" using t by blast
  have w: "w = drop (length a) (take k type_tail)" by (subst assms(1)) (simp add: k_def)
  have "length a \<in> set [1..<16]" using k assms(3) by (cases a) (auto simp: k_def)
  moreover have "\<forall>j \<in> set [1..<16]. (\<forall>c \<in> set (drop j (take 15 type_tail)). c \<noteq> CHR ''.'' \<and> c \<noteq> CHR ''_'')
      \<longrightarrow> drop j (take 15 type_tail) \<in> {[], ''p'', ''cp'', ''tcp''}" by (simp add: upt_rec)
  ultimately show ?thesis using assms(2) w k by blast
qed

lemma own_name_not_contained:
  assumes "sanitized n \<notin> {[], ''p'', ''cp'', ''tcp''}"
  shows "\<not> str_contains (n @ type_tail) (sanitized n @ ''.local'')"
proof
  assume "str_contains (n @ type_tail) (sanitized n @ ''.local'')"
  then obtain a b where eq: "n @ type_tail = a @ sanitized n @ ''.local'' @ b" by (auto simp: contains_iff)
  have len: "length (sanitized n) = length n" by (simp add: sanitized_def)
  consider "length n < length a" | "length a = 0" | "0 < length a" "length a \<le> length n" by linarith
  then show False
  proof cases
    case 1
    then obtain a' where "a = n @ a'" "a' \<noteq> []"
      using eq by (auto simp: append_eq_append_conv2)
    then show False using local_in_type [of a' "sanitized n" b] eq assms sanitized_chars by simp
  next
    case 2
    then have "drop (length n) (n @ type_tail) = ''.local'' @ b" using eq len by simp
    then show False by simp
  next
    case 3
    then have lt: "length n - length a < length n" by linarith
    have "(n @ type_tail) ! length n = CHR ''.''" by simp
    moreover have "(n @ type_tail) ! length n = sanitized n ! (length n - length a)"
      unfolding eq using lt 3 len by (simp add: nth_append)
    moreover have "sanitized n ! (length n - length a) \<in> set (sanitized n)" using lt len by (intro nth_mem) simp
    ultimately show False using sanitized_chars by metis
  qed
qed

text \<open>
  C37. A device that leaves is not removed: an announcement made by the registrar and seen by a
  browser that knows no other device leaves the device in the browser's table even after its removal has been
  reported, because the name the browser files (the host name) does not occur in the full
  name of the service, the names \<open>p\<close>, \<open>cp\<close>, \<open>tcp\<close> and the empty name apart.
\<close>

theorem departed_device_stays:
  assumes "rg_service_type r = ''_justdrop._tcp.local.''" and "sanitized (rg_instance_name r) \<notin> {[], ''p'', ''cp'', ''tcp''}"
    and "length fp = 32" and "br_running b" and "br_peers b = []" and "br_self_id b \<noteq> Some (hex_encode (take 8 fp))"
    and "fullname = rg_instance_name r @ ''.'' @ rg_service_type r" and "ips \<noteq> []"
  shows "map dv_fingerprint (browser_peers (browse
      [(t, ServiceResolved (resolved fullname ips (registered_service pf ip port fp r))), (t', ServiceRemoved ty fullname)] b))
    = [fp]"
proof -
  obtain i rest where ips: "ips = i # rest" using assms(8) by (cases ips) auto
  have "parse_fingerprint (hex_encode fp) = (Ok (Some fp) :: (bytes option, unit) result)"
    using assms(3) by (simp add: parse_fingerprint_def hex_roundtrip)
  moreover have "\<not> str_contains fullname (sanitized (rg_instance_name r) @ ''.local'')"
    using own_name_not_contained [OF assms(2)] by (simp add: assms(1,7))
  ultimately show ?thesis
    using assms by (simp add: browse_def resolved_def registered_service_def ips bind_io_def lift_io_def Let_def trim_local
        browser_peers_def)
qed

theorem departed_device_stays_witness:
  "map dv_fingerprint (browser_peers (browse
      [(1, ServiceResolved (resolved ''Ann-PC._justdrop._tcp.local.'' [''10.0.0.2'']
          (registered_service Linux None 42420 (replicate 32 1) demo_registrar))),
       (2, ServiceRemoved ''_justdrop._tcp.local.'' ''Ann-PC._justdrop._tcp.local.'')]
      ((browser_new ''_justdrop._tcp.local.'')\<lparr>br_running := True\<rparr>)))
    = [replicate 32 1]"
  by (rule departed_device_stays)
    (simp_all add: demo_registrar_def browser_new_def sanitized_def is_alphanumeric_def)

text \<open>
  An announcement whose fingerprint text has a character of two bytes at an odd offset ends the
  browsing task: slicing it panics, and no later announcement is seen.
\<close>

lemma hostile_text_stops_browser:
  assumes "br_running b" and "sv_addresses_v4 info = ip # ips" and "sv_property info ''fingerprint'' = Some [CHR ''a'', CHR 0xC3, CHR 0xA9, CHR ''a'']"
  shows "browse ((t, ServiceResolved info) # later) b = b\<lparr>br_running := False\<rparr>"
proof -
  have dead: "fold browse_step later (b\<lparr>br_running := False\<rparr>) = b\<lparr>br_running := False\<rparr>" for later :: "(int \<times> service_event) list"
    by (induction later) auto
  have "parse_fingerprint [CHR ''a'', CHR 0xC3, CHR 0xA9, CHR ''a''] = (Panic :: (bytes option, unit) result)"
    by (simp add: parse_fingerprint_def hex_decode_def continuation_def)
  then show ?thesis using assms by (simp add: browse_def bind_io_def lift_io_def dead)
qed

end
