(* ===== verification/Listener.thy ===== *)
theory Listener
  imports Config
begin

text \<open>
  \<open>crates/justdrop-network/src/listener.rs\<close>: the TCP listener with its socket options. The operating system
  answers each call on a socket as it likes; the model logs the calls, so their order can be
  stated, and holds the connections that are going to arrive.
\<close>

section \<open>Sockets of the operating system\<close>

type_synonym sock_addr = "string \<times> u16"

datatype sock_call = NewStreamSocket | SetReuseAddress bool | SetNodelay bool | SetSendBuffer usize | SetRecvBuffer usize
  | BindTo sock_addr | ListenBacklog nat | SetNonblocking bool | AdoptListener | LocalAddr

text \<open>
  \<open>ns_refuses\<close> gives the error with which the \<open>n\<close>-th call fails, if it does; \<open>ns_local\<close> is the address a bound
  socket reports, \<open>ns_arrivals\<close> what successive accepts find.
\<close>

record net_sockets =
  ns_refuses :: "nat \<Rightarrow> sock_call \<Rightarrow> io_error option"
  ns_calls :: "sock_call list"
  ns_local :: sock_addr
  ns_arrivals :: "(sock_addr, io_error) result list"

definition sock_call :: "sock_call \<Rightarrow> (net_sockets, unit, io_error) io" where
  "sock_call c s =
     ((case ns_refuses s (length (ns_calls s)) c of None \<Rightarrow> Ok () | Some e \<Rightarrow> Err e),
      s\<lparr>ns_calls := ns_calls s @ [c]\<rparr>)"

section \<open>The listener\<close>

record transfer_listener = tl_local_addr :: sock_addr

text \<open>The options and calls of \<open>bind\<close>, in the order of the code. The address of the first line always parses.\<close>

definition bind_calls :: "network_config \<Rightarrow> sock_call list" where
  "bind_calls config =
     [NewStreamSocket, SetReuseAddress True, SetNodelay (nc_tcp_nodelay config),
      SetSendBuffer (nc_send_buffer_size config), SetRecvBuffer (nc_recv_buffer_size config),
      BindTo (''0.0.0.0'', nc_listen_port config), ListenBacklog 128, SetNonblocking True, AdoptListener, LocalAddr]"

text \<open>Each call is followed by \<open>?\<close>, its error wrapped with the port.\<close>

fun all_calls :: "u16 \<Rightarrow> sock_call list \<Rightarrow> (net_sockets, unit, network_error) io" where
  "all_calls port [] = return_io ()"
| "all_calls port (c # cs) = bind_io (map_err_io (BindFailed port) (sock_call c)) (\<lambda>_. all_calls port cs)"

definition listener_bind :: "network_config \<Rightarrow> (net_sockets, transfer_listener, network_error) io" where
  "listener_bind config =
     bind_io (all_calls (nc_listen_port config) (bind_calls config)) (\<lambda>_ s. (Ok \<lparr>tl_local_addr = ns_local s\<rparr>, s))"

text \<open>Waiting for a connection that never comes is \<open>None\<close>.\<close>

definition listener_accept :: "net_sockets \<Rightarrow> ((sock_addr, network_error) result \<times> net_sockets) option" where
  "listener_accept s =
     (case ns_arrivals s of
        [] \<Rightarrow> None
      | r # rs \<Rightarrow> Some (map_err NetIo r, s\<lparr>ns_arrivals := rs\<rparr>))"

definition listener_local_addr :: "transfer_listener \<Rightarrow> sock_addr" where
  "listener_local_addr l = tl_local_addr l"

definition listener_port :: "transfer_listener \<Rightarrow> u16" where
  "listener_port l = snd (tl_local_addr l)"

definition tune_stream :: "network_config \<Rightarrow> (net_sockets, unit, network_error) io" where
  "tune_stream config = map_err_io NetIo (sock_call (SetNodelay (nc_tcp_nodelay config)))"

section \<open>Facts\<close>

text \<open>
  A sequence of calls either makes all of them, or stops after the first that is refused and returns its
  error with the port.
\<close>

lemma all_calls_cases:
  "all_calls port cs s = (Ok (), s\<lparr>ns_calls := ns_calls s @ cs\<rparr>)
     \<and> (\<forall>i < length cs. ns_refuses s (length (ns_calls s) + i) (cs ! i) = None)
   \<or> (\<exists>i e. i < length cs \<and> ns_refuses s (length (ns_calls s) + i) (cs ! i) = Some e
       \<and> (\<forall>j < i. ns_refuses s (length (ns_calls s) + j) (cs ! j) = None)
       \<and> all_calls port cs s = (Err (BindFailed port e), s\<lparr>ns_calls := ns_calls s @ take (Suc i) cs\<rparr>))"
proof (induction cs arbitrary: s)
  case (Cons c cs)
  show ?case
  proof (cases "ns_refuses s (length (ns_calls s)) c")
    case None
    let ?s = "s\<lparr>ns_calls := ns_calls s @ [c]\<rparr>"
    have step: "all_calls port (c # cs) s = all_calls port cs ?s"
      using None by (simp add: sock_call_def bind_io_def map_err_io_def)
    from Cons.IH [of ?s] show ?thesis
    proof (elim disjE exE conjE)
      assume "all_calls port cs ?s = (Ok (), ?s\<lparr>ns_calls := ns_calls ?s @ cs\<rparr>)"
        and "\<forall>i < length cs. ns_refuses ?s (length (ns_calls ?s) + i) (cs ! i) = None"
      then show ?thesis using None step by (simp add: All_less_Suc2)
    next
      fix i e
      assume "i < length cs" "ns_refuses ?s (length (ns_calls ?s) + i) (cs ! i) = Some e"
        "\<forall>j < i. ns_refuses ?s (length (ns_calls ?s) + j) (cs ! j) = None"
        "all_calls port cs ?s = (Err (BindFailed port e), ?s\<lparr>ns_calls := ns_calls ?s @ take (Suc i) cs\<rparr>)"
      then show ?thesis using None step by (intro disjI2 exI [of _ "Suc i"] exI [of _ e]) (simp add: All_less_Suc2)
    qed
  next
    case (Some e)
    then show ?thesis by (intro disjI2 exI [of _ 0] exI [of _ e]) (simp add: sock_call_def bind_io_def map_err_io_def)
  qed
qed (simp add: return_io_def)

text \<open>
  A listener is returned only after every option has been set, in the order of the code, and the socket
  listens on the configured port; otherwise the error names the port and the refused call is the last.
\<close>

lemma bind_all_or_first_refusal:
  "(\<forall>i < 10. ns_refuses s (length (ns_calls s) + i) (bind_calls config ! i) = None)
     \<and> listener_bind config s = (Ok \<lparr>tl_local_addr = ns_local s\<rparr>, s\<lparr>ns_calls := ns_calls s @ bind_calls config\<rparr>)
   \<or> (\<exists>i e. i < 10 \<and> ns_refuses s (length (ns_calls s) + i) (bind_calls config ! i) = Some e
       \<and> (\<forall>j < i. ns_refuses s (length (ns_calls s) + j) (bind_calls config ! j) = None)
       \<and> listener_bind config s = (Err (BindFailed (nc_listen_port config) e),
           s\<lparr>ns_calls := ns_calls s @ take (Suc i) (bind_calls config)\<rparr>))"
proof -
  have "length (bind_calls config) = 10" by (simp add: bind_calls_def)
  then show ?thesis using all_calls_cases [of "nc_listen_port config" "bind_calls config" s]
    by (auto simp: listener_bind_def bind_io_def)
qed

lemma bind_never_panics: "fst (listener_bind config s) \<noteq> Panic"
  using bind_all_or_first_refusal [of s config] by auto

lemma accept_shortens: "listener_accept s = Some (r, s') \<Longrightarrow> length (ns_arrivals s') < length (ns_arrivals s)"
  by (auto simp: listener_accept_def split: list.splits)

end
