(* ===== verification/Daemon.thy ===== *)
theory Daemon
  imports Discovery Identity Resumption Listener
begin

text \<open>
  \<open>crates/justdrop-daemon/src/main.rs\<close>: the command line program. Parsing the arguments (crate \<open>clap\<close>) is
  left out; what the peers, identity and status commands print is a list of lines, and the log lines of the
  daemon and of a transfer are in \<open>Console\<close>. The daemon is followed for as
  long as its listener reports connections; each of them is handed to a task of its own, which is
  \<open>handle_incoming\<close> on the world of that connection.
\<close>

datatype command = DaemonCmd | SendCmd string "path list" | PeersCmd | IdentityCmd | StatusCmd

text \<open>An error of the program: the context the code gives, if any, and the text of the cause.\<close>

datatype app_error = Context string string | Cause string

definition ctx :: "string \<Rightarrow> ('e \<Rightarrow> string) \<Rightarrow> ('a, 'e) result \<Rightarrow> ('a, app_error) result" where
  "ctx what display = map_err (\<lambda>e. Context what (display e))"

definition plain :: "('e \<Rightarrow> string) \<Rightarrow> ('a, 'e) result \<Rightarrow> ('a, app_error) result" where
  "plain display = map_err (\<lambda>e. Cause (display e))"

text \<open>
  \<open>dm_sockets\<close> are the sockets of the operating system with the connections that will arrive; \<open>dm_seen\<close> are the
  mDNS events that arrive while a command waits.
\<close>

record daemon_env =
  dm_toml :: "bytes \<Rightarrow> (config, string) result"
  dm_keys :: key_lib
  dm_lib :: lib
  dm_mdns :: mdns_lib
  dm_local_ip :: "string option"
  dm_browsed :: "(unit, string) result"
  dm_sockets :: net_sockets
  dm_seen :: "(int \<times> service_event) list"

section \<open>The steps the commands share\<close>

definition registered :: "daemon_env \<Rightarrow> config \<Rightarrow> bytes \<Rightarrow> registrar \<Rightarrow> (registrar, discovery_error) result" where
  "registered env config fp rg =
     (case register (dm_mdns env) (current_platform (lb_target_os (dm_lib env))) (dm_local_ip env) (nc_listen_port (cf_network config)) fp rg of
        (Ok _, rg') \<Rightarrow> Ok rg' | (Err e, _) \<Rightarrow> Err e | (Panic, _) \<Rightarrow> Panic)"

definition new_registrar :: "daemon_env \<Rightarrow> config \<Rightarrow> (registrar, discovery_error) result" where
  "new_registrar env config =
     registrar_new (dm_mdns env) (dc_service_type (cf_discovery config)) (device_name (lb_host (dm_lib env)) config)"

definition browsing :: "daemon_env \<Rightarrow> config \<Rightarrow> (browser, discovery_error) result" where
  "browsing env config =
     (case start_browsing (dm_browsed env) (browser_new (dc_service_type (cf_discovery config))) of
        (Ok _, b) \<Rightarrow> Ok b | (Err e, _) \<Rightarrow> Err e | (Panic, _) \<Rightarrow> Panic)"

section \<open>The daemon\<close>

record recv_task =
  tk_receiver :: recv_transfer
  tk_decision :: "decision option"

text \<open>
  The sender of the decision channel holds a decision only in automatic mode, and is dropped at the
  end of the iteration: otherwise the task receives none.
\<close>

definition connection_task :: "lib \<Rightarrow> config \<Rightarrow> recv_task" where
  "connection_task lb config =
     \<lparr>tk_receiver = recv_transfer_new lb config,
      tk_decision = (if sc_auto_accept_all (cf_security config) then Some DecideAccept else None)\<rparr>"

text \<open>
  The loop of a listener, up to the last connection that arrives: it then waits forever. An error
  of accept is logged.
\<close>

function accept_loop :: "recv_task \<Rightarrow> net_sockets \<Rightarrow> recv_task list" where
  "accept_loop task s =
     (case listener_accept s of
        None \<Rightarrow> []
      | Some (Ok _, s') \<Rightarrow> task # accept_loop task s'
      | Some (_, s') \<Rightarrow> accept_loop task s')"
  by pat_completeness auto
termination by (relation "measure (\<lambda>(_, s). length (ns_arrivals s))") (auto dest: accept_shortens)

declare accept_loop.simps [simp del]

definition run_daemon :: "daemon_env \<Rightarrow> config \<Rightarrow> identity_keys \<Rightarrow> (browser \<times> recv_task list, app_error) result" where
  "run_daemon env config k =
     bind_res (ctx ''failed to create mDNS registrar'' discovery_display (new_registrar env config)) (\<lambda>rg.
     bind_res (ctx ''failed to register mDNS service'' discovery_display (registered env config (ik_fingerprint k) rg)) (\<lambda>rg.
     bind_res (ctx ''failed to start mDNS browsing'' discovery_display (browsing env config)) (\<lambda>b.
     (case listener_bind (cf_network config) (dm_sockets env) of (bound, sockets) \<Rightarrow>
     bind_res (ctx ''failed to bind TCP listener'' network_display bound) (\<lambda>_.
       Ok (browse (dm_seen env) b, accept_loop (connection_task (dm_lib env) config) sockets))))))"

text \<open>A task runs on the world of its connection, with the decision its channel holds.\<close>

definition run_task :: "lib \<Rightarrow> recv_task \<Rightarrow> (world, unit, protocol_error) io" where
  "run_task lb t w = handle_incoming lb (tk_receiver t) (w\<lparr>wd_decision := tk_decision t\<rparr>)"

section \<open>Sending and listing\<close>

definition found_peers :: "daemon_env \<Rightarrow> config \<Rightarrow> identity_keys \<Rightarrow> (device_info list, app_error) result" where
  "found_peers env config k =
     bind_res (plain discovery_display (new_registrar env config)) (\<lambda>rg.
     bind_res (plain discovery_display (registered env config (ik_fingerprint k) rg)) (\<lambda>rg.
     bind_res (plain discovery_display (browsing env config)) (\<lambda>b.
       Ok (browser_peers (browse (dm_seen env) b)))))"

definition matches :: "string \<Rightarrow> device_info \<Rightarrow> bool" where
  "matches name d \<longleftrightarrow> str_contains (dv_name d) name \<or> str_contains (dv_id d) name"

text \<open>The list of the available names in the error is printed by \<open>Debug\<close>, a parameter of the text.\<close>

definition run_send ::
  "daemon_env \<Rightarrow> (string list \<Rightarrow> string) \<Rightarrow> config \<Rightarrow> identity_keys \<Rightarrow> string \<Rightarrow> path list
   \<Rightarrow> (world, transfer_id \<times> device_info, app_error) io" where
  "run_send env debug config k name files =
     bind_io (lift_io (found_peers env config k)) (\<lambda>peers.
     case List.find (matches name) peers of
       None \<Rightarrow> fail_io (Cause (''peer '' @ [CHR 0x27] @ name @ [CHR 0x27] @ '' not found. Available: '' @ debug (map dv_name peers)))
     | Some d \<Rightarrow> bind_io (map_err_io (\<lambda>e. Cause (protocol_display e)) (send_files (dm_lib env) config files))
         (\<lambda>t. return_io (t, d)))"

definition pad :: "nat \<Rightarrow> string \<Rightarrow> string" where
  "pad n s = s @ replicate (n - length s) (CHR '' '')"

text \<open>Only a text or an address is padded to its column; the platform prints itself without.\<close>

definition peer_line :: "device_info \<Rightarrow> string" where
  "peer_line d = pad 20 (dv_name d) @ '' '' @ pad 20 (fst (dv_addr d) @ '':'' @ show_nat (snd (dv_addr d))) @ '' ''
     @ platform_display (dv_platform d) @ '' '' @ dv_id d"

definition run_peers :: "daemon_env \<Rightarrow> config \<Rightarrow> identity_keys \<Rightarrow> (string list, app_error) result" where
  "run_peers env config k =
     bind_res (found_peers env config k) (\<lambda>peers.
       Ok ([''Searching for peers (5 seconds)...'', []]
         @ (if peers = [] then [''No peers found.'']
            else [pad 20 ''NAME'' @ '' '' @ pad 20 ''ADDRESS'' @ '' '' @ pad 15 ''PLATFORM'' @ '' ID'', replicate 70 (CHR ''-'')]
              @ map peer_line peers)))"

section \<open>The program\<close>

datatype outcome = Serving browser "recv_task list" | Sent transfer_id device_info | Printed "string list"

definition daemon_main :: "daemon_env \<Rightarrow> (string list \<Rightarrow> string) \<Rightarrow> path \<Rightarrow> command \<Rightarrow> (world, outcome, app_error) io" where
  "daemon_main env debug config_path cmd =
     bind_io (map_err_io (\<lambda>e. Context ''failed to load config'' (config_display e)) (config_load (dm_toml env) config_path)) (\<lambda>config.
     let dir = data_dir (lb_data_base (dm_lib env)) in
     bind_io (map_err_io (\<lambda>e. Context ''failed to create data dir'' (io_display e)) (fs_create_dir_all dir)) (\<lambda>_.
     bind_io (map_err_io (\<lambda>e. Context ''failed to load identity keys'' (security_display e))
       (keys_load_or_generate (dm_keys env) dir)) (\<lambda>k.
     case cmd of
       DaemonCmd \<Rightarrow> bind_io (lift_io (run_daemon env config k)) (\<lambda>(b, ts). return_io (Serving b ts))
     | SendCmd name files \<Rightarrow> bind_io (run_send env debug config k name files) (\<lambda>(t, d). return_io (Sent t d))
     | PeersCmd \<Rightarrow> bind_io (lift_io (run_peers env config k)) (\<lambda>ls. return_io (Printed ls))
     | IdentityCmd \<Rightarrow> return_io (Printed [''Device: '' @ device_name (lb_host (dm_lib env)) config,
           ''Fingerprint: '' @ fingerprint_hex k])
     | StatusCmd \<Rightarrow> return_io (Printed [''No active transfers.'']))))"

section \<open>Consent\<close>

lemma accept_loop_tasks: "t \<in> set (accept_loop task s) \<Longrightarrow> t = task"
proof (induction task s rule: accept_loop.induct)
  case (1 task s)
  show ?case
  proof (cases "listener_accept s")
    case None
    with 1(4) show ?thesis by (simp add: accept_loop.simps [of task s])
  next
    case (Some rs)
    then obtain r s' where [simp]: "listener_accept s = Some (r, s')" by (cases rs) simp
    show ?thesis using 1 by (cases r) (auto simp: accept_loop.simps [of task s])
  qed
qed

lemma run_daemon_tasks: "run_daemon env config k = Ok (b, ts) \<Longrightarrow> t \<in> set ts \<Longrightarrow> t = connection_task (dm_lib env) config"
  by (cases "listener_bind (cf_network config) (dm_sockets env)") (auto simp: run_daemon_def bind_res_Ok_iff dest: accept_loop_tasks)

text \<open>
  C22. A daemon that is not told to accept everything stores nothing: whatever the connections bring, each task
  of a daemon whose configuration does not accept automatically ends without success, leaves every file
  as it was and answers at most with a rejection.
\<close>

theorem daemon_stores_nothing_without_consent:
  assumes "run_daemon env config k = Ok (b, ts)" and "\<not> sc_auto_accept_all (cf_security config)"
    and "t \<in> set ts" and "run_task lb t w = (r, w')"
  shows "r \<noteq> Ok () \<and> nodes w' = nodes w
     \<and> (wd_outbox w' = wd_outbox w \<or> wd_outbox w' = wd_outbox w @ [TransferResponse (Reject ''no response'')])"
proof -
  have t: "tk_decision t = None" "rt_config (tk_receiver t) = config"
    using run_daemon_tasks [OF assms(1,3)] assms(2) by (simp_all add: connection_task_def recv_transfer_new_def)
  then have "decide (tk_receiver t) (w\<lparr>wd_decision := tk_decision t\<rparr>) = DecideReject ''no response''"
    using assms(2) by (simp add: decide_def)
  from rejected_run [OF this assms(4) [unfolded run_task_def]] show ?thesis by simp
qed

definition demo_sockets :: net_sockets where
  "demo_sockets = \<lparr>ns_refuses = (\<lambda>_ _. None), ns_calls = [], ns_local = (''0.0.0.0'', 42420),
     ns_arrivals = [Ok (''10.0.0.2'', 50000)]\<rparr>"

definition demo_daemon :: daemon_env where
  "demo_daemon = \<lparr>dm_toml = (\<lambda>_. Err []), dm_keys = toy_keys, dm_lib = demo_lib,
     dm_mdns = \<lparr>ml_daemon = Ok (), ml_service = (\<lambda>_. Ok ()), ml_register = (\<lambda>_. Ok ()), ml_unregister = (\<lambda>_. Ok ())\<rparr>,
     dm_local_ip = None, dm_browsed = Ok (), dm_sockets = demo_sockets, dm_seen = []\<rparr>"

definition demo_keys :: identity_keys where
  "demo_keys = \<lparr>ik_private = [], ik_public = [], ik_fingerprint = replicate 32 1, ik_storage_path = Path True []\<rparr>"

theorem daemon_stores_nothing_without_consent_witness:
  "\<exists>b t r w'. run_daemon demo_daemon default_config demo_keys = Ok (b, [t])
    \<and> run_task demo_lib t (demo_world [Ok (Some (TransferRequest demo_request))]) = (r, w')
    \<and> r \<noteq> Ok () \<and> nodes w' = nodes (demo_world [])"
proof -
  let ?w = "demo_world [Ok (Some (TransferRequest demo_request))]"
  let ?t = "connection_task demo_lib default_config"
  obtain b where b: "run_daemon demo_daemon default_config demo_keys = Ok (b, [?t])"
    by (simp add: run_daemon_def demo_daemon_def ctx_def new_registrar_def registrar_new_def registered_def register_def
        browsing_def start_browsing_def bind_io_def lift_io_def Let_def listener_bind_def bind_calls_def sock_call_def
        map_err_io_def return_io_def demo_sockets_def accept_loop.simps listener_accept_def)
  obtain r w' where run: "run_task demo_lib ?t ?w = (r, w')" by fastforce
  have "\<not> sc_auto_accept_all (cf_security default_config)" by (simp add: default_config_def default_security_def)
  from daemon_stores_nothing_without_consent [OF b this _ run] have "r \<noteq> Ok ()" "nodes w' = nodes ?w" by simp_all
  then show ?thesis using b run by (auto simp: demo_world_def)
qed

text \<open>No command tells its browser its own fingerprint: the daemon lists itself among the peers.\<close>

lemma daemon_lists_itself:
  assumes "browsing env config = Ok b" and "length fp = 32"
  shows "\<exists>d. browser_peers (browse [(t, ServiceResolved (resolved fullname (ip # ips) (registered_service pf lip port fp rg)))] b) = [d]
    \<and> dv_fingerprint d = fp"
proof -
  have "br_self_id b = None \<and> br_peers b = [] \<and> br_running b"
    using assms(1) by (auto simp: browsing_def start_browsing_def browser_new_def bind_io_def lift_io_def split: result.splits)
  moreover have "parse_fingerprint (hex_encode fp) = (Ok (Some fp) :: (bytes option, unit) result)"
    using assms(2) by (simp add: parse_fingerprint_def hex_roundtrip)
  ultimately show ?thesis
    by (simp add: browse_def resolved_def registered_service_def bind_io_def lift_io_def Let_def browser_peers_def)
qed

end
