(* ===== verification/C_Abi.thy ===== *)
theory C_Abi
  imports Daemon
begin

text \<open>
  \<open>crates/justdrop-ffi/src/legacy_c_abi.rs\<close>: the functions called from Swift and Kotlin, over the statics
  \<open>GLOBAL\<close>, \<open>PRE_INIT_DATA_DIR\<close> and \<open>PRE_INIT_DOWNLOADS_DIR\<close>. A C string is a null pointer or the bytes before
  its terminator. The outcomes of the runtime and of the mDNS library, the JSON library and the
  key library are parameters; a task is recorded when it is spawned.
\<close>

section \<open>C strings\<close>

definition text_of :: "bytes \<Rightarrow> string" where
  "text_of bs = map (\<lambda>b. char_of (unat b)) bs"

text \<open>
  \<open>to_string_lossy\<close> keeps the characters and replaces each longest prefix of a character that is cut off or
  ill-formed by the replacement character: \<open>char_len\<close> is the length of the character a text begins
  with, or 0, and \<open>bad_len\<close> the length of the prefix replaced.
\<close>

definition char_len :: "bytes \<Rightarrow> nat" where
  "char_len bs = (case List.find (\<lambda>k. k \<le> length bs \<and> utf8_valid (take k bs)) [1, 2, 3, 4] of Some k \<Rightarrow> k | None \<Rightarrow> 0)"

definition second_ok :: "byte \<Rightarrow> byte \<Rightarrow> bool" where
  "second_ok b c \<longleftrightarrow> cont c \<and> (b = 0xE0 \<longrightarrow> 0xA0 \<le> c) \<and> (b = 0xED \<longrightarrow> c \<le> 0x9F)
     \<and> (b = 0xF0 \<longrightarrow> 0x90 \<le> c) \<and> (b = 0xF4 \<longrightarrow> c \<le> 0x8F)"

fun bad_len :: "bytes \<Rightarrow> nat" where
  "bad_len (b # c # r) =
     (if 0xE0 \<le> b \<and> b \<le> 0xF4 \<and> second_ok b c
      then (if 0xF0 \<le> b \<and> r \<noteq> [] \<and> cont (hd r) then 3 else 2) else 1)"
| "bad_len _ = 1"

lemma bad_len_pos: "0 < bad_len bs"
  by (induction bs rule: bad_len.induct) auto

function lossy :: "bytes \<Rightarrow> bytes" where
  "lossy bs =
     (if bs = [] then []
      else if char_len bs \<noteq> 0 then take (char_len bs) bs @ lossy (drop (char_len bs) bs)
      else [0xEF, 0xBF, 0xBD] @ lossy (drop (bad_len bs) bs))"
  by pat_completeness auto
termination
  by (relation "measure length") (use bad_len_pos in \<open>auto simp: length_greater_0_conv [symmetric] simp del: length_greater_0_conv\<close>)

declare lossy.simps [simp del]

definition lossy_text :: "bytes \<Rightarrow> string" where
  "lossy_text bs = text_of (lossy bs)"

section \<open>The statics\<close>

record global_state =
  gs_config :: config
  gs_identity :: identity_keys
  gs_browser :: browser
  gs_registrar :: registrar

datatype abi_task = ListenTask config identity_keys | SendTask config identity_keys device_info "path list"

record abi =
  ga_fs :: fs
  ga_global :: "global_state option"
  ga_data_dir :: "path option"
  ga_downloads_dir :: "path option"
  ga_tasks :: "abi_task list"
  ga_dropped :: "registrar list"

record abi_env =
  ae_keys :: key_lib
  ae_host :: host_env
  ae_data_base :: "path option"
  ae_runtime :: "(unit, string) result"
  ae_mdns :: mdns_lib
  ae_browsed :: "(unit, string) result"
  ae_platform :: platform
  ae_local_ip :: "string option"

definition on_fs :: "(fs, 'a, 'e) io \<Rightarrow> (abi, 'a, 'e) io" where
  "on_fs m s = (case m (ga_fs s) of (r, f) \<Rightarrow> (r, s\<lparr>ga_fs := f\<rparr>))"

text \<open>A panic cannot cross into C: it aborts the process, which the result \<open>Panic\<close> stands for.\<close>

type_synonym code = "(int, unit) result"

section \<open>Before initialisation\<close>

definition set_dir :: "(path \<Rightarrow> abi \<Rightarrow> abi) \<Rightarrow> bytes option \<Rightarrow> abi \<Rightarrow> code \<times> abi" where
  "set_dir store ptr s =
     (case ptr of
        None \<Rightarrow> (Ok (- 1), s)
      | Some bs \<Rightarrow> if utf8_valid bs then (Ok 0, store (path_of (text_of bs)) s) else (Ok (- 2), s))"

definition justdrop_set_data_dir :: "bytes option \<Rightarrow> abi \<Rightarrow> code \<times> abi" where
  "justdrop_set_data_dir = set_dir (\<lambda>d s. s\<lparr>ga_data_dir := Some d\<rparr>)"

definition justdrop_set_downloads_dir :: "bytes option \<Rightarrow> abi \<Rightarrow> code \<times> abi" where
  "justdrop_set_downloads_dir = set_dir (\<lambda>d s. s\<lparr>ga_downloads_dir := Some d\<rparr>)"

text \<open>The aliases of \<open>android.rs\<close>, and the call of \<open>macos.rs\<close>, which only checks its argument.\<close>

definition justdrop_android_set_downloads_dir :: "bytes option \<Rightarrow> abi \<Rightarrow> code \<times> abi" where
  "justdrop_android_set_downloads_dir = justdrop_set_downloads_dir"

definition justdrop_android_set_data_dir :: "bytes option \<Rightarrow> abi \<Rightarrow> code \<times> abi" where
  "justdrop_android_set_data_dir = justdrop_set_data_dir"

definition justdrop_macos_set_bundle_id :: "bytes option \<Rightarrow> abi \<Rightarrow> code \<times> abi" where
  "justdrop_macos_set_bundle_id = set_dir (\<lambda>_ s. s)"

section \<open>Initialisation\<close>

definition init_dir :: "abi_env \<Rightarrow> bytes option \<Rightarrow> abi \<Rightarrow> path" where
  "init_dir env ptr s =
     (case ptr of
        Some bs \<Rightarrow> path_of (lossy_text bs)
      | None \<Rightarrow> (case ga_data_dir s of Some d \<Rightarrow> d | None \<Rightarrow> data_dir (ae_data_base env)))"

definition drop_registrar_of :: "abi_env \<Rightarrow> registrar \<Rightarrow> abi \<Rightarrow> abi" where
  "drop_registrar_of env rg s = s\<lparr>ga_dropped := ga_dropped s @ [drop_registrar (ae_mdns env) rg]\<rparr>"

text \<open>From the registrar on: announce, browse, spawn the listener and fill the global.\<close>

definition start_services :: "abi_env \<Rightarrow> identity_keys \<Rightarrow> abi \<Rightarrow> code \<times> abi" where
  "start_services env k s =
     (let config = default_config;
          service_type = dc_service_type (cf_discovery config);
          fp = ik_fingerprint k
      in case registrar_new (ae_mdns env) service_type (device_name (ae_host env) config) of
           Err _ \<Rightarrow> (Ok (- 4), s)
         | Panic \<Rightarrow> (Panic, s)
         | Ok rg0 \<Rightarrow>
             (case register (ae_mdns env) (ae_platform env) (ae_local_ip env) (nc_listen_port (cf_network config)) fp rg0 of
                (Err _, rg) \<Rightarrow> (Ok (- 5), drop_registrar_of env rg s)
              | (Panic, rg) \<Rightarrow> (Panic, s)
              | (Ok _, rg) \<Rightarrow>
                  (case set_self_fingerprint fp (browser_new service_type) :: (unit, unit) result \<times> browser of
                     (Ok _, b) \<Rightarrow>
                       (case start_browsing (ae_browsed env) b of
                          (Ok _, b') \<Rightarrow>
                            (Ok 0, s\<lparr>ga_global := Some \<lparr>gs_config = config, gs_identity = k, gs_browser = b', gs_registrar = rg\<rparr>,
                                     ga_tasks := ga_tasks s @ [ListenTask config k]\<rparr>)
                        | (_, b') \<Rightarrow> (Ok (- 6), drop_registrar_of env rg s))
                   | (_, b) \<Rightarrow> (Panic, s))))"

definition justdrop_init :: "abi_env \<Rightarrow> bytes option \<Rightarrow> abi \<Rightarrow> code \<times> abi" where
  "justdrop_init env ptr s =
     (if ga_global s \<noteq> None then (Ok 0, s)
      else let dir = init_dir env ptr s
        in case on_fs (fs_create_dir_all dir) s of
             (Err _, s1) \<Rightarrow> (Ok (- 1), s1)
           | (Panic, s1) \<Rightarrow> (Panic, s1)
           | (Ok _, s1) \<Rightarrow>
               (case on_fs (keys_load_or_generate (ae_keys env) dir) s1 of
                  (Err _, s2) \<Rightarrow> (Ok (- 2), s2)
                | (Panic, s2) \<Rightarrow> (Panic, s2)
                | (Ok k, s2) \<Rightarrow>
                    (case ae_runtime env of Ok _ \<Rightarrow> start_services env k s2 | _ \<Rightarrow> (Ok (- 3), s2))))"

definition justdrop_shutdown :: "abi_env \<Rightarrow> abi \<Rightarrow> code \<times> abi" where
  "justdrop_shutdown env s =
     (case ga_global s of
        None \<Rightarrow> (Ok 0, s)
      | Some g \<Rightarrow> (Ok 0, drop_registrar_of env (gs_registrar g) (s\<lparr>ga_global := None\<rparr>)))"

section \<open>Peers and transfers\<close>

definition justdrop_start_discovery :: "abi \<Rightarrow> code \<times> abi" where
  "justdrop_start_discovery s = (Ok 0, s)"

text \<open>A peer of the JSON answer: identifier, name, address, platform and fingerprint, as texts.\<close>

type_synonym peer_json = "string \<times> string \<times> string \<times> string \<times> string"

definition json_peer :: "device_info \<Rightarrow> peer_json" where
  "json_peer d = (dv_id d, dv_name d, fst (dv_addr d) @ '':'' @ show_nat (snd (dv_addr d)),
     platform_display (dv_platform d), hex_encode (dv_fingerprint d))"

definition justdrop_get_peers :: "(peer_json list \<Rightarrow> (bytes, string) result) \<Rightarrow> abi \<Rightarrow> bytes" where
  "justdrop_get_peers to_json s =
     (case ga_global s of
        None \<Rightarrow> [0x5B, 0x5D]
      | Some g \<Rightarrow>
          let json = (case to_json (map json_peer (browser_peers (gs_browser g))) of Ok j \<Rightarrow> j | _ \<Rightarrow> [0x5B, 0x5D])
          in if 0 \<in> set json then [] else json)"

definition justdrop_send_files ::
  "(string \<Rightarrow> (string list, string) result) \<Rightarrow> bytes option \<Rightarrow> bytes option \<Rightarrow> abi \<Rightarrow> code \<times> abi" where
  "justdrop_send_files from_json peer_id paths_json s =
     (case (peer_id, paths_json) of
        (Some i, Some j) \<Rightarrow>
          (case from_json (lossy_text j) of
             Ok paths \<Rightarrow>
               (case ga_global s of
                  None \<Rightarrow> (Ok (- 3), s)
                | Some g \<Rightarrow>
                    (case get_peer (lossy_text i) (gs_browser g) of
                       None \<Rightarrow> (Ok (- 4), s)
                     | Some d \<Rightarrow> (Ok 0, s\<lparr>ga_tasks := ga_tasks s
                           @ [SendTask (gs_config g) (gs_identity g) d (map path_of paths)]\<rparr>)))
           | _ \<Rightarrow> (Ok (- 2), s))
      | _ \<Rightarrow> (Ok (- 1), s))"

definition justdrop_set_trust :: "bytes option \<Rightarrow> int \<Rightarrow> abi \<Rightarrow> code \<times> abi" where
  "justdrop_set_trust peer_id level s = (Ok 0, s)"

definition justdrop_cancel_transfer :: "bytes option \<Rightarrow> abi \<Rightarrow> code \<times> abi" where
  "justdrop_cancel_transfer t s = (Ok 0, s)"

definition justdrop_accept_transfer :: "bytes option \<Rightarrow> abi \<Rightarrow> code \<times> abi" where
  "justdrop_accept_transfer t s = (Ok 0, s)"

definition justdrop_reject_transfer :: "bytes option \<Rightarrow> abi \<Rightarrow> code \<times> abi" where
  "justdrop_reject_transfer t s = (Ok 0, s)"

section \<open>Incoming connections\<close>

text \<open>
  The listener puts an acceptance into the decision channel of every connection before it hands it
  to a task: nobody is asked, whatever the configuration says.
\<close>

definition abi_connection_task :: "lib \<Rightarrow> config \<Rightarrow> recv_task" where
  "abi_connection_task lb config = \<lparr>tk_receiver = recv_transfer_new lb config, tk_decision = Some DecideAccept\<rparr>"

text \<open>The task \<open>ListenTask\<close>: when the listener cannot be bound it ends, although initialisation has returned 0.\<close>

definition abi_listen :: "lib \<Rightarrow> config \<Rightarrow> net_sockets \<Rightarrow> recv_task list" where
  "abi_listen lb config s =
     (case listener_bind (cf_network config) s of
        (Ok _, s') \<Rightarrow> accept_loop (abi_connection_task lb config) s'
      | (_, s') \<Rightarrow> [])"

lemma abi_accepts_everyone:
  assumes "t \<in> set (abi_listen lb config s)"
  shows "decide (tk_receiver t) (w\<lparr>wd_decision := tk_decision t\<rparr>) = DecideAccept"
proof -
  have "t = abi_connection_task lb config"
    using assms by (auto simp: abi_listen_def split: prod.splits result.splits dest: accept_loop_tasks)
  then show ?thesis by (simp add: decide_def abi_connection_task_def)
qed

section \<open>Initialisation is all or nothing\<close>

lemma on_fs_fields:
  "ga_global (snd (on_fs m s)) = ga_global s" "ga_tasks (snd (on_fs m s)) = ga_tasks s"
  "ga_data_dir (snd (on_fs m s)) = ga_data_dir s" "ga_downloads_dir (snd (on_fs m s)) = ga_downloads_dir s"
  by (simp_all add: on_fs_def split: prod.split)

lemma start_services_cases:
  obtains (panic) "start_services env k s = (Panic, s)"
  | (failed) c s' where "start_services env k s = (Ok c, s')" "c \<in> {- 6, - 5, - 4}"
      "ga_global s' = ga_global s" "ga_tasks s' = ga_tasks s"
  | (started) b rg s' where "start_services env k s = (Ok 0, s')"
      "ga_global s' = Some \<lparr>gs_config = default_config, gs_identity = k, gs_browser = b, gs_registrar = rg\<rparr>"
      "ga_tasks s' = ga_tasks s @ [ListenTask default_config k]"
      "br_peers b = []" "br_self_id b = Some (hex_encode (take 8 (ik_fingerprint k)))"
proof -
  define cf where "cf = default_config"
  define ty where "ty = dc_service_type (cf_discovery cf)"
  show thesis
  proof (cases "registrar_new (ae_mdns env) ty (device_name (ae_host env) cf)")
    case (Ok rg0)
    obtain r rg where reg: "register (ae_mdns env) (ae_platform env) (ae_local_ip env) (nc_listen_port (cf_network cf))
        (ik_fingerprint k) rg0 = (r, rg)" by fastforce
    show thesis
    proof (cases r)
      case r: (Ok u)
      show thesis
      proof (cases "length (ik_fingerprint k) < 8")
        case True
        then show thesis using that(1) Ok reg r
          by (simp add: start_services_def Let_def cf_def [symmetric] ty_def [symmetric] set_self_fingerprint_def)
      next
        case False
        show thesis
        proof (cases "ae_browsed env")
          case b: (Ok u)
          let ?b = "(browser_new ty)\<lparr>br_self_id := Some (hex_encode (take 8 (ik_fingerprint k))), br_running := True\<rparr>"
          have "start_services env k s = (Ok 0, s\<lparr>ga_global := Some \<lparr>gs_config = cf, gs_identity = k, gs_browser = ?b,
              gs_registrar = rg\<rparr>, ga_tasks := ga_tasks s @ [ListenTask cf k]\<rparr>)"
            using Ok reg r False b
            by (simp add: start_services_def Let_def cf_def [symmetric] ty_def [symmetric] set_self_fingerprint_def
                start_browsing_def bind_io_def lift_io_def)
          then show thesis by (rule that(3) [where b = ?b]) (simp_all add: cf_def browser_new_def)
        qed (use Ok reg r False that(2) in \<open>auto simp: start_services_def Let_def cf_def [symmetric] ty_def [symmetric]
              set_self_fingerprint_def start_browsing_def bind_io_def lift_io_def drop_registrar_of_def\<close>)
      qed
    qed (use Ok reg that(1,2) in \<open>auto simp: start_services_def Let_def cf_def [symmetric] ty_def [symmetric]
          drop_registrar_of_def\<close>)
  qed (use that(1,2) in \<open>auto simp: start_services_def Let_def cf_def [symmetric] ty_def [symmetric]\<close>)
qed

lemma init_cases:
  assumes "ga_global s = None"
  obtains (panic) s' where "justdrop_init env ptr s = (Panic, s')" "ga_global s' = None" "ga_tasks s' = ga_tasks s"
  | (failed) c s' where "justdrop_init env ptr s = (Ok c, s')" "c \<in> {- 6 .. - 1}" "ga_global s' = None" "ga_tasks s' = ga_tasks s"
  | (started) b rg k s' where "justdrop_init env ptr s = (Ok 0, s')"
      "ga_global s' = Some \<lparr>gs_config = default_config, gs_identity = k, gs_browser = b, gs_registrar = rg\<rparr>"
      "ga_tasks s' = ga_tasks s @ [ListenTask default_config k]"
      "br_peers b = []" "br_self_id b = Some (hex_encode (take 8 (ik_fingerprint k)))"
proof -
  obtain r1 s1 where d: "on_fs (fs_create_dir_all (init_dir env ptr s)) s = (r1, s1)" by fastforce
  obtain r2 s2 where i: "on_fs (keys_load_or_generate (ae_keys env) (init_dir env ptr s)) s1 = (r2, s2)" by fastforce
  have f1: "ga_global s1 = None" "ga_tasks s1 = ga_tasks s"
    using on_fs_fields(1,2) [of "fs_create_dir_all (init_dir env ptr s)" s] d assms by simp_all
  have f2: "ga_global s2 = None" "ga_tasks s2 = ga_tasks s"
    using on_fs_fields(1,2) [of "keys_load_or_generate (ae_keys env) (init_dir env ptr s)" s1] i f1 by simp_all
  show thesis
  proof (cases r1)
    case r1: (Ok u)
    show thesis
    proof (cases r2)
      case r2: (Ok k)
      show thesis
      proof (cases "ae_runtime env")
        case rt: (Ok u)
        have run: "justdrop_init env ptr s = start_services env k s2"
          using assms d i r1 r2 rt by (simp add: justdrop_init_def Let_def)
        show thesis
          by (rule start_services_cases [of env k s2]) (use that run f2 in auto)
      qed (use assms d i r1 r2 f2 that(2) in \<open>auto simp: justdrop_init_def Let_def\<close>)
    qed (use assms d i r1 f2 that(1,2) in \<open>auto simp: justdrop_init_def Let_def\<close>)
  qed (use assms d f1 that(1,2) in \<open>auto simp: justdrop_init_def Let_def\<close>)
qed

text \<open>
  C29. Initialisation is all or nothing: on an initialised library it returns 0 and changes nothing; otherwise it
  either returns 0, has filled the global state with an identity and started one listener for it, or
  returns one of the codes -1 to -6 and leaves the library uninitialised with no new task.
\<close>

theorem init_all_or_nothing:
  "case justdrop_init env ptr s of
     (Ok c, s') \<Rightarrow>
       (case ga_global s of
          Some _ \<Rightarrow> c = 0 \<and> s' = s
        | None \<Rightarrow>
            (c = 0 \<and> (\<exists>g. ga_global s' = Some g
               \<and> ga_tasks s' = ga_tasks s @ [ListenTask (gs_config g) (gs_identity g)]))
            \<or> (c \<in> {- 6 .. - 1} \<and> ga_global s' = None \<and> ga_tasks s' = ga_tasks s))
   | (_, s') \<Rightarrow> ga_global s' = None"
proof (cases "ga_global s")
  case None
  show ?thesis
    by (rule init_cases [OF None, of env ptr]) (use None in auto)
qed (simp add: justdrop_init_def)

section \<open>Histories\<close>

datatype abi_call =
    CallSetDataDir "bytes option"
  | CallSetDownloadsDir "bytes option"
  | CallInit abi_env "bytes option"
  | CallShutdown abi_env
  | CallStartDiscovery
  | CallSendFiles "bytes option" "bytes option"
  | CallSetTrust "bytes option" int
  | CallCancel "bytes option"
  | CallAccept "bytes option"
  | CallReject "bytes option"
  | NetworkEvent int service_event

fun abi_step :: "(string \<Rightarrow> (string list, string) result) \<Rightarrow> abi_call \<Rightarrow> abi \<Rightarrow> abi" where
  "abi_step js (CallSetDataDir p) s = snd (justdrop_set_data_dir p s)"
| "abi_step js (CallSetDownloadsDir p) s = snd (justdrop_set_downloads_dir p s)"
| "abi_step js (CallInit env p) s = snd (justdrop_init env p s)"
| "abi_step js (CallShutdown env) s = snd (justdrop_shutdown env s)"
| "abi_step js CallStartDiscovery s = snd (justdrop_start_discovery s)"
| "abi_step js (CallSendFiles i ps) s = snd (justdrop_send_files js i ps s)"
| "abi_step js (CallSetTrust i l) s = snd (justdrop_set_trust i l s)"
| "abi_step js (CallCancel t) s = snd (justdrop_cancel_transfer t s)"
| "abi_step js (CallAccept t) s = snd (justdrop_accept_transfer t s)"
| "abi_step js (CallReject t) s = snd (justdrop_reject_transfer t s)"
| "abi_step js (NetworkEvent now ev) s =
     (case ga_global s of None \<Rightarrow> s
      | Some g \<Rightarrow> s\<lparr>ga_global := Some (g\<lparr>gs_browser := browse_step (now, ev) (gs_browser g)\<rparr>)\<rparr>)"

definition run_abi :: "(string \<Rightarrow> (string list, string) result) \<Rightarrow> abi_call list \<Rightarrow> abi \<Rightarrow> abi" where
  "run_abi js calls s = fold (abi_step js) calls s"

definition fresh_abi :: "fs \<Rightarrow> abi" where
  "fresh_abi f = \<lparr>ga_fs = f, ga_global = None, ga_data_dir = None, ga_downloads_dir = None, ga_tasks = [], ga_dropped = []\<rparr>"

definition other_device :: "identity_keys \<Rightarrow> device_info \<Rightarrow> bool" where
  "other_device k d \<longleftrightarrow> length (dv_fingerprint d) = 32 \<and> take 8 (dv_fingerprint d) \<noteq> take 8 (ik_fingerprint k)
     \<and> dv_id d = hex_encode (take 8 (dv_fingerprint d))"

fun good_task :: "abi_task \<Rightarrow> bool" where
  "good_task (ListenTask c k) = True"
| "good_task (SendTask c k d ps) = other_device k d"

definition abi_inv :: "abi \<Rightarrow> bool" where
  "abi_inv s \<longleftrightarrow> (\<forall>g. ga_global s = Some g \<longrightarrow> browser_inv (gs_browser g)
        \<and> br_self_id (gs_browser g) = Some (hex_encode (take 8 (ik_fingerprint (gs_identity g)))))
     \<and> (\<forall>t \<in> set (ga_tasks s). good_task t)"

lemma listed_is_other:
  assumes "browser_inv b" "br_self_id b = Some (hex_encode (take 8 (ik_fingerprint k)))" "get_peer i b = Some d"
  shows "other_device k d"
  using assms by (auto simp: browser_inv_def get_peer_def other_device_def hex_encode_inj dest!: map_of_SomeD)

lemma init_inv:
  assumes "abi_inv s"
  shows "abi_inv (snd (justdrop_init env p s))"
proof (cases "ga_global s")
  case None
  show ?thesis
    by (rule init_cases [OF None, of env p]) (use assms None in \<open>auto simp: abi_inv_def browser_inv_def\<close>)
qed (use assms in \<open>simp add: justdrop_init_def\<close>)

lemma send_inv: "abi_inv s \<Longrightarrow> abi_inv (snd (justdrop_send_files js i ps s))"
  by (auto simp: abi_inv_def justdrop_send_files_def intro: listed_is_other split: option.split result.split)

lemma abi_step_inv: "abi_inv s \<Longrightarrow> abi_inv (abi_step js call s)"
proof (cases call)
  case (NetworkEvent now ev)
  then show "abi_inv s \<Longrightarrow> abi_inv (abi_step js call s)"
    using browse_step_inv [of _ now ev] by (auto simp: abi_inv_def split: option.split)
next
  case (CallInit env p)
  then show "abi_inv s \<Longrightarrow> abi_inv (abi_step js call s)" by (simp add: init_inv)
next
  case (CallSendFiles i ps)
  then show "abi_inv s \<Longrightarrow> abi_inv (abi_step js call s)" by (simp add: send_inv)
qed (auto simp: abi_inv_def justdrop_set_data_dir_def justdrop_set_downloads_dir_def set_dir_def justdrop_shutdown_def
    drop_registrar_of_def justdrop_start_discovery_def justdrop_set_trust_def justdrop_cancel_transfer_def
    justdrop_accept_transfer_def justdrop_reject_transfer_def split: option.split)

text \<open>
  C14. The library never sends to itself: in every history of calls and announcements, whatever is announced on
  the network, each transfer that is started goes to a device known by a full fingerprint of
  its own that differs from the identity that sends it.
\<close>

theorem abi_sends_to_others:
  assumes "SendTask c k d ps \<in> set (ga_tasks (run_abi js calls (fresh_abi f)))"
  shows "length (dv_fingerprint d) = 32 \<and> take 8 (dv_fingerprint d) \<noteq> take 8 (ik_fingerprint k)
     \<and> dv_id d = hex_encode (take 8 (dv_fingerprint d))"
proof -
  have run: "abi_inv s \<Longrightarrow> abi_inv (run_abi js calls s)" for s
    unfolding run_abi_def by (induction calls arbitrary: s) (simp_all add: abi_step_inv)
  have "abi_inv (run_abi js calls (fresh_abi f))" by (rule run) (simp add: abi_inv_def fresh_abi_def)
  then show ?thesis using assms by (auto simp: abi_inv_def other_device_def)
qed

lemma lossy_ascii: "\<forall>b \<in> set bs. b < 0x80 \<Longrightarrow> lossy bs = bs"
proof (induction bs)
  case (Cons b bs)
  then have "char_len (b # bs) = 1" by (simp add: char_len_def utf8_valid.simps)
  then show ?case using Cons by (simp add: lossy.simps [of "b # bs"])
qed (simp add: lossy.simps)

definition demo_env :: abi_env where
  "demo_env = \<lparr>ae_keys = toy_keys\<lparr>kl_generate_keypair := Ok (replicate 32 1, replicate 32 2)\<rparr>,
     ae_host = \<lparr>he_hostname_cmd = None, he_HOSTNAME = Some ''Me'', he_COMPUTERNAME = None\<rparr>, ae_data_base = None,
     ae_runtime = Ok (), ae_mdns = \<lparr>ml_daemon = Ok (), ml_service = (\<lambda>_. Ok ()), ml_register = (\<lambda>_. Ok ()),
       ml_unregister = (\<lambda>_. Ok ())\<rparr>, ae_browsed = Ok (), ae_platform = Linux, ae_local_ip = None\<rparr>"

definition demo_disk :: fs where
  "demo_disk = \<lparr>nodes = [path_of ''/s'' \<mapsto> DirN], fault = \<lambda>_ _ _. None, cap = \<lambda>_. 1, ticks = 0\<rparr>"

lemma toy_text_valid: "utf8_valid (replicate m 1 @ replicate n 2)"
proof -
  have "utf8_valid (replicate n 2)" by (induction n) (simp_all add: utf8_valid.simps)
  then show ?thesis by (induction m) (simp_all add: utf8_valid.simps)
qed

lemma demo_services:
  assumes "8 \<le> length (ik_fingerprint k)"
  shows "\<exists>b rg. start_services demo_env k s = (Ok 0, s\<lparr>ga_global := Some \<lparr>gs_config = default_config, gs_identity = k,
       gs_browser = b, gs_registrar = rg\<rparr>, ga_tasks := ga_tasks s @ [ListenTask default_config k]\<rparr>)
    \<and> br_peers b = [] \<and> br_running b \<and> br_self_id b = Some (hex_encode (take 8 (ik_fingerprint k)))"
  using assms
  by (simp add: start_services_def demo_env_def Let_def registrar_new_def register_def bind_io_def lift_io_def
      set_self_fingerprint_def start_browsing_def browser_new_def) (intro exI conjI, rule refl, simp_all)

lemma demo_init:
  "\<exists>s' k b rg. justdrop_init demo_env (Some [0x2F, 0x73]) (fresh_abi demo_disk) = (Ok 0, s')
    \<and> ga_global s' = Some \<lparr>gs_config = default_config, gs_identity = k, gs_browser = b, gs_registrar = rg\<rparr>
    \<and> ik_fingerprint k = replicate 32 2 \<and> br_peers b = [] \<and> br_running b \<and> br_self_id b = Some (hex_encode (replicate 8 2))"
proof -
  let ?d = "path_of ''/s''"
  let ?k = "\<lparr>ik_private = replicate 32 1, ik_public = replicate 32 2, ik_fingerprint = replicate 32 2,
    ik_storage_path = join ?d (path_of ''identity_keys.json'')\<rparr>"
  have dir: "init_dir demo_env (Some [0x2F, 0x73]) (fresh_abi demo_disk) = ?d"
    by (simp add: init_dir_def lossy_text_def lossy_ascii text_of_def) code_simp
  have r: "id_ready ?d ''identity_keys.json'' demo_disk" "nodes demo_disk (join ?d (path_of ''identity_keys.json'')) = None"
    by (auto simp: id_ready_def healthy_def dirs_ok_def path_eval join_def le_Suc_eq demo_disk_def)
  let ?f = "fs_step 1 (nodes demo_disk) demo_disk"
  have mk: "fs_create_dir_all ?d demo_disk = (Ok (), ?f)"
    by (rule id_save_run(2) [OF r(1) _ refl]) (simp add: plain_name_def)
  have r': "id_ready ?d ''identity_keys.json'' ?f" "nodes ?f (join ?d (path_of ''identity_keys.json'')) = None"
    using r by (simp_all add: id_ready_def dirs_ok_def)
  have "keys_fresh toy_keys ?d (Ok (replicate 32 1, replicate 32 2)) ?k"
    by (simp add: keys_fresh_def toy_keys_def toy_text_valid)
  then obtain f' where f': "keys_load_or_generate (ae_keys demo_env) ?d ?f = (Ok ?k, f')"
    using noise_identity.first [OF r', of toy_keys "Ok (replicate 32 1, replicate 32 2)" ?k] by (auto simp: demo_env_def)
  have on1: "on_fs (fs_create_dir_all ?d) (fresh_abi demo_disk) = (Ok (), (fresh_abi demo_disk)\<lparr>ga_fs := ?f\<rparr>)"
    using mk by (simp add: on_fs_def fresh_abi_def)
  have on2: "on_fs (keys_load_or_generate (ae_keys demo_env) ?d) ((fresh_abi demo_disk)\<lparr>ga_fs := ?f\<rparr>)
      = (Ok ?k, (fresh_abi demo_disk)\<lparr>ga_fs := f'\<rparr>)"
    using f' by (simp add: on_fs_def)
  have "ae_runtime demo_env = Ok ()" "ga_global (fresh_abi demo_disk) = None"
    by (simp_all add: demo_env_def fresh_abi_def)
  then have "justdrop_init demo_env (Some [0x2F, 0x73]) (fresh_abi demo_disk)
      = start_services demo_env ?k ((fresh_abi demo_disk)\<lparr>ga_fs := f'\<rparr>)"
    unfolding justdrop_init_def Let_def dir on1 prod.case result.case on2 by simp
  then show ?thesis using demo_services [of ?k "(fresh_abi demo_disk)\<lparr>ga_fs := f'\<rparr>"] by auto
qed

theorem abi_sends_to_others_witness:
  "\<exists>c k d ps. SendTask c k d ps \<in> set (ga_tasks (run_abi (\<lambda>_. Ok [''/f''])
        [CallInit demo_env (Some [0x2F, 0x73]),
         NetworkEvent 5 (ServiceResolved (resolved ''Ann-PC._justdrop._tcp.local.'' [''10.0.0.2'']
             (registered_service Linux None 42420 (replicate 32 1) demo_registrar))),
         CallSendFiles (Some (concat (replicate 8 [0x30, 0x31]))) (Some [])] (fresh_abi demo_disk)))
    \<and> take 8 (dv_fingerprint d) \<noteq> take 8 (ik_fingerprint k)"
proof -
  obtain s' k b rg where i: "justdrop_init demo_env (Some [0x2F, 0x73]) (fresh_abi demo_disk) = (Ok 0, s')"
    and g: "ga_global s' = Some \<lparr>gs_config = default_config, gs_identity = k, gs_browser = b, gs_registrar = rg\<rparr>"
    and b: "br_peers b = []" "br_running b" "br_self_id b = Some (hex_encode (replicate 8 2))"
    using demo_init by blast
  let ?info = "resolved ''Ann-PC._justdrop._tcp.local.'' [''10.0.0.2''] (registered_service Linux None 42420 (replicate 32 1) demo_registrar)"
  let ?calls = "[CallInit demo_env (Some [0x2F, 0x73]), NetworkEvent 5 (ServiceResolved ?info),
         CallSendFiles (Some (concat (replicate 8 [0x30, 0x31]))) (Some [])]"
  have id: "lossy_text (concat (replicate 8 [0x30, 0x31])) = hex_encode (replicate 8 1)"
    by (subst lossy_text_def, subst lossy_ascii, simp) code_simp
  have "hex_encode (replicate 8 2) \<noteq> hex_encode (replicate 8 1)" by (simp add: hex_encode_inj)
  moreover have "parse_fingerprint (hex_encode (replicate 32 1)) = (Ok (Some (replicate 32 1)) :: (bytes option, unit) result)"
    by (simp add: parse_fingerprint_def hex_roundtrip)
  ultimately obtain d where d: "br_peers (browse_step (5, ServiceResolved ?info) b) = [(hex_encode (replicate 8 1), d)]"
    using b by (simp add: resolved_def registered_service_def bind_io_def lift_io_def Let_def)
  have "SendTask default_config k d [path_of ''/f''] \<in> set (ga_tasks (run_abi (\<lambda>_. Ok [''/f'']) ?calls (fresh_abi demo_disk)))"
    using i g d id by (simp add: run_abi_def justdrop_send_files_def get_peer_def)
  then show ?thesis using abi_sends_to_others by blast
qed

text \<open>The downloads directory is stored and never looked at: no other call depends on it.\<close>

definition forget_downloads :: "abi \<Rightarrow> abi" where
  "forget_downloads s = s\<lparr>ga_downloads_dir := None\<rparr>"

lemma forget_fields [simp]:
  "ga_global (forget_downloads s) = ga_global s" "ga_tasks (forget_downloads s) = ga_tasks s"
  "ga_fs (forget_downloads s) = ga_fs s" "ga_data_dir (forget_downloads s) = ga_data_dir s"
  "ga_dropped (forget_downloads s) = ga_dropped s" "forget_downloads (s\<lparr>ga_downloads_dir := d\<rparr>) = forget_downloads s"
  by (simp_all add: forget_downloads_def)

lemma forget_update [simp]:
  "forget_downloads (s\<lparr>ga_global := g\<rparr>) = (forget_downloads s)\<lparr>ga_global := g\<rparr>"
  "forget_downloads (s\<lparr>ga_tasks := ts\<rparr>) = (forget_downloads s)\<lparr>ga_tasks := ts\<rparr>"
  "forget_downloads (s\<lparr>ga_fs := f\<rparr>) = (forget_downloads s)\<lparr>ga_fs := f\<rparr>"
  "forget_downloads (s\<lparr>ga_data_dir := dd\<rparr>) = (forget_downloads s)\<lparr>ga_data_dir := dd\<rparr>"
  "forget_downloads (s\<lparr>ga_dropped := ds\<rparr>) = (forget_downloads s)\<lparr>ga_dropped := ds\<rparr>"
  by (simp_all add: forget_downloads_def)

lemma on_fs_forget: "on_fs m (forget_downloads s) = map_prod id forget_downloads (on_fs m s)"
  by (simp add: on_fs_def split: prod.split)

lemma services_forget: "start_services env k (forget_downloads s) = map_prod id forget_downloads (start_services env k s)"
  by (simp add: start_services_def Let_def drop_registrar_of_def split: result.split prod.split)

lemma init_forget: "justdrop_init env p (forget_downloads s) = map_prod id forget_downloads (justdrop_init env p s)"
proof -
  obtain r1 s1 where d: "on_fs (fs_create_dir_all (init_dir env p s)) s = (r1, s1)" by fastforce
  obtain r2 s2 where i: "on_fs (keys_load_or_generate (ae_keys env) (init_dir env p s)) s1 = (r2, s2)" by fastforce
  have dir: "init_dir env p (forget_downloads s) = init_dir env p s" by (simp add: init_dir_def split: option.split)
  have ii: "on_fs (keys_load_or_generate (ae_keys env) (init_dir env p s)) (forget_downloads s1) = (r2, forget_downloads s2)"
    by (simp only: on_fs_forget i map_prod_simp id_apply)
  have dd: "on_fs (fs_create_dir_all (init_dir env p s)) (forget_downloads s) = (r1, forget_downloads s1)"
    by (simp only: on_fs_forget d map_prod_simp id_apply)
  show ?thesis
    unfolding justdrop_init_def Let_def dir dd d forget_fields prod.case
    by (cases r1; cases r2; cases "ae_runtime env"; simp only: ii i result.case prod.case services_forget map_prod_simp id_apply split: if_split; simp)
qed

lemma downloads_dir_ignored: "justdrop_init env p (forget_downloads (snd (justdrop_set_downloads_dir d s)))
    = map_prod id forget_downloads (justdrop_init env p s)"
proof -
  have "forget_downloads (snd (justdrop_set_downloads_dir d s)) = forget_downloads s"
    by (simp add: justdrop_set_downloads_dir_def set_dir_def split: option.split)
  then show ?thesis by (simp add: init_forget)
qed

end
