(* ===== verification/Android.thy ===== *)
theory Android
  imports C_Abi
begin

text \<open>
  \<open>crates/justdrop-ffi/src/android.rs\<close>: the JNI wrappers. The JVM is a parameter: which references are null, the
  bytes of a string or an error, and new strings. So are the functions the wrappers call at the root of
  their crate, which the crate does not define there: they act on a state of their own, and a
  pointer they return is null or a C string.
\<close>

record 'j jni_env =
  jn_is_null :: "'j \<Rightarrow> bool"
  jn_get_string :: "'j \<Rightarrow> (bytes, string) result"
  jn_new_string :: "string \<Rightarrow> ('j, string) result"

record 's crate_root =
  cr_init :: "bytes option \<Rightarrow> 's \<Rightarrow> code \<times> 's"
  cr_shutdown :: "'s \<Rightarrow> code \<times> 's"
  cr_start_discovery :: "'s \<Rightarrow> code \<times> 's"
  cr_get_peers :: "'s \<Rightarrow> bytes option \<times> 's"
  cr_free_string :: "bytes \<Rightarrow> 's \<Rightarrow> 's"
  cr_send_files :: "bytes option \<Rightarrow> bytes option \<Rightarrow> 's \<Rightarrow> code \<times> 's"
  cr_accept_transfer :: "bytes option \<Rightarrow> 's \<Rightarrow> code \<times> 's"
  cr_reject_transfer :: "bytes option \<Rightarrow> 's \<Rightarrow> code \<times> 's"

text \<open>A string that cannot be read makes the wrapper return -1.\<close>

definition with_string :: "'j jni_env \<Rightarrow> 'j \<Rightarrow> (bytes \<Rightarrow> 's \<Rightarrow> code \<times> 's) \<Rightarrow> 's \<Rightarrow> code \<times> 's" where
  "with_string env j f s = (case jn_get_string env j of Ok bs \<Rightarrow> f bs s | _ \<Rightarrow> (Ok (- 1), s))"

definition java_init :: "'j jni_env \<Rightarrow> 's crate_root \<Rightarrow> 'j \<Rightarrow> 's \<Rightarrow> code \<times> 's" where
  "java_init env cr config_path s =
     (if \<not> jn_is_null env config_path then with_string env config_path (\<lambda>bs. cr_init cr (Some bs)) s
      else cr_init cr None s)"

definition java_shutdown :: "'s crate_root \<Rightarrow> 's \<Rightarrow> code \<times> 's" where
  "java_shutdown cr = cr_shutdown cr"

definition java_start_discovery :: "'s crate_root \<Rightarrow> 's \<Rightarrow> code \<times> 's" where
  "java_start_discovery cr = cr_start_discovery cr"

definition java_get_peers :: "'j jni_env \<Rightarrow> 's crate_root \<Rightarrow> 's \<Rightarrow> 'j option \<times> 's" where
  "java_get_peers env cr s =
     (case cr_get_peers cr s of
        (None, s') \<Rightarrow> (None, s')
      | (Some c_str, s') \<Rightarrow>
          (case jn_new_string env (lossy_text c_str) of
             Ok j \<Rightarrow> (Some j, cr_free_string cr c_str s')
           | _ \<Rightarrow> (None, cr_free_string cr c_str s')))"

definition java_send_files :: "'j jni_env \<Rightarrow> 's crate_root \<Rightarrow> 'j \<Rightarrow> 'j \<Rightarrow> 's \<Rightarrow> code \<times> 's" where
  "java_send_files env cr peer_id file_paths_json =
     with_string env peer_id (\<lambda>p. with_string env file_paths_json (\<lambda>f. cr_send_files cr (Some p) (Some f)))"

definition java_accept_transfer :: "'j jni_env \<Rightarrow> 's crate_root \<Rightarrow> 'j \<Rightarrow> 's \<Rightarrow> code \<times> 's" where
  "java_accept_transfer env cr transfer_id = with_string env transfer_id (\<lambda>t. cr_accept_transfer cr (Some t))"

definition java_reject_transfer :: "'j jni_env \<Rightarrow> 's crate_root \<Rightarrow> 'j \<Rightarrow> 's \<Rightarrow> code \<times> 's" where
  "java_reject_transfer env cr transfer_id = with_string env transfer_id (\<lambda>t. cr_reject_transfer cr (Some t))"

text \<open>These two call the functions of their own module.\<close>

definition java_set_downloads_dir :: "'j jni_env \<Rightarrow> 'j \<Rightarrow> abi \<Rightarrow> code \<times> abi" where
  "java_set_downloads_dir env path = with_string env path (\<lambda>p. justdrop_android_set_downloads_dir (Some p))"

definition java_set_data_dir :: "'j jni_env \<Rightarrow> 'j \<Rightarrow> abi \<Rightarrow> code \<times> abi" where
  "java_set_data_dir env path = with_string env path (\<lambda>p. justdrop_android_set_data_dir (Some p))"

section \<open>Facts\<close>

text \<open>A string the JVM cannot deliver leaves everything as it was; null is an error except for the path of \<open>init\<close>.\<close>

lemma unreadable_string_changes_nothing:
  assumes "\<nexists>bs. jn_get_string env j = Ok bs"
  shows "\<not> jn_is_null env j \<Longrightarrow> java_init env cr j s = (Ok (- 1), s)"
    and "java_accept_transfer env cr j s = (Ok (- 1), s)" "java_reject_transfer env cr j s = (Ok (- 1), s)"
    and "java_send_files env cr j k s = (Ok (- 1), s)" "java_send_files env cr k j s = (Ok (- 1), s)"
    and "java_set_downloads_dir env j t = (Ok (- 1), t)" "java_set_data_dir env j t = (Ok (- 1), t)"
  using assms
  by (cases "jn_get_string env j"; auto simp: java_init_def java_accept_transfer_def java_reject_transfer_def
      java_send_files_def java_set_downloads_dir_def java_set_data_dir_def with_string_def split: result.split)+

end
