(* ===== verification/Delivery.thy ===== *)
theory Delivery
  imports Daemon
begin

text \<open>
  Two machines: the send command of one (\<open>crates/justdrop-daemon/src/main.rs\<close>, \<open>run_send\<close>) and the daemon of the
  other (\<open>run_daemon\<close>), with the transfer of \<open>crates/justdrop-protocol/src/transfer.rs\<close> between them.
\<close>

lemma run_send_found:
  assumes "found_peers env config k = Ok peers" "\<exists>d\<in>set peers. matches name d"
    and "send_files (dm_lib env) config paths w = (Ok tid, w')"
  shows "\<exists>d. d \<in> set peers \<and> matches name d \<and> run_send env debug config k name paths w = (Ok (tid, d), w')"
proof -
  obtain d where d: "List.find (matches name) peers = Some d"
    using assms(2) by (cases "List.find (matches name) peers") (auto simp: find_None_iff)
  then have "d \<in> set peers" "matches name d" by (auto simp: find_Some_iff)
  moreover have "run_send env debug config k name paths w = (Ok (tid, d), w')"
    using assms(1,3) d by (simp add: run_send_def bind_io_def lift_io_def map_err_io_def return_io_def)
  ultimately show ?thesis by blast
qed


definition demo_sender :: "bytes \<Rightarrow> daemon_env" where
  "demo_sender fp = demo_daemon\<lparr>dm_seen := [(5, ServiceResolved (resolved ''Ann-PC._justdrop._tcp.local.'' [''10.0.0.2'']
     (registered_service Linux None 42420 fp demo_registrar)))]\<rparr>"

definition demo_auto :: config where
  "demo_auto = demo_config\<lparr>cf_security := default_security\<lparr>sc_auto_accept_all := True\<rparr>\<rparr>"

lemma demo_found:
  assumes "length fp = 32"
  shows "\<exists>peers. found_peers (demo_sender fp) demo_config demo_keys = Ok peers \<and> (\<exists>d\<in>set peers. matches ''Ann'' d)"
proof -
  have "parse_fingerprint (hex_encode fp) = (Ok (Some fp) :: (bytes option, unit) result)"
    using assms by (simp add: parse_fingerprint_def hex_roundtrip)
  moreover have "trim_end_matches ''.'' (sanitized ''Ann-PC'' @ ''.local.'') = ''Ann-PC.local''"
    by (simp only: trim_local) (simp add: sanitized_def is_alphanumeric_def)
  ultimately show ?thesis
    by (simp add: found_peers_def demo_sender_def demo_daemon_def plain_def new_registrar_def registrar_new_def registered_def
        register_def browsing_def start_browsing_def browser_new_def bind_io_def lift_io_def Let_def browse_def resolved_def
        registered_service_def demo_registrar_def browser_peers_def matches_def)
qed


end
