(* ===== verification/Console.thy ===== *)
theory Console
  imports Daemon
begin

text \<open>
  What the command line program reports (\<open>crates/justdrop-daemon/src/main.rs\<close>): the log entries of the two loops
  that follow the events of a daemon, and the lines the send command prints. A text is a sequence of
  UTF-8 bytes; a log entry is its level, its fields with their formatted values and its message.
\<close>

datatype log_level = LogInfo | LogWarn | LogError

type_synonym log_entry = "log_level \<times> (string \<times> string) list \<times> string"

definition utf8 :: "nat list \<Rightarrow> string" where
  "utf8 bs = map char_of bs"

section \<open>Peers\<close>

fun peer_log :: "peer_event \<Rightarrow> log_entry" where
  "peer_log (Discovered d) = (LogInfo,
     [(''name'', dv_name d), (''addr'', fst (dv_addr d) @ '':'' @ show_nat (snd (dv_addr d))),
      (''platform'', platform_display (dv_platform d))], utf8 [0xF0, 0x9F, 0x93, 0xB1] @ '' peer discovered'')"
| "peer_log (LostPeer i) = (LogInfo, [(''id'', i)], ''peer lost'')"
| "peer_log (Updated d) = (LogInfo, [(''name'', dv_name d)], ''peer updated'')"

section \<open>Transfers\<close>

text \<open>\<open>Debug\<close> of an optional text and of a direction.\<close>

definition eta_debug :: "u64 option \<Rightarrow> string" where
  "eta_debug eta = (case eta of None \<Rightarrow> ''None'' | Some s \<Rightarrow> ''Some('' @ [CHR 0x22] @ show_nat s @ ''s'' @ [CHR 0x22] @ '')'')"

fun direction_debug :: "transfer_direction \<Rightarrow> string" where
  "direction_debug Sending = ''Sending''"
| "direction_debug Receiving = ''Receiving''"

fun transfer_log :: "transfer_event \<Rightarrow> log_entry list" where
  "transfer_log (EvIncomingRequest t m peer) =
     (LogInfo, [(''transfer_id'', t), (''sender'', peer), (''files'', show_nat (length (mf_files m))),
        (''size'', format_bytes (mf_total_size m))], utf8 [0xF0, 0x9F, 0x93, 0xA5] @ '' incoming transfer request'')
     # map (\<lambda>f. (LogInfo, [], ''  '' @ utf8 [0xF0, 0x9F, 0x93, 0x84] @ '' '' @ fe_relative_path f @ '' ('' @ format_bytes (fe_size f) @ '')''))
         (mf_files m)"
| "transfer_log (EvProgress p) =
     (if percent p mod 10 = 0
      then [(LogInfo, [(''transfer_id'', tp_transfer_id p), (''progress'', show_nat (percent p) @ ''%''),
               (''speed'', format_bytes (tp_speed_bps p) @ ''/s''), (''eta'', eta_debug (tp_eta_secs p))],
             utf8 [0xE2, 0xAC, 0x87, 0xEF, 0xB8, 0x8F] @ ''  progress'')]
      else [])"
| "transfer_log (EvCompleted t dir) =
     [(LogInfo, [(''transfer_id'', t), (''direction'', direction_debug dir)], utf8 [0xE2, 0x9C, 0x85] @ '' transfer complete'')]"
| "transfer_log (EvFailed t e) =
     [(LogError, [(''transfer_id'', t), (''error'', e)], utf8 [0xE2, 0x9D, 0x8C] @ '' transfer failed'')]"
| "transfer_log (EvCancelled t) =
     [(LogWarn, [(''transfer_id'', t)], utf8 [0xF0, 0x9F, 0x9A, 0xAB] @ '' transfer cancelled'')]"

section \<open>The progress of the send command\<close>

fun progress_print :: "transfer_event \<Rightarrow> string option" where
  "progress_print (EvProgress p) = Some ([CHR 0x0D] @ ''  '' @ format_bytes (tp_bytes_transferred p) @ '' '' @ show_nat (percent p)
     @ ''% ('' @ format_bytes (tp_speed_bps p) @ ''/s) ETA: '' @ show_nat (case tp_eta_secs p of Some s \<Rightarrow> s | None \<Rightarrow> 0) @ ''s    '')"
| "progress_print (EvCompleted _ _) = Some ([CHR 0x0A] @ utf8 [0xE2, 0x9C, 0x85] @ '' Transfer complete!'' @ [CHR 0x0A])"
| "progress_print (EvFailed _ e) = Some ([CHR 0x0A] @ utf8 [0xE2, 0x9D, 0x8C] @ '' Transfer failed: '' @ e @ [CHR 0x0A])"
| "progress_print (EvIncomingRequest _ _ _) = None"
| "progress_print (EvCancelled _) = None"

definition printed :: "transfer_event list \<Rightarrow> string" where
  "printed evs = concat (List.map_filter progress_print evs)"

section \<open>Facts\<close>

text \<open>The log leaves out progress events only, and never the one that reports the last byte.\<close>

lemma log_shows_ends: "transfer_log ev = [] \<Longrightarrow> \<exists>p. ev = EvProgress p \<and> percent p mod 10 \<noteq> 0"
  by (cases ev) (auto split: if_splits)

lemma log_shows_last_progress:
  "tp_total_bytes p \<le> tp_bytes_transferred p \<Longrightarrow> transfer_log (EvProgress p) \<noteq> []"
  using percent_complete [of p] by simp

end
