(* ===== verification/Endpoint.thy ===== *)
theory Endpoint
  imports Framing
begin

text \<open>
  \<open>crates/justdrop-transport/src\<close>: the TLS configuration (\<open>tls.rs\<close>) and the endpoints and connections of QUIC
  (\<open>endpoint.rs\<close>). The libraries rustls and quinn are a parameter: what they build from a configuration,
  and the calls on endpoints and connections, which act on a network of their own.
\<close>

section \<open>TLS\<close>

text \<open>The only certificate verifier of the program, and the certificate data it is asked about.\<close>

datatype verifier = SkipServerVerification

record server_tls =
  tls_client_auth :: bool
  tls_cert_chain :: "bytes list"
  tls_key :: bytes
  tls_server_alpn :: "string list"

record client_tls =
  tls_verifier :: verifier
  tls_client_cert :: "bytes option"
  tls_client_alpn :: "string list"

text \<open>An address is its text, \<open>ql_connect\<close> the start of a connection and \<open>ql_established\<close> its end.\<close>

record ('net, 'srv, 'cli, 'ep, 'conn, 'st) quic_lib =
  ql_single_cert :: "bytes list \<Rightarrow> bytes \<Rightarrow> (unit, string) result"
  ql_server_crypto :: "server_tls \<Rightarrow> ('srv, string) result"
  ql_client_crypto :: "client_tls \<Rightarrow> ('cli, string) result"
  ql_server :: "'srv \<Rightarrow> string \<Rightarrow> ('net, 'ep, string) io"
  ql_client :: "string \<Rightarrow> ('net, 'ep, string) io"
  ql_set_default_client_config :: "'cli \<Rightarrow> 'ep \<Rightarrow> 'ep"
  ql_connect :: "'ep \<Rightarrow> string \<Rightarrow> string \<Rightarrow> ('net, 'conn, string) io"
  ql_established :: "'conn \<Rightarrow> ('net, 'conn, string) io"
  ql_open_bi :: "'conn \<Rightarrow> ('net, 'st \<times> 'st, string) io"
  ql_accept_bi :: "'conn \<Rightarrow> ('net, 'st \<times> 'st, string) io"
  ql_remote_address :: "'conn \<Rightarrow> string"
  ql_finish :: "'st \<Rightarrow> ('net, unit, string) io"
  ql_read_to_end :: "'st \<Rightarrow> usize \<Rightarrow> ('net, bytes, string) io"
  ql_close :: "'conn \<Rightarrow> nat \<Rightarrow> string \<Rightarrow> 'net \<Rightarrow> 'net"

definition ALPN :: string where "ALPN = ''justdrop/1''"

definition server_config ::
  "('net, 'srv, 'cli, 'ep, 'conn, 'st) quic_lib \<Rightarrow> bytes \<Rightarrow> bytes \<Rightarrow> ('srv, transport_error) result" where
  "server_config ql pkcs8_der cert_der =
     bind_res (map_err (\<lambda>e. QTls (''server config: '' @ e)) (ql_single_cert ql [cert_der] pkcs8_der)) (\<lambda>_.
     map_err (\<lambda>e. QTls (''quic server config: '' @ e))
       (ql_server_crypto ql \<lparr>tls_client_auth = False, tls_cert_chain = [cert_der], tls_key = pkcs8_der,
          tls_server_alpn = [ALPN]\<rparr>))"

definition client_config :: "('net, 'srv, 'cli, 'ep, 'conn, 'st) quic_lib \<Rightarrow> ('cli, transport_error) result" where
  "client_config ql =
     map_err (\<lambda>e. QTls (''quic client config: '' @ e))
       (ql_client_crypto ql \<lparr>tls_verifier = SkipServerVerification, tls_client_cert = None, tls_client_alpn = [ALPN]\<rparr>)"

text \<open>
  The three callbacks of the verifier: certificate, intermediates, server name, OCSP response and time;
  message, certificate and signature. Each answers with the assertion that all is well.
\<close>

fun verify_server_cert ::
  "verifier \<Rightarrow> bytes \<Rightarrow> bytes list \<Rightarrow> string \<Rightarrow> bytes \<Rightarrow> int \<Rightarrow> (unit, string) result" where
  "verify_server_cert SkipServerVerification end_entity intermediates server_name ocsp now = Ok ()"

fun verify_tls12_signature :: "verifier \<Rightarrow> bytes \<Rightarrow> bytes \<Rightarrow> bytes \<Rightarrow> (unit, string) result" where
  "verify_tls12_signature SkipServerVerification message cert dss = Ok ()"

fun verify_tls13_signature :: "verifier \<Rightarrow> bytes \<Rightarrow> bytes \<Rightarrow> bytes \<Rightarrow> (unit, string) result" where
  "verify_tls13_signature SkipServerVerification message cert dss = Ok ()"

datatype signature_scheme = ED25519 | ECDSA_NISTP256_SHA256 | RSA_PSS_SHA256

fun supported_verify_schemes :: "verifier \<Rightarrow> signature_scheme list" where
  "supported_verify_schemes SkipServerVerification = [ED25519, ECDSA_NISTP256_SHA256, RSA_PSS_SHA256]"

section \<open>Endpoints and connections\<close>

definition create_server ::
  "('net, 'srv, 'cli, 'ep, 'conn, 'st) quic_lib \<Rightarrow> string \<Rightarrow> bytes \<Rightarrow> bytes \<Rightarrow> ('net, 'ep, transport_error) io" where
  "create_server ql bind_addr pkcs8_der cert_der =
     bind_io (lift_io (server_config ql pkcs8_der cert_der)) (\<lambda>cfg.
     map_err_io (\<lambda>e. QBind (''server bind '' @ bind_addr @ '': '' @ e)) (ql_server ql cfg bind_addr))"

definition create_client :: "('net, 'srv, 'cli, 'ep, 'conn, 'st) quic_lib \<Rightarrow> ('net, 'ep, transport_error) io" where
  "create_client ql =
     bind_io (map_err_io (\<lambda>e. QBind (''client bind: '' @ e)) (ql_client ql ''0.0.0.0:0'')) (\<lambda>ep.
     bind_io (lift_io (client_config ql)) (\<lambda>cfg.
       return_io (ql_set_default_client_config ql cfg ep)))"

definition quic_connect ::
  "('net, 'srv, 'cli, 'ep, 'conn, 'st) quic_lib \<Rightarrow> 'ep \<Rightarrow> string \<Rightarrow> ('net, 'conn, transport_error) io" where
  "quic_connect ql ep addr =
     bind_io (map_err_io (\<lambda>e. QConnection (''connect config: '' @ e)) (ql_connect ql ep addr ''justdrop'')) (\<lambda>c.
     map_err_io (\<lambda>e. QConnection (''connect '' @ addr @ '': '' @ e)) (ql_established ql c))"

definition open_stream ::
  "('net, 'srv, 'cli, 'ep, 'conn, 'st) quic_lib \<Rightarrow> 'conn \<Rightarrow> ('net, 'st \<times> 'st, transport_error) io" where
  "open_stream ql c = map_err_io (\<lambda>e. QConnection (''open_bi: '' @ e)) (ql_open_bi ql c)"

definition accept_stream ::
  "('net, 'srv, 'cli, 'ep, 'conn, 'st) quic_lib \<Rightarrow> 'conn \<Rightarrow> ('net, 'st \<times> 'st, transport_error) io" where
  "accept_stream ql c = map_err_io (\<lambda>e. QConnection (''accept_bi: '' @ e)) (ql_accept_bi ql c)"

definition remote_addr :: "('net, 'srv, 'cli, 'ep, 'conn, 'st) quic_lib \<Rightarrow> 'conn \<Rightarrow> string" where
  "remote_addr ql c = ql_remote_address ql c"

definition quic_close :: "('net, 'srv, 'cli, 'ep, 'conn, 'st) quic_lib \<Rightarrow> string \<Rightarrow> 'conn \<Rightarrow> 'net \<Rightarrow> 'net" where
  "quic_close ql reason c = ql_close ql c 0 reason"

text \<open>
  The end of a stream (\<open>lib.rs\<close>): telling the peer that no more data follows, and reading what is left, up to
  a limit. The frames of a stream are in \<open>Framing\<close>.
\<close>

definition stream_finish ::
  "('net, 'srv, 'cli, 'ep, 'conn, 'st) quic_lib \<Rightarrow> 'st \<Rightarrow> ('net, unit, transport_error) io" where
  "stream_finish ql st = map_err_io QWrite (ql_finish ql st)"

definition stream_read_to_end ::
  "('net, 'srv, 'cli, 'ep, 'conn, 'st) quic_lib \<Rightarrow> 'st \<Rightarrow> usize \<Rightarrow> ('net, bytes, transport_error) io" where
  "stream_read_to_end ql st max_size = map_err_io QRead (ql_read_to_end ql st max_size)"

section \<open>Facts\<close>

text \<open>Without a server configuration nothing is bound: the network is not touched.\<close>

lemma no_config_no_server:
  assumes "\<nexists>cfg. server_config ql key cert = Ok cfg"
  shows "snd (create_server ql addr key cert net) = net"
  using assms by (cases "server_config ql key cert") (auto simp: create_server_def bind_io_def lift_io_def)

end
