(* ===== verification/Wire.thy ===== *)
theory Wire
  imports Transport
begin

text \<open>
  The messages of a conversation on the bytes between the two sides: \<open>ProtocolCodec\<close> of
  \<open>crates/justdrop-protocol/src/codec.rs\<close> over two encrypted transports whose sockets are connected. It
  justifies the view of \<open>File_Transfer\<close>, where a side finds in its inbox what the other has sent.
\<close>

section \<open>Two connected ends\<close>

text \<open>
  One message crosses: \<open>t\<close> sends it, the bytes it has written arrive at \<open>u\<close> in pieces as TCP cuts them,
  and \<open>u\<close> receives.
\<close>

definition hand_over :: "(bytes \<Rightarrow> bytes list) \<Rightarrow> nat \<Rightarrow> 'n secure_transport \<Rightarrow> 'n secure_transport \<Rightarrow> 'n secure_transport" where
  "hand_over pieces k t u =
     u\<lparr>st_stream := (st_stream u)\<lparr>sk_in := sk_in (st_stream u) @ map Inl (pieces (drop k (sk_out (st_stream t))))\<rparr>\<rparr>"

type_synonym outcomes = "(unit, protocol_error) result \<times> (message option, protocol_error) result"

definition cross ::
  "('b, 'h, 'n) snow \<Rightarrow> (message \<Rightarrow> (bytes, string) result) \<Rightarrow> (bytes \<Rightarrow> (message, string) result) \<Rightarrow> (bytes \<Rightarrow> bytes list)
   \<Rightarrow> message \<Rightarrow> 'n secure_transport \<Rightarrow> 'n secure_transport \<Rightarrow> outcomes \<times> 'n secure_transport \<times> 'n secure_transport" where
  "cross sn ser de pieces m t u =
     (case codec_send sn ser m t of (r, t') \<Rightarrow>
      case codec_recv sn de (hand_over pieces (length (sk_out (st_stream t))) t' u) of (q, u') \<Rightarrow> ((r, q), t', u'))"

text \<open>A conversation: messages of the left (\<open>Inl\<close>) and of the right (\<open>Inr\<close>), in their order.\<close>

fun converse ::
  "('b, 'h, 'n) snow \<Rightarrow> (message \<Rightarrow> (bytes, string) result) \<Rightarrow> (bytes \<Rightarrow> (message, string) result) \<Rightarrow> (bytes \<Rightarrow> bytes list)
   \<Rightarrow> (message + message) list \<Rightarrow> 'n secure_transport \<Rightarrow> 'n secure_transport \<Rightarrow> outcomes list" where
  "converse sn ser de pieces [] t u = []"
| "converse sn ser de pieces (Inl m # ms) t u =
     (case cross sn ser de pieces m t u of (q, t', u') \<Rightarrow> q # converse sn ser de pieces ms t' u')"
| "converse sn ser de pieces (Inr m # ms) t u =
     (case cross sn ser de pieces m u t of (q, u', t') \<Rightarrow> q # converse sn ser de pieces ms t' u')"

text \<open>The pieces of a stream are not empty and keep its bytes in order; a message fits when it can be read back.\<close>

definition cuts :: "(bytes \<Rightarrow> bytes list) \<Rightarrow> bool" where
  "cuts pieces \<longleftrightarrow> (\<forall>x. concat (pieces x) = x \<and> [] \<notin> set (pieces x))"

definition codable :: "(message \<Rightarrow> (bytes, string) result) \<Rightarrow> (bytes \<Rightarrow> (message, string) result) \<Rightarrow> message \<Rightarrow> bool" where
  "codable ser de m \<longleftrightarrow> (\<exists>d. ser m = Ok d \<and> de d = Ok m \<and> length d + 16 \<le> 65535)"

definition idle :: "'n secure_transport \<Rightarrow> bool" where
  "idle t \<longleftrightarrow> open_socket (st_stream t) \<and> unread t = [] \<and> (\<forall>n. sk_write_fault (st_stream t) n = None)"

section \<open>One message\<close>

lemma send_effect:
  assumes "sn_write_message sn (ns_transport (st_session t)) d (length d + 16) = (Ok c, a')" "length c \<le> 65535" "idle t"
  shows "\<exists>t'. st_send sn d t = (Ok (), t') \<and> idle t' \<and> ns_transport (st_session t') = a'
    \<and> sk_out (st_stream t') = sk_out (st_stream t) @ be_bytes 4 (length c) @ c"
  using assms
  by (simp add: st_send_def on_session_def noise_encrypt_def TAG_LEN_def bind_io_def map_err_io_def
      on_stream_def sock_write_all_def as_u32_def Let_def idle_def open_socket_def unread_def)

lemma joined_append: "clean i \<Longrightarrow> joined (i @ j) = joined i @ joined j"
  by (induction i) (auto simp: clean_def)

lemma hand_over_unread:
  assumes "cuts pieces" "idle u"
  shows "open_socket (st_stream (hand_over pieces k t u))" "unread (hand_over pieces k t u) = drop k (sk_out (st_stream t))"
proof -
  have j: "clean (map Inl xs) \<longleftrightarrow> [] \<notin> set xs" "joined (map Inl xs) = concat xs" for xs :: "bytes list"
    by (induction xs) (auto simp: clean_def)
  have "clean (sk_in (st_stream u))" using assms(2) by (simp add: idle_def open_socket_def)
  moreover from this have "clean (sk_in (st_stream u) @ i) \<longleftrightarrow> clean i" for i by (auto simp: clean_def)
  ultimately show "open_socket (st_stream (hand_over pieces k t u))"
      "unread (hand_over pieces k t u) = drop k (sk_out (st_stream t))"
    using assms j by (simp_all add: hand_over_def cuts_def idle_def open_socket_def unread_def joined_append)
qed

lemma fill_faults: "sk_write_fault (st_stream (snd (fill n t))) = sk_write_fault (st_stream t)"
proof (induction n t rule: fill.induct)
  case (1 n t)
  have "sk_write_fault (snd (sock_read s)) = sk_write_fault s" for s
    by (simp add: sock_read_def split: list.split sum.split)
  from this [of "st_stream t"] show ?case
    using 1 by (subst fill.simps) (auto split: prod.split result.split)
qed

lemma on_session_stream: "on_session f t = (r, t') \<Longrightarrow> st_stream t' = st_stream t"
  by (auto simp: on_session_def split: prod.splits)

lemma recv_faults: "sk_write_fault (st_stream (snd (st_recv sn t))) = sk_write_fault (st_stream t)"
proof -
  obtain r1 t1 where 1: "fill FRAME_HEADER_SIZE t = (r1, t1)" by fastforce
  let ?n = "of_be (take 4 (st_read_buf t1))"
  obtain r2 t2 where 2: "fill (FRAME_HEADER_SIZE + ?n) t1 = (r2, t2)" by fastforce
  let ?buf = "drop FRAME_HEADER_SIZE (st_read_buf t2)"
  obtain r3 t3 where 3: "on_session (noise_decrypt sn (take ?n ?buf)) (t2\<lparr>st_read_buf := drop ?n ?buf\<rparr>) = (r3, t3)"
    by fastforce
  have "sk_write_fault (st_stream t1) = sk_write_fault (st_stream t)" using fill_faults [of FRAME_HEADER_SIZE t] 1 by simp
  moreover have "sk_write_fault (st_stream t2) = sk_write_fault (st_stream t1)"
    using fill_faults [of "FRAME_HEADER_SIZE + ?n" t1] 2 by simp
  moreover have "st_stream t3 = st_stream t2" using on_session_stream [OF 3] by simp
  ultimately show ?thesis using 1 2 3
    by (cases r1; cases r2; cases r3) (auto simp: st_recv_def bind_io_def Let_def map_err_io_def return_io_def)
qed

lemma cross_delivers:
  assumes sn: "noise_channel sn R" and pieces: "cuts pieces" and m: "codable ser de m"
    and t: "idle t" and u: "idle u" and R: "R (ns_transport (st_session t)) (ns_transport (st_session u))"
  shows "\<exists>t' u'. cross sn ser de pieces m t u = ((Ok (), Ok (Some m)), t', u') \<and> idle t' \<and> idle u'
    \<and> R (ns_transport (st_session t')) (ns_transport (st_session u'))"
proof -
  obtain d where d: "ser m = Ok d" "de d = Ok m" "length d + 16 \<le> 65535" using m by (auto simp: codable_def)
  obtain c a' b' where w: "sn_write_message sn (ns_transport (st_session t)) d (length d + 16) = (Ok c, a')"
    and lc: "length c = length d + 16"
    and rd: "sn_read_message sn (ns_transport (st_session u)) c (length c) = (Ok d, b')" and R': "R a' b'"
    using sn R d(3) unfolding noise_channel_def by blast
  have len: "length c \<le> 65535" using lc d(3) by simp
  obtain t' where t': "st_send sn d t = (Ok (), t')" "idle t'" "ns_transport (st_session t') = a'"
    "sk_out (st_stream t') = sk_out (st_stream t) @ be_bytes 4 (length c) @ c"
    using send_effect [OF w len t] by blast
  let ?u = "hand_over pieces (length (sk_out (st_stream t))) t' u"
  have un: "open_socket (st_stream ?u)" "unread ?u = be_bytes 4 (length c) @ c"
    using hand_over_unread [OF pieces u, of "length (sk_out (st_stream t))" t'] t'(4) by simp_all
  have ses: "st_session ?u = st_session u" and wf: "\<forall>n. sk_write_fault (st_stream ?u) n = None"
    using u by (simp_all add: hand_over_def idle_def)
  have hdr: "of_be (take 4 (unread ?u)) = length c" "take (length c) (drop 4 (unread ?u)) = c"
    using len by (simp_all add: un)
  obtain u' where u': "st_recv sn ?u = (Ok (Some d), u')" "open_socket (st_stream u')" "unread u' = []"
      "ns_transport (st_session u') = b'"
    using recv_open(2) [OF un(1) _ hdr(1), of sn d b'] len hdr(2) rd un ses by (auto simp: MAX_MESSAGE_SIZE_def)
  have "idle u'" using u' wf recv_faults [of sn ?u] by (simp add: idle_def)
  moreover have "cross sn ser de pieces m t u = ((Ok (), Ok (Some m)), t', u')"
    using t'(1) u'(1) d by (simp add: cross_def codec_send_def codec_recv_def bind_io_def lift_io_def map_err_io_def return_io_def)
  ultimately show ?thesis using t' u' R' by blast
qed

section \<open>Conversations\<close>

text \<open>
  C9. Both sides of a conversation receive exactly what the other has sent: over a pair of Noise sessions,
  in whichever order the sides take turns and however TCP cuts the bytes, every message that fits is
  sent without error and received unchanged.
\<close>

theorem conversation_delivers:
  assumes "noise_channel sn R" and "noise_channel sn (\<lambda>b a. R a b)" and "cuts pieces"
    and "\<forall>m\<in>set ms. codable ser de (case m of Inl x \<Rightarrow> x | Inr x \<Rightarrow> x)"
    and "idle t" and "idle u" and "R (ns_transport (st_session t)) (ns_transport (st_session u))"
  shows "converse sn ser de pieces ms t u = map (\<lambda>m. (Ok (), Ok (Some (case m of Inl x \<Rightarrow> x | Inr x \<Rightarrow> x)))) ms"
  using assms(4-)
proof (induction ms arbitrary: t u)
  case (Cons m ms)
  show ?case
  proof (cases m)
    case (Inl x)
    with Cons.prems(1) have "codable ser de x" by simp
    from cross_delivers [OF assms(1,3) this Cons.prems(2,3,4)] obtain t' u' where
      "cross sn ser de pieces x t u = ((Ok (), Ok (Some x)), t', u')" "idle t'" "idle u'"
      "R (ns_transport (st_session t')) (ns_transport (st_session u'))" by blast
    then show ?thesis using Inl Cons by simp
  next
    case (Inr x)
    with Cons.prems(1) have "codable ser de x" by simp
    from cross_delivers [OF assms(2,3) this Cons.prems(3,2,4)] obtain t' u' where
      "cross sn ser de pieces x u t = ((Ok (), Ok (Some x)), u', t')" "idle t'" "idle u'"
      "R (ns_transport (st_session t')) (ns_transport (st_session u'))" by blast
    then show ?thesis using Inr Cons by simp
  qed
qed simp

definition demo_end :: "bytes secure_transport" where
  "demo_end = st_new (demo_socket []) \<lparr>ns_transport = []\<rparr>"

theorem conversation_delivers_witness:
  "converse toy_snow (\<lambda>m. case m of TransferComplete h \<Rightarrow> Ok h | _ \<Rightarrow> Err ''unsupported'') (\<lambda>d. Ok (TransferComplete d))
      (map (\<lambda>b. [b])) [Inl (TransferComplete [1, 2]), Inl (TransferComplete []), Inr (TransferComplete [3])] demo_end demo_end
    = [(Ok (), Ok (Some (TransferComplete [1, 2]))), (Ok (), Ok (Some (TransferComplete []))),
       (Ok (), Ok (Some (TransferComplete [3])))]"
proof -
  have "cuts (map (\<lambda>b. [b]))" by (auto simp: cuts_def)
  moreover have "idle demo_end"
    by (simp add: demo_end_def idle_def st_new_def demo_socket_def unread_def open_socket_def clean_def)
  ultimately show ?thesis
    using conversation_delivers [OF toy_channel(1,1), of "map (\<lambda>b. [b])"
      "[Inl (TransferComplete [1, 2]), Inl (TransferComplete []), Inr (TransferComplete [3])]"
      "\<lambda>m. case m of TransferComplete h \<Rightarrow> Ok h | _ \<Rightarrow> Err ''unsupported''" "\<lambda>d. Ok (TransferComplete d)" demo_end demo_end]
    by (simp add: codable_def)
qed

end
